theory Spec2Isabelle
  imports Complex_Main "HOL-Library.Word"
begin

unbundle bit_operations_syntax

section \<open>Vector and matrix values (glm)\<close>

text \<open>
  The engine computes with glm's \<open>vec3\<close>, \<open>vec4\<close>, \<open>quat\<close> and \<open>mat4\<close> over
  \<open>float\<close>.  Here a \<open>float\<close> is a real number and every operation is exact: the
  theorems below are about the algorithms, not about rounding, overflow to infinity or NaN.
  A \<open>mat4\<close> is four columns, as in glm, so \<open>m[i][j]\<close> is component \<open>j\<close> of column \<open>i\<close>.
\<close>

record vec3 =
  vx :: real
  vy :: real
  vz :: real

record vec4 =
  x4 :: real
  y4 :: real
  z4 :: real
  w4 :: real

record mat4 =
  c0 :: vec4
  c1 :: vec4
  c2 :: vec4
  c3 :: vec4

definition vadd :: "vec3 \<Rightarrow> vec3 \<Rightarrow> vec3" where
  "vadd a b = \<lparr>vx = vx a + vx b, vy = vy a + vy b, vz = vz a + vz b\<rparr>"

definition vsub :: "vec3 \<Rightarrow> vec3 \<Rightarrow> vec3" where
  "vsub a b = \<lparr>vx = vx a - vx b, vy = vy a - vy b, vz = vz a - vz b\<rparr>"

definition vscale :: "vec3 \<Rightarrow> real \<Rightarrow> vec3" where
  "vscale a s = \<lparr>vx = vx a * s, vy = vy a * s, vz = vz a * s\<rparr>"

definition vdiv :: "vec3 \<Rightarrow> real \<Rightarrow> vec3" where
  "vdiv a s = \<lparr>vx = vx a / s, vy = vy a / s, vz = vz a / s\<rparr>"

definition dot :: "vec3 \<Rightarrow> vec3 \<Rightarrow> real" where
  "dot a b = vx a * vx b + vy a * vy b + vz a * vz b"

text \<open>\<open>glm::length\<close>, \<open>glm::distance\<close>, \<open>glm::distance2\<close> and \<open>glm::normalize\<close>.\<close>

definition length3 :: "vec3 \<Rightarrow> real" where
  "length3 a = sqrt (dot a a)"

definition distance :: "vec3 \<Rightarrow> vec3 \<Rightarrow> real" where
  "distance p0 p1 = length3 (vsub p1 p0)"

definition distance2 :: "vec3 \<Rightarrow> vec3 \<Rightarrow> real" where
  "distance2 p0 p1 = dot (vsub p1 p0) (vsub p1 p0)"

definition normalize :: "vec3 \<Rightarrow> vec3" where
  "normalize a = vscale a (1 / sqrt (dot a a))"

text \<open>Indexing: \<open>col m i\<close> is \<open>m[i]\<close> and \<open>mat_at m i j\<close> is \<open>m[i][j]\<close>.\<close>

definition comp4 :: "vec4 \<Rightarrow> nat \<Rightarrow> real" where
  "comp4 v j = (if j = 0 then x4 v else if j = 1 then y4 v else if j = 2 then z4 v else w4 v)"

definition col :: "mat4 \<Rightarrow> nat \<Rightarrow> vec4" where
  "col m i = (if i = 0 then c0 m else if i = 1 then c1 m else if i = 2 then c2 m else c3 m)"

definition mat_at :: "mat4 \<Rightarrow> nat \<Rightarrow> nat \<Rightarrow> real" where
  "mat_at m i j = comp4 (col m i) j"

section \<open>Planes, frustum and bounding sphere (frustum_culling.hpp)\<close>

record Plane =
  normal :: vec3
  plane_d :: real

definition Plane_distance :: "Plane \<Rightarrow> vec3 \<Rightarrow> real" where
  "Plane_distance pl p = dot (normal pl) p + plane_d pl"

text \<open>
  \<open>Frustum\<close> holds a \<open>std::array<Plane, 6>\<close>: 0 left, 1 right, 2 bottom, 3 top, 4 near,
  5 far.  The array is a list here; every frustum of the program has length six.
\<close>

record Frustum =
  planes :: "Plane list"

record BoundingSphere =
  center :: vec3
  radius :: real

section \<open>extractFrustum\<close>

text \<open>The twenty-four assignments of \<open>extractFrustum\<close>, before the normalisation loop.\<close>

definition extractFrustum_raw :: "mat4 \<Rightarrow> Plane list" where
  "extractFrustum_raw vp =
    [ \<lparr>normal = \<lparr>vx = mat_at vp 0 3 + mat_at vp 0 0, vy = mat_at vp 1 3 + mat_at vp 1 0, vz = mat_at vp 2 3 + mat_at vp 2 0\<rparr>,
       plane_d = mat_at vp 3 3 + mat_at vp 3 0\<rparr>,
      \<lparr>normal = \<lparr>vx = mat_at vp 0 3 - mat_at vp 0 0, vy = mat_at vp 1 3 - mat_at vp 1 0, vz = mat_at vp 2 3 - mat_at vp 2 0\<rparr>,
       plane_d = mat_at vp 3 3 - mat_at vp 3 0\<rparr>,
      \<lparr>normal = \<lparr>vx = mat_at vp 0 3 + mat_at vp 0 1, vy = mat_at vp 1 3 + mat_at vp 1 1, vz = mat_at vp 2 3 + mat_at vp 2 1\<rparr>,
       plane_d = mat_at vp 3 3 + mat_at vp 3 1\<rparr>,
      \<lparr>normal = \<lparr>vx = mat_at vp 0 3 - mat_at vp 0 1, vy = mat_at vp 1 3 - mat_at vp 1 1, vz = mat_at vp 2 3 - mat_at vp 2 1\<rparr>,
       plane_d = mat_at vp 3 3 - mat_at vp 3 1\<rparr>,
      \<lparr>normal = \<lparr>vx = mat_at vp 0 3 + mat_at vp 0 2, vy = mat_at vp 1 3 + mat_at vp 1 2, vz = mat_at vp 2 3 + mat_at vp 2 2\<rparr>,
       plane_d = mat_at vp 3 3 + mat_at vp 3 2\<rparr>,
      \<lparr>normal = \<lparr>vx = mat_at vp 0 3 - mat_at vp 0 2, vy = mat_at vp 1 3 - mat_at vp 1 2, vz = mat_at vp 2 3 - mat_at vp 2 2\<rparr>,
       plane_d = mat_at vp 3 3 - mat_at vp 3 2\<rparr> ]"

text \<open>
  The loop \<open>for (int i = 0; i < 6; i++)\<close> that divides \<open>planes[i].normal\<close> and
  \<open>planes[i].d\<close> by \<open>glm::length(planes[i].normal)\<close>, in place.  The source does not
  guard a zero length; a real division by zero is \<open>0\<close> in HOL, where the float division
  gives an infinity or NaN, so nothing is claimed about that case.
\<close>

function normalize_planes_from :: "nat \<Rightarrow> Plane list \<Rightarrow> Plane list" where
  "normalize_planes_from i ps =
     (if i < 6 then
        (let len = length3 (normal (ps ! i));
             p = \<lparr>normal = vdiv (normal (ps ! i)) len, plane_d = plane_d (ps ! i) / len\<rparr>
         in normalize_planes_from (Suc i) (ps[i := p]))
      else ps)"
  by pat_completeness auto
termination
  by (relation "measure (\<lambda>(i, ps). 6 - i)") auto

declare normalize_planes_from.simps [simp del]

definition extractFrustum :: "mat4 \<Rightarrow> Frustum" where
  "extractFrustum vp = \<lparr>planes = normalize_planes_from 0 (extractFrustum_raw vp)\<rparr>"

text \<open>
  The specification's wording of the same planes: \<open>row vp i\<close> is the row with components
  \<open>M[0][i], M[1][i], M[2][i], M[3][i]\<close>, a plane is a four-vector (normal, d), and a plane
  is normalised by dividing normal and d by the length of the normal.
\<close>

definition row :: "mat4 \<Rightarrow> nat \<Rightarrow> vec4" where
  "row m i = \<lparr>x4 = mat_at m 0 i, y4 = mat_at m 1 i, z4 = mat_at m 2 i, w4 = mat_at m 3 i\<rparr>"

definition add4 :: "vec4 \<Rightarrow> vec4 \<Rightarrow> vec4" where
  "add4 a b = \<lparr>x4 = x4 a + x4 b, y4 = y4 a + y4 b, z4 = z4 a + z4 b, w4 = w4 a + w4 b\<rparr>"

definition sub4 :: "vec4 \<Rightarrow> vec4 \<Rightarrow> vec4" where
  "sub4 a b = \<lparr>x4 = x4 a - x4 b, y4 = y4 a - y4 b, z4 = z4 a - z4 b, w4 = w4 a - w4 b\<rparr>"

definition plane_of :: "vec4 \<Rightarrow> Plane" where
  "plane_of v = \<lparr>normal = \<lparr>vx = x4 v, vy = y4 v, vz = z4 v\<rparr>, plane_d = w4 v\<rparr>"

definition spec_rows :: "mat4 \<Rightarrow> Plane list" where
  "spec_rows vp =
     [ plane_of (add4 (row vp 3) (row vp 0)), plane_of (sub4 (row vp 3) (row vp 0)),
       plane_of (add4 (row vp 3) (row vp 1)), plane_of (sub4 (row vp 3) (row vp 1)),
       plane_of (add4 (row vp 3) (row vp 2)), plane_of (sub4 (row vp 3) (row vp 2)) ]"

definition normalized_plane :: "Plane \<Rightarrow> Plane" where
  "normalized_plane p =
     \<lparr>normal = vdiv (normal p) (length3 (normal p)), plane_d = plane_d p / length3 (normal p)\<rparr>"

section \<open>sphereInFrustum\<close>

function sphereInFrustum_from :: "nat \<Rightarrow> Frustum \<Rightarrow> BoundingSphere \<Rightarrow> bool" where
  "sphereInFrustum_from i f boundingSphere =
     (if i < 6 then
        (let dist = Plane_distance (planes f ! i) (center boundingSphere)
         in if dist < - radius boundingSphere then False
            else sphereInFrustum_from (Suc i) f boundingSphere)
      else True)"
  by pat_completeness auto
termination
  by (relation "measure (\<lambda>(i, f, s). 6 - i)") auto

declare sphereInFrustum_from.simps [simp del]

definition sphereInFrustum :: "Frustum \<Rightarrow> BoundingSphere \<Rightarrow> bool" where
  "sphereInFrustum f boundingSphere = sphereInFrustum_from 0 f boundingSphere"

section \<open>computeBoundingSphere (Ritter)\<close>

text \<open>
  The two scans for the farthest point: \<open>a\<close> (then \<open>b\<close>) starts at \<open>0\<close> with
  \<open>maxDist = 0\<close> and is replaced by \<open>i\<close> whenever \<open>distance2(v[i], p) > maxDist\<close>,
  so the first maximum wins.  Indices are natural numbers (the source keeps \<open>a\<close> and
  \<open>b\<close> in an \<open>int\<close>, which holds every index of a vector of fewer than \<open>2^31\<close>
  points).
\<close>

function farthest_from :: "vec3 list \<Rightarrow> vec3 \<Rightarrow> nat \<Rightarrow> nat \<Rightarrow> real \<Rightarrow> nat" where
  "farthest_from v p i a maxDist =
     (if i < length v then
        (let d = distance2 (v ! i) p
         in if d > maxDist then farthest_from v p (Suc i) i d
            else farthest_from v p (Suc i) a maxDist)
      else a)"
  by pat_completeness auto
termination
  by (relation "measure (\<lambda>(v, p, i, a, m). length v - i)") auto

declare farthest_from.simps [simp del]

text \<open>The growing loop over all points, on the current \<open>center\<close> and \<open>radius\<close>.\<close>

function grow_sphere :: "vec3 list \<Rightarrow> nat \<Rightarrow> vec3 \<Rightarrow> real \<Rightarrow> BoundingSphere" where
  "grow_sphere v i c r =
     (if i < length v then
        (let d = distance (v ! i) c
         in if d > r then
              (let newRadius = (r + d) * 0.5;
                   dir = normalize (vsub (v ! i) c);
                   newCenter = vadd c (vscale dir (newRadius - r))
               in grow_sphere v (Suc i) newCenter newRadius)
            else grow_sphere v (Suc i) c r)
      else \<lparr>center = c, radius = r\<rparr>)"
  by pat_completeness auto
termination
  by (relation "measure (\<lambda>(v, i, c, r). length v - i)") auto

declare grow_sphere.simps [simp del]

text \<open>
  \<open>computeBoundingSphere\<close> reads \<open>v[0]\<close> unconditionally: on an empty vector the
  behaviour is undefined, which is \<open>None\<close> here.
\<close>

definition computeBoundingSphere :: "vec3 list \<Rightarrow> BoundingSphere option" where
  "computeBoundingSphere v =
     (if v = [] then None
      else
        (let p = v ! 0;
             a = farthest_from v p 0 0 0;
             b = farthest_from v (v ! a) 0 0 0;
             c = vscale (vadd (v ! a) (v ! b)) 0.5;
             r = distance (v ! a) (v ! b) * 0.5
         in Some (grow_sphere v 0 c r)))"

record Vertex =
  position :: vec3
  vnormal :: vec3
  texCoord :: "real \<times> real"

text \<open>
  The overload on \<open>std::vector<Vertex>\<close> is the same text with \<open>v[i].position\<close>
  for \<open>v[i]\<close>.
\<close>

definition computeBoundingSphere_Vertex :: "Vertex list \<Rightarrow> BoundingSphere option" where
  "computeBoundingSphere_Vertex v = computeBoundingSphere (map position v)"

section \<open>Quaternions and matrix products (glm)\<close>

record quat =
  qw :: real
  qx :: real
  qy :: real
  qz :: real

text \<open>\<open>glm::quat(glm::vec3 eulerAngle)\<close>.\<close>

definition quat_of_euler :: "vec3 \<Rightarrow> quat" where
  "quat_of_euler e =
     (let cx = cos (vx e * 0.5); cy = cos (vy e * 0.5); cz = cos (vz e * 0.5);
          sx = sin (vx e * 0.5); sy = sin (vy e * 0.5); sz = sin (vz e * 0.5)
      in \<lparr>qw = cx * cy * cz + sx * sy * sz,
          qx = sx * cy * cz - cx * sy * sz,
          qy = cx * sy * cz + sx * cy * sz,
          qz = cx * cy * sz - sx * sy * cz\<rparr>)"

text \<open>\<open>glm::mat4_cast\<close>: the rotation matrix of a quaternion, as a \<open>mat4\<close>.\<close>

definition mat4_cast :: "quat \<Rightarrow> mat4" where
  "mat4_cast q =
     (let qxx = qx q * qx q; qyy = qy q * qy q; qzz = qz q * qz q;
          qxz = qx q * qz q; qxy = qx q * qy q; qyz = qy q * qz q;
          qwx = qw q * qx q; qwy = qw q * qy q; qwz = qw q * qz q
      in \<lparr>c0 = \<lparr>x4 = 1 - 2 * (qyy + qzz), y4 = 2 * (qxy + qwz), z4 = 2 * (qxz - qwy), w4 = 0\<rparr>,
          c1 = \<lparr>x4 = 2 * (qxy - qwz), y4 = 1 - 2 * (qxx + qzz), z4 = 2 * (qyz + qwx), w4 = 0\<rparr>,
          c2 = \<lparr>x4 = 2 * (qxz + qwy), y4 = 2 * (qyz - qwx), z4 = 1 - 2 * (qxx + qyy), w4 = 0\<rparr>,
          c3 = \<lparr>x4 = 0, y4 = 0, z4 = 0, w4 = 1\<rparr>\<rparr>)"

definition scale4 :: "vec4 \<Rightarrow> real \<Rightarrow> vec4" where
  "scale4 a s = \<lparr>x4 = x4 a * s, y4 = y4 a * s, z4 = z4 a * s, w4 = w4 a * s\<rparr>"

text \<open>\<open>mat4 * vec4\<close> and \<open>mat4 * mat4\<close>: column \<open>i\<close> of \<open>a * b\<close> is \<open>a * b[i]\<close>.\<close>

definition mat_vec :: "mat4 \<Rightarrow> vec4 \<Rightarrow> vec4" where
  "mat_vec m v =
     add4 (add4 (add4 (scale4 (c0 m) (x4 v)) (scale4 (c1 m) (y4 v))) (scale4 (c2 m) (z4 v)))
          (scale4 (c3 m) (w4 v))"

definition mat_mul :: "mat4 \<Rightarrow> mat4 \<Rightarrow> mat4" where
  "mat_mul a b =
     \<lparr>c0 = mat_vec a (c0 b), c1 = mat_vec a (c1 b), c2 = mat_vec a (c2 b), c3 = mat_vec a (c3 b)\<rparr>"

section \<open>Scene graph node (node.hpp, node.cpp)\<close>

text \<open>
  The \<open>Mesh\<close> class (\<open>mesh.hpp\<close>, \<open>mesh.cpp\<close>): the vertices and the 32-bit indices
  (\<open>IndexType\<close> is \<open>uint32_t\<close>), each in the order in which they were added.  A mesh is a
  shared object compared by identity (it is the key of \<open>meshBufferMap\<close>), so the record
  carries the identity of the object next to its two members.  The size of a vector is a
  natural number.  \<open>vertex(i)\<close> and \<open>index(i)\<close>, which the engine does not call, are
  left out.
\<close>

record Mesh =
  mesh_id :: nat
  m_vertices :: "Vertex list"
  m_indices :: "32 word list"

text \<open>
  \<open>addVertex\<close> returns the position of the new vertex, \<open>size() - 1\<close> cast to \<open>IndexType\<close>.
\<close>

definition addVertex :: "Mesh \<Rightarrow> Vertex \<Rightarrow> 32 word \<times> Mesh" where
  "addVertex m vertex =
     (let m' = m\<lparr>m_vertices := m_vertices m @ [vertex]\<rparr>
      in (of_nat (length (m_vertices m') - 1), m'))"

definition addIndex :: "Mesh \<Rightarrow> 32 word \<Rightarrow> Mesh" where
  "addIndex m index = m\<lparr>m_indices := m_indices m @ [index]\<rparr>"

definition vertices :: "Mesh \<Rightarrow> Vertex list" where
  "vertices m = m_vertices m"

definition indices :: "Mesh \<Rightarrow> 32 word list" where
  "indices m = m_indices m"

definition numberOfVertices :: "Mesh \<Rightarrow> nat" where
  "numberOfVertices m = length (m_vertices m)"

definition numberOfIndices :: "Mesh \<Rightarrow> nat" where
  "numberOfIndices m = length (m_indices m)"

text \<open>A texture is only held by a node; it is the identity of the shared object.\<close>

type_synonym Texture = nat

text \<open>
  \<open>std::shared_ptr<T>\<close> is \<open>T option\<close> (\<open>None\<close> the null pointer).  A
  \<open>std::weak_ptr<T>\<close> is empty, or refers to an object that has been released, or to a
  live one; \<open>lock\<close> gives the object in the last case only.
\<close>

datatype 'a weak_ptr = WeakEmpty | WeakExpired | WeakLive 'a

fun lock :: "'a weak_ptr \<Rightarrow> 'a option" where
  "lock WeakEmpty = None"
| "lock WeakExpired = None"
| "lock (WeakLive r) = Some r"

datatype Node = Node
  (m_parent: "Node weak_ptr")
  (m_pos: vec3)
  (m_quat: quat)
  (m_mesh: "Mesh option")
  (m_texture: "Texture option")
  (m_boundingSphere: BoundingSphere)

text \<open>\<open>Node() = default\<close>, with the member initialisers of the class.\<close>

definition Node_default :: Node where
  "Node_default =
     Node WeakEmpty \<lparr>vx = 0, vy = 0, vz = 0\<rparr> (quat_of_euler \<lparr>vx = 0, vy = 0, vz = 0\<rparr>)
          None None \<lparr>center = \<lparr>vx = 0, vy = 0, vz = 0\<rparr>, radius = 0\<rparr>"

text \<open>
  \<open>Node(mesh, texture)\<close> and \<open>setMesh\<close> dereference the mesh and compute the sphere of
  its vertices: a null mesh or a mesh without vertices is undefined behaviour (\<open>None\<close>).
\<close>

definition Node_new :: "Mesh option \<Rightarrow> Texture option \<Rightarrow> Node option" where
  "Node_new mesh texture =
     (case mesh of
        None \<Rightarrow> None
      | Some m \<Rightarrow>
          (case computeBoundingSphere_Vertex (vertices m) of
             None \<Rightarrow> None
           | Some s \<Rightarrow>
               Some (Node WeakEmpty \<lparr>vx = 0, vy = 0, vz = 0\<rparr>
                          (quat_of_euler \<lparr>vx = 0, vy = 0, vz = 0\<rparr>) mesh texture s)))"

definition setMesh :: "Node \<Rightarrow> Mesh option \<Rightarrow> Node option" where
  "setMesh n mesh =
     (case mesh of
        None \<Rightarrow> None
      | Some m \<Rightarrow>
          (case computeBoundingSphere_Vertex (vertices m) of
             None \<Rightarrow> None
           | Some s \<Rightarrow>
               Some (Node (m_parent n) (m_pos n) (m_quat n) mesh (m_texture n) s)))"

definition setPosition :: "Node \<Rightarrow> vec3 \<Rightarrow> Node" where
  "setPosition n pos =
     Node (m_parent n) pos (m_quat n) (m_mesh n) (m_texture n) (m_boundingSphere n)"

definition setQuat :: "Node \<Rightarrow> quat \<Rightarrow> Node" where
  "setQuat n q =
     Node (m_parent n) (m_pos n) q (m_mesh n) (m_texture n) (m_boundingSphere n)"

definition setEulerAngle :: "Node \<Rightarrow> vec3 \<Rightarrow> Node" where
  "setEulerAngle n angle =
     Node (m_parent n) (m_pos n) (quat_of_euler \<lparr>vx = vx angle, vy = vy angle, vz = vz angle\<rparr>)
          (m_mesh n) (m_texture n) (m_boundingSphere n)"

definition setTexture :: "Node \<Rightarrow> Texture option \<Rightarrow> Node" where
  "setTexture n texture =
     Node (m_parent n) (m_pos n) (m_quat n) (m_mesh n) texture (m_boundingSphere n)"

definition localMatrix :: "Node \<Rightarrow> mat4" where
  "localMatrix n =
     (let modelMatrix = mat4_cast (m_quat n)
      in modelMatrix\<lparr>c3 := \<lparr>x4 = vx (m_pos n), y4 = vy (m_pos n), z4 = vz (m_pos n), w4 = 1\<rparr>\<rparr>)"

fun worldMatrix :: "Node \<Rightarrow> mat4" where
  "worldMatrix (Node parent pos q mesh texture sphere) =
     (case parent of
        WeakLive r \<Rightarrow> mat_mul (worldMatrix r) (localMatrix (Node parent pos q mesh texture sphere))
      | _ \<Rightarrow> localMatrix (Node parent pos q mesh texture sphere))"

definition boundingSphere :: "Node \<Rightarrow> BoundingSphere" where
  "boundingSphere n =
     (let boundingSphere = m_boundingSphere n
      in boundingSphere\<lparr>center := vadd (center boundingSphere) (m_pos n)\<rparr>)"

text \<open>
  The nodes a client of the class can have: built by one of the two constructors and
  changed by the public setters.  (The members are private and the class has no friend.)
\<close>

inductive public_node :: "Node \<Rightarrow> bool" where
  pn_default: "public_node Node_default"
| pn_new: "Node_new mesh texture = Some n \<Longrightarrow> public_node n"
| pn_setPosition: "public_node n \<Longrightarrow> public_node (setPosition n pos)"
| pn_setQuat: "public_node n \<Longrightarrow> public_node (setQuat n q)"
| pn_setEulerAngle: "public_node n \<Longrightarrow> public_node (setEulerAngle n angle)"
| pn_setMesh: "public_node n \<Longrightarrow> setMesh n mesh = Some n' \<Longrightarrow> public_node n'"
| pn_setTexture: "public_node n \<Longrightarrow> public_node (setTexture n texture)"

section \<open>Engine: uniform buffers (engine.hpp, engine.cpp)\<close>

text \<open>
  \<open>size_t\<close> and \<open>VkDeviceSize\<close> are 64-bit words and \<open>uint32_t\<close> is a 32-bit word;
  \<open>+\<close>, \<open>-\<close> and \<open>*\<close> wrap around as in the source.
\<close>

type_synonym u64 = "64 word"
type_synonym u32 = "32 word"

record AllocatedBuffer =
  buffer :: nat
  allocation :: nat

record MeshData =
  vertexBuffer :: AllocatedBuffer
  indexBuffer :: AllocatedBuffer

text \<open>The part of \<open>Engine\<close> and its \<open>Context\<close> that the frame reads and writes.\<close>

record Engine =
  m_nodes :: "Node list"
  m_shadowCastingNodes :: "bool list"
  m_visibleNodes :: "bool list"
  m_lightPos :: vec3
  m_lightColor :: vec3
  m_intensity :: real
  m_ambient :: real
  device :: nat
  minUniformBufferOffsetAlignment :: u64
  swapchainDimensions :: "u32 \<times> u32"
  currentIndex :: u32
  sceneUBOBufferSizeForVS :: u64
  modelUBOBufferSizePerNode :: u64
  shadowUBOBufferSizePerNode :: u64
  modelUniformBufferSize :: u64
  shadowUniformBufferSize :: u64
  meshBufferMap :: "Mesh option \<rightharpoonup> MeshData"

definition MAX_NODES :: u32 where
  "MAX_NODES = 32"

text \<open>
  \<open>sizeof\<close> of the uniform structs: a \<open>glm::mat4\<close> is 64 bytes, a \<open>glm::vec3\<close> 12,
  a \<open>float\<close> and a \<open>uint32_t\<close> 4, all aligned to 4.
\<close>

definition sizeof_SceneUBO_VS :: u64 where
  "sizeof_SceneUBO_VS = 140"

definition sizeof_SceneUBO_FS :: u64 where
  "sizeof_SceneUBO_FS = 20"

definition sizeof_ModelUBO :: u64 where
  "sizeof_ModelUBO = 132"

definition sizeof_ShadowUniformBufferObject :: u64 where
  "sizeof_ShadowUniformBufferObject = 64"

definition minDynamicUBOAlignment :: "Engine \<Rightarrow> u64 \<Rightarrow> u64" where
  "minDynamicUBOAlignment e uboSize =
     (let min_ubo_alignment = minUniformBufferOffsetAlignment e;
          uboBufferSizePerNode = uboSize
      in if min_ubo_alignment > 0
         then (uboBufferSizePerNode + min_ubo_alignment - 1) AND NOT (min_ubo_alignment - 1)
         else uboBufferSizePerNode)"

text \<open>
  \<open>initSceneUB\<close>, \<open>initShadowUB\<close> and \<open>initModelUB\<close>: the stride of a node and the
  \<open>size\<close> of the \<open>VkBufferCreateInfo\<close> of each per-frame buffer.
\<close>

definition initSceneUB :: "Engine \<Rightarrow> Engine" where
  "initSceneUB e = e\<lparr>sceneUBOBufferSizeForVS := minDynamicUBOAlignment e sizeof_SceneUBO_VS\<rparr>"

definition initShadowUB :: "Engine \<Rightarrow> Engine" where
  "initShadowUB e =
     (let e1 = e\<lparr>shadowUBOBufferSizePerNode :=
                   minDynamicUBOAlignment e sizeof_ShadowUniformBufferObject\<rparr>;
          shadowTotalBufferSize = ucast MAX_NODES * shadowUBOBufferSizePerNode e1
      in e1\<lparr>shadowUniformBufferSize := shadowTotalBufferSize\<rparr>)"

definition initModelUB :: "Engine \<Rightarrow> Engine" where
  "initModelUB e =
     (let e1 = e\<lparr>modelUBOBufferSizePerNode := minDynamicUBOAlignment e sizeof_ModelUBO\<rparr>;
          totalBufferSize = ucast MAX_NODES * modelUBOBufferSizePerNode e1
      in e1\<lparr>modelUniformBufferSize := totalBufferSize\<rparr>)"

definition addNode :: "Engine \<Rightarrow> Node \<Rightarrow> Engine" where
  "addNode e node = e\<lparr>m_nodes := m_nodes e @ [node]\<rparr>"

text \<open>
  A call of \<open>vmaCopyMemoryToAllocation\<close>: the destination allocation, the byte offset
  in it, the number of bytes and the struct that is copied.
\<close>

datatype UBOData =
    SceneUBO_VS mat4 mat4 vec3
  | SceneUBO_FS vec3 real real
  | ShadowUniformBufferObject mat4
  | ModelUBO mat4 mat4 u32

datatype Allocation =
    sceneUniformBufferAllocation
  | shadowUniformBufferAllocation
  | modelUniformBufferAllocation

record Copy =
  dstAllocation :: Allocation
  dstOffset :: u64
  copySize :: u64
  srcData :: UBOData

definition bias :: mat4 where
  "bias = \<lparr>c0 = \<lparr>x4 = 0.5, y4 = 0, z4 = 0, w4 = 0\<rparr>,
           c1 = \<lparr>x4 = 0, y4 = 0.5, z4 = 0, w4 = 0\<rparr>,
           c2 = \<lparr>x4 = 0, y4 = 0, z4 = 1, w4 = 0\<rparr>,
           c3 = \<lparr>x4 = 0.5, y4 = 0.5, z4 = 0, w4 = 1\<rparr>\<rparr>"

text \<open>
  The loop of \<open>updateUBO\<close> over the nodes.  \<open>shadowVP\<close> and \<open>sceneVP\<close> are the
  products computed before the loop.  The flag vectors are indexed without a check: they
  have the length of the node list when \<open>update\<close> calls \<open>updateUBO\<close>.
\<close>

function updateUBO_nodes :: "mat4 \<Rightarrow> mat4 \<Rightarrow> nat \<Rightarrow> Engine \<Rightarrow> Copy list \<Rightarrow> Engine \<times> Copy list" where
  "updateUBO_nodes shadowVP sceneVP i e copies =
     (if i < length (m_nodes e) then
        (let model = worldMatrix (m_nodes e ! i);
             depthMVP = mat_mul shadowVP model;
             shadowOffset = of_nat i * shadowUBOBufferSizePerNode e;
             shadowCopy = \<lparr>dstAllocation = shadowUniformBufferAllocation, dstOffset = shadowOffset,
                           copySize = sizeof_ShadowUniformBufferObject,
                           srcData = ShadowUniformBufferObject depthMVP\<rparr>;
             shadowFrustum = extractFrustum shadowVP;
             e1 = e\<lparr>m_shadowCastingNodes := (m_shadowCastingNodes e)
                        [i := sphereInFrustum shadowFrustum (boundingSphere (m_nodes e ! i))]\<rparr>;
             offset = of_nat i * modelUBOBufferSizePerNode e1;
             modelCopy = \<lparr>dstAllocation = modelUniformBufferAllocation, dstOffset = offset,
                          copySize = sizeof_ModelUBO,
                          srcData = ModelUBO model (mat_mul bias depthMVP) (of_nat i)\<rparr>;
             sceneFrustum = extractFrustum sceneVP;
             e2 = e1\<lparr>m_visibleNodes := (m_visibleNodes e1)
                        [i := sphereInFrustum sceneFrustum (boundingSphere (m_nodes e1 ! i))]\<rparr>
         in updateUBO_nodes shadowVP sceneVP (Suc i) e2 (copies @ [shadowCopy, modelCopy]))
      else (e, copies))"
  by pat_completeness auto
termination
  by (relation "measure (\<lambda>(svp, vp, i, e, cs). length (m_nodes e) - i)") auto

declare updateUBO_nodes.simps [simp del]

text \<open>
  \<open>updateUBO\<close>.  The view and projection matrices of the light and of the camera are
  computed by glm from the light position, the camera and the swapchain extent; they are
  inputs here (the projections with their \<open>[1][1]\<close> already negated).
\<close>

record Matrices =
  shadowView :: mat4
  shadowProj :: mat4
  view :: mat4
  proj :: mat4

definition updateUBO :: "Matrices \<Rightarrow> Engine \<Rightarrow> Engine \<times> Copy list" where
  "updateUBO ms e =
     (let shadowVP = mat_mul (shadowProj ms) (shadowView ms);
          sceneVP = mat_mul (proj ms) (view ms);
          sceneCopies =
            [ \<lparr>dstAllocation = sceneUniformBufferAllocation, dstOffset = 0,
               copySize = sizeof_SceneUBO_VS,
               srcData = SceneUBO_VS (view ms) (proj ms) (m_lightPos e)\<rparr>,
              \<lparr>dstAllocation = sceneUniformBufferAllocation, dstOffset = sceneUBOBufferSizeForVS e,
               copySize = sizeof_SceneUBO_FS,
               srcData = SceneUBO_FS (m_lightColor e) (m_intensity e) (m_ambient e)\<rparr> ]
      in updateUBO_nodes shadowVP sceneVP 0 e sceneCopies)"

section \<open>Engine: recording the two passes\<close>

datatype Image = shadowImage | colorImages u32 | swapchainImages u32

datatype ImageLayout =
    LAYOUT_UNDEFINED
  | LAYOUT_DEPTH_STENCIL_ATTACHMENT_OPTIMAL
  | LAYOUT_SHADER_READ_ONLY_OPTIMAL
  | LAYOUT_COLOR_ATTACHMENT_OPTIMAL
  | LAYOUT_PRESENT_SRC_KHR

datatype Pipeline = shadowPipeline | pipeline

datatype PipelineLayout = shadowPipelineLayout | pipelineLayout

datatype DescriptorSet =
    sceneDescriptorSet u32
  | modelDescriptorSet u32
  | shadowDescriptorSet u32
  | textureDescriptorSet

datatype CullMode = CULL_MODE_FRONT_BIT | CULL_MODE_BACK_BIT

text \<open>
  The commands recorded into the primary command buffer.  Of a bind of descriptor sets
  the layout, the first set, the set and the dynamic offsets are kept; of an indexed draw
  the index count.
\<close>

datatype Cmd =
    CmdPipelineBarrier2 Image ImageLayout ImageLayout
  | CmdBeginRendering Pipeline
  | CmdBindPipeline Pipeline
  | CmdSetViewport
  | CmdSetScissor
  | CmdSetCullMode CullMode
  | CmdSetFrontFace
  | CmdSetPrimitiveTopology
  | CmdSetDepthBias
  | CmdBindVertexBuffers nat
  | CmdBindIndexBuffer nat
  | CmdBindDescriptorSets PipelineLayout nat DescriptorSet "u32 list"
  | CmdDrawIndexed u32
  | CmdEndRendering

text \<open>
  \<open>meshBufferMap[key]\<close> of a \<open>std::unordered_map\<close>: a missing key is inserted with a
  value-initialised \<open>MeshData\<close> (null handles).
\<close>

definition null_MeshData :: MeshData where
  "null_MeshData = \<lparr>vertexBuffer = \<lparr>buffer = 0, allocation = 0\<rparr>,
                     indexBuffer = \<lparr>buffer = 0, allocation = 0\<rparr>\<rparr>"

definition map_index :: "('k \<rightharpoonup> MeshData) \<Rightarrow> 'k \<Rightarrow> MeshData \<times> ('k \<rightharpoonup> MeshData)" where
  "map_index m k = (case m k of Some v \<Rightarrow> (v, m) | None \<Rightarrow> (null_MeshData, m(k \<mapsto> null_MeshData)))"

text \<open>
  What one iteration of the loop of \<open>renderShadow\<close> records for node \<open>i\<close> when its flag
  is set, and the same for the loop of \<open>render\<close>.  \<open>node->mesh()->numberOfIndices()\<close>
  dereferences the mesh: a node without a mesh is undefined behaviour (\<open>None\<close>).
\<close>

definition shadow_draw :: "Engine \<Rightarrow> u32 \<Rightarrow> nat \<Rightarrow> (Cmd list \<times> Engine) option" where
  "shadow_draw e swapchain_index i =
     (let node = m_nodes e ! i;
          (meshBuffer, m') = map_index (meshBufferMap e) (m_mesh node);
          dynamic_offset = (ucast (of_nat i * shadowUBOBufferSizePerNode e) :: u32)
      in case m_mesh node of
           None \<Rightarrow> None
         | Some mesh \<Rightarrow>
             Some ([ CmdBindVertexBuffers (buffer (vertexBuffer meshBuffer)),
                     CmdBindIndexBuffer (buffer (indexBuffer meshBuffer)),
                     CmdBindDescriptorSets shadowPipelineLayout 0
                       (shadowDescriptorSet swapchain_index) [dynamic_offset],
                     CmdDrawIndexed (of_nat (numberOfIndices mesh)) ],
                   e\<lparr>meshBufferMap := m'\<rparr>))"

definition color_draw :: "Engine \<Rightarrow> u32 \<Rightarrow> nat \<Rightarrow> (Cmd list \<times> Engine) option" where
  "color_draw e swapchain_index i =
     (let node = m_nodes e ! i;
          (meshBuffer, m') = map_index (meshBufferMap e) (m_mesh node);
          dynamic_offset = (ucast (of_nat i * modelUBOBufferSizePerNode e) :: u32)
      in case m_mesh node of
           None \<Rightarrow> None
         | Some mesh \<Rightarrow>
             Some ([ CmdBindVertexBuffers (buffer (vertexBuffer meshBuffer)),
                     CmdBindIndexBuffer (buffer (indexBuffer meshBuffer)),
                     CmdBindDescriptorSets pipelineLayout 1
                       (modelDescriptorSet swapchain_index) [dynamic_offset],
                     CmdDrawIndexed (of_nat (numberOfIndices mesh)) ],
                   e\<lparr>meshBufferMap := m'\<rparr>))"

function renderShadow_nodes :: "u32 \<Rightarrow> nat \<Rightarrow> Engine \<Rightarrow> Cmd list \<Rightarrow> (Cmd list \<times> Engine) option" where
  "renderShadow_nodes swapchain_index i e cmds =
     (if i < length (m_nodes e) then
        (if \<not> m_shadowCastingNodes e ! i then renderShadow_nodes swapchain_index (Suc i) e cmds
         else
           (case shadow_draw e swapchain_index i of
              None \<Rightarrow> None
            | Some (cs, e') \<Rightarrow>
                renderShadow_nodes swapchain_index (Suc i) (e\<lparr>meshBufferMap := meshBufferMap e'\<rparr>)
                  (cmds @ cs)))
      else Some (cmds, e))"
  by pat_completeness auto
termination
  by (relation "measure (\<lambda>(idx, i, e, cs). length (m_nodes e) - i)") auto

declare renderShadow_nodes.simps [simp del]

function render_nodes :: "u32 \<Rightarrow> nat \<Rightarrow> Engine \<Rightarrow> Cmd list \<Rightarrow> (Cmd list \<times> Engine) option" where
  "render_nodes swapchain_index i e cmds =
     (if i < length (m_nodes e) then
        (if \<not> m_visibleNodes e ! i then render_nodes swapchain_index (Suc i) e cmds
         else
           (case color_draw e swapchain_index i of
              None \<Rightarrow> None
            | Some (cs, e') \<Rightarrow>
                render_nodes swapchain_index (Suc i) (e\<lparr>meshBufferMap := meshBufferMap e'\<rparr>)
                  (cmds @ cs)))
      else Some (cmds, e))"
  by pat_completeness auto
termination
  by (relation "measure (\<lambda>(idx, i, e, cs). length (m_nodes e) - i)") auto

declare render_nodes.simps [simp del]

definition renderShadow :: "Engine \<Rightarrow> u32 \<Rightarrow> Cmd list \<Rightarrow> (Cmd list \<times> Engine) option" where
  "renderShadow e swapchain_index cmd =
     (case renderShadow_nodes swapchain_index 0 e
             (cmd @ [ CmdBeginRendering shadowPipeline, CmdBindPipeline shadowPipeline,
                      CmdSetViewport, CmdSetScissor, CmdSetCullMode CULL_MODE_FRONT_BIT,
                      CmdSetFrontFace, CmdSetPrimitiveTopology, CmdSetDepthBias ]) of
        None \<Rightarrow> None
      | Some (cmds, e') \<Rightarrow> Some (cmds @ [CmdEndRendering], e'))"

text \<open>
  \<open>render\<close>: the shadow pass, the barrier that makes the shadow image readable, the
  colour pass and the closing barriers.  The result is the command buffer that is
  submitted to the queue.
\<close>

definition render :: "Engine \<Rightarrow> u32 \<Rightarrow> (Cmd list \<times> Engine) option" where
  "render e swapchain_index =
     (case renderShadow e swapchain_index
             [CmdPipelineBarrier2 shadowImage LAYOUT_UNDEFINED
                LAYOUT_DEPTH_STENCIL_ATTACHMENT_OPTIMAL] of
        None \<Rightarrow> None
      | Some (cmd1, e1) \<Rightarrow>
          (case render_nodes swapchain_index 0 e1
                  (cmd1 @
                   [ CmdPipelineBarrier2 shadowImage LAYOUT_DEPTH_STENCIL_ATTACHMENT_OPTIMAL
                       LAYOUT_SHADER_READ_ONLY_OPTIMAL,
                     CmdPipelineBarrier2 (colorImages swapchain_index) LAYOUT_UNDEFINED
                       LAYOUT_COLOR_ATTACHMENT_OPTIMAL,
                     CmdPipelineBarrier2 (swapchainImages swapchain_index) LAYOUT_UNDEFINED
                       LAYOUT_COLOR_ATTACHMENT_OPTIMAL,
                     CmdBeginRendering pipeline, CmdBindPipeline pipeline,
                     CmdSetViewport, CmdSetScissor, CmdSetCullMode CULL_MODE_BACK_BIT,
                     CmdSetFrontFace, CmdSetPrimitiveTopology,
                     CmdBindDescriptorSets pipelineLayout 0 (sceneDescriptorSet swapchain_index) [],
                     CmdBindDescriptorSets pipelineLayout 2 textureDescriptorSet [] ]) of
             None \<Rightarrow> None
           | Some (cmd2, e2) \<Rightarrow>
               Some (cmd2 @
                     [ CmdEndRendering,
                       CmdPipelineBarrier2 (swapchainImages swapchain_index)
                         LAYOUT_COLOR_ATTACHMENT_OPTIMAL LAYOUT_PRESENT_SRC_KHR,
                       CmdPipelineBarrier2 shadowImage LAYOUT_SHADER_READ_ONLY_OPTIMAL
                         LAYOUT_DEPTH_STENCIL_ATTACHMENT_OPTIMAL ],
                     e2)))"

section \<open>Engine: one frame (update)\<close>

datatype VkResult =
    VK_SUCCESS
  | VK_SUBOPTIMAL_KHR
  | VK_ERROR_OUT_OF_DATE_KHR
  | VK_OTHER int

text \<open>
  How a call can end without returning.  \<open>VK_CHECK\<close> throws a \<open>std::runtime_error\<close> for
  every result other than \<open>VK_SUCCESS\<close>, and nothing in \<open>update\<close> or under it catches
  it.  Handing \<open>VK_NULL_HANDLE\<close> to Vulkan or VMA where an object is required, indexing a
  vector out of its range, dereferencing a null mesh and taking \<open>value()\<close> of a failed
  \<open>vkb::Result\<close> are undefined.
\<close>

datatype Error =
    Vulkan_error VkResult
  | Undefined_behaviour

definition VK_CHECK :: "VkResult \<Rightarrow> Error + unit" where
  "VK_CHECK err = (if err \<noteq> VK_SUCCESS then Inl (Vulkan_error err) else Inr ())"

text \<open>Sequencing: what follows a call runs only when the call has returned.\<close>

definition bind_result :: "Error + 'a \<Rightarrow> ('a \<Rightarrow> Error + 'b) \<Rightarrow> Error + 'b" where
  "bind_result r f = (case r of Inl err \<Rightarrow> Inl err | Inr v \<Rightarrow> f v)"

text \<open>
  What the frame does to the outside, in order.  \<open>Acquire r\<close> and \<open>Present r\<close> are the
  calls of \<open>acquireNextSwapchainImage\<close> and \<open>presentImage\<close> with their results,
  \<open>InitSwapchain\<close> the rebuild in \<open>resize\<close>, \<open>CopyUBO\<close> the uniform writes of
  \<open>updateUBO\<close> and \<open>Submit\<close> the command buffer recorded by \<open>render\<close>.
\<close>

datatype Event =
    Acquire VkResult
  | Present VkResult
  | DeviceWaitIdle
  | InitSwapchain
  | QueueWaitIdle
  | LogI string
  | LogE string
  | CopyUBO "Copy list"
  | Submit "Cmd list"

text \<open>
  A Vulkan or VMA handle is \<open>VK_NULL_HANDLE\<close> or an object that a create call has
  returned; which object is not told apart.
\<close>

datatype Handle = VK_NULL_HANDLE | Created

text \<open>
  \<open>struct PerFrame\<close> (engine.hpp) without its \<open>depthMVP\<close>.  The members whose names the
  allocations and descriptor sets above already bear carry the suffix \<open>_pf\<close>.
\<close>

record PerFrame =
  queue_submit_fence :: Handle
  primary_command_pool :: Handle
  primary_command_buffer :: Handle
  swapchain_acquire_semaphore :: Handle
  swapchain_release_semaphore :: Handle
  sceneDescriptorSet_pf :: Handle
  sceneUniformBuffer :: Handle
  sceneUniformBufferAllocation_pf :: Handle
  modelDescriptorSet_pf :: Handle
  modelUniformBuffer :: Handle
  modelUniformBufferAllocation_pf :: Handle
  shadowDescriptorSet_pf :: Handle
  shadowUniformBuffer :: Handle
  shadowUniformBufferAllocation_pf :: Handle

text \<open>A value-initialised \<open>PerFrame\<close>, as \<open>perFrame.resize\<close> makes it: every handle null.\<close>

definition PerFrame_default :: PerFrame where
  "PerFrame_default =
     \<lparr>queue_submit_fence = VK_NULL_HANDLE, primary_command_pool = VK_NULL_HANDLE,
      primary_command_buffer = VK_NULL_HANDLE,
      swapchain_acquire_semaphore = VK_NULL_HANDLE, swapchain_release_semaphore = VK_NULL_HANDLE,
      sceneDescriptorSet_pf = VK_NULL_HANDLE, sceneUniformBuffer = VK_NULL_HANDLE,
      sceneUniformBufferAllocation_pf = VK_NULL_HANDLE,
      modelDescriptorSet_pf = VK_NULL_HANDLE, modelUniformBuffer = VK_NULL_HANDLE,
      modelUniformBufferAllocation_pf = VK_NULL_HANDLE,
      shadowDescriptorSet_pf = VK_NULL_HANDLE, shadowUniformBuffer = VK_NULL_HANDLE,
      shadowUniformBufferAllocation_pf = VK_NULL_HANDLE\<rparr>"

text \<open>
  The members of \<open>Context\<close> that \<open>update\<close> reads and writes next to those that
  \<open>Engine\<close> above holds: the per-frame entries, one for each swapchain image, and the
  semaphores waiting to be used again.  \<open>update\<close> works on the pair of the two records.
\<close>

record Context =
  perFrame :: "PerFrame list"
  recycledSemaphores :: "Handle list"

text \<open>
  What \<open>initSwapchain\<close> reads from the outside: the extent of the swapchain that
  \<open>build()\<close> returns (\<open>None\<close> when the build fails), whether \<open>get_images()\<close> and
  \<open>get_image_views()\<close> hold a value, and for each image of the new swapchain the results
  of \<open>vkCreateFence\<close>, \<open>vkCreateCommandPool\<close> and \<open>vkAllocateCommandBuffers\<close> in
  \<open>initPerFrame\<close>; \<open>image_count\<close> is the number of these triples.
\<close>

record SwapchainBuild =
  build :: "(u32 \<times> u32) option"
  get_images :: bool
  per_frame_results :: "(VkResult \<times> VkResult \<times> VkResult) list"
  get_image_views :: bool

text \<open>
  What the frame reads from the outside, in the order of the calls: the result of
  \<open>vkCreateSemaphore\<close> in each acquire (read only when no semaphore waits to be used
  again), the result and the image index of each \<open>vkAcquireNextImageKHR\<close>, the result
  and the current extent of \<open>vkGetPhysicalDeviceSurfaceCapabilitiesKHR\<close> in each
  \<open>resize\<close> with what its \<open>initSwapchain\<close> reads, the matrices, the first result other
  than \<open>VK_SUCCESS\<close> among the checked calls of \<open>updateUBO\<close> and \<open>render\<close>
  (\<open>vmaCopyMemoryToAllocation\<close>, \<open>vkBeginCommandBuffer\<close>, \<open>vkEndCommandBuffer\<close>,
  \<open>vkCreateSemaphore\<close>, \<open>vkQueueSubmit\<close>; \<open>VK_SUCCESS\<close> when there is none), and the
  result of \<open>vkQueuePresentKHR\<close>.
\<close>

record FrameEnv =
  semaphore_1 :: VkResult
  acquire_1 :: "VkResult \<times> u32"
  surface_1 :: "VkResult \<times> (u32 \<times> u32)"
  built_1 :: SwapchainBuild
  semaphore_2 :: VkResult
  acquire_2 :: "VkResult \<times> u32"
  matrices :: Matrices
  frame_checks :: VkResult
  present_result :: VkResult
  surface_2 :: "VkResult \<times> (u32 \<times> u32)"
  built_2 :: SwapchainBuild

text \<open>
  \<open>acquireNextSwapchainImage\<close>.  \<open>vkAcquireNextImageKHR\<close> writes the image index into
  \<open>currentIndex\<close> when it returns \<open>VK_SUCCESS\<close> or \<open>VK_SUBOPTIMAL_KHR\<close>.  The semaphore
  goes back to the recycled ones after every result other than \<open>VK_SUCCESS\<close>, and into
  the per-frame entry of the image otherwise.
\<close>

definition acquireNextSwapchainImage ::
  "VkResult \<Rightarrow> VkResult \<times> u32 \<Rightarrow> Engine \<times> Context \<Rightarrow> Error + (VkResult \<times> Engine \<times> Context)" where
  "acquireNextSwapchainImage created r s =
     (case s of (e, c) \<Rightarrow>
        bind_result
          (if recycledSemaphores c = []
           then bind_result (VK_CHECK created) (\<lambda>_. Inr (Created, c))
           else Inr (last (recycledSemaphores c),
                     c\<lparr>recycledSemaphores := butlast (recycledSemaphores c)\<rparr>))
          (\<lambda>(acquire_semaphore, c1).
             let res = fst r;
                 e1 = (if res = VK_SUCCESS \<or> res = VK_SUBOPTIMAL_KHR
                       then e\<lparr>currentIndex := snd r\<rparr> else e)
             in if res \<noteq> VK_SUCCESS
                then Inr (res, e1,
                          c1\<lparr>recycledSemaphores := recycledSemaphores c1 @ [acquire_semaphore]\<rparr>)
                else if \<not> unat (snd r) < length (perFrame c1) then Inl Undefined_behaviour
                else
                  (let image = unat (snd r);
                       per_frame = perFrame c1 ! image;
                       old_semaphore = swapchain_acquire_semaphore per_frame;
                       c2 = (if old_semaphore \<noteq> VK_NULL_HANDLE
                             then c1\<lparr>recycledSemaphores := recycledSemaphores c1 @ [old_semaphore]\<rparr>
                             else c1)
                   in Inr (VK_SUCCESS, e1,
                           c2\<lparr>perFrame := (perFrame c2)
                                 [image := per_frame\<lparr>swapchain_acquire_semaphore := acquire_semaphore\<rparr>]\<rparr>))))"

text \<open>
  \<open>initPerFrame\<close> creates the fence, the command pool and the command buffer of an
  entry, each under \<open>VK_CHECK\<close>, and nothing else: the uniform buffers, their
  allocations and the descriptor sets of an entry are made by \<open>initUBO\<close>, which only
  \<open>prepare\<close> calls.
\<close>

definition initPerFrame :: "VkResult \<times> VkResult \<times> VkResult \<Rightarrow> PerFrame \<Rightarrow> Error + PerFrame" where
  "initPerFrame results per_frame =
     (case results of (fence, pool, command_buffer) \<Rightarrow>
        bind_result (VK_CHECK fence) (\<lambda>_.
        bind_result (VK_CHECK pool) (\<lambda>_.
        bind_result (VK_CHECK command_buffer) (\<lambda>_.
          Inr (per_frame\<lparr>queue_submit_fence := Created, primary_command_pool := Created,
                          primary_command_buffer := Created\<rparr>)))))"

text \<open>
  \<open>perFrame.clear()\<close>, \<open>perFrame.resize(image_count)\<close> and the loop of \<open>initPerFrame\<close>
  over the new entries, in \<open>initSwapchain\<close>.
\<close>

primrec initPerFrames :: "(VkResult \<times> VkResult \<times> VkResult) list \<Rightarrow> Error + PerFrame list" where
  "initPerFrames [] = Inr []"
| "initPerFrames (results # rest) =
     bind_result (initPerFrame results PerFrame_default) (\<lambda>per_frame.
     bind_result (initPerFrames rest) (\<lambda>per_frames. Inr (per_frame # per_frames)))"

definition initSwapchain ::
  "SwapchainBuild \<Rightarrow> Engine \<times> Context \<Rightarrow> Error + (Event list \<times> Engine \<times> Context)" where
  "initSwapchain sb s =
     (case s of (e, c) \<Rightarrow>
        (case build sb of
           None \<Rightarrow> Inr ([InitSwapchain, LogE ''failed to create swapchain''], e, c)
         | Some ext \<Rightarrow>
             if \<not> get_images sb then Inl Undefined_behaviour
             else bind_result (initPerFrames (per_frame_results sb)) (\<lambda>per_frames.
                    if \<not> get_image_views sb then Inl Undefined_behaviour
                    else Inr ([InitSwapchain],
                              e\<lparr>swapchainDimensions := ext\<rparr>, c\<lparr>perFrame := per_frames\<rparr>))))"

definition resize ::
  "VkResult \<times> (u32 \<times> u32) \<Rightarrow> SwapchainBuild \<Rightarrow> Engine \<times> Context
     \<Rightarrow> Error + (bool \<times> Event list \<times> Engine \<times> Context)" where
  "resize surface_properties sb s =
     (case s of (e, c) \<Rightarrow>
        if device e = 0 then Inr (False, [], e, c)
        else bind_result (VK_CHECK (fst surface_properties)) (\<lambda>_.
               if snd surface_properties = swapchainDimensions e then Inr (False, [], e, c)
               else bind_result (initSwapchain sb (e, c)) (\<lambda>(evs, e', c').
                      Inr (True, DeviceWaitIdle # evs, e', c'))))"

text \<open>\<open>std::vector<bool>::resize(n)\<close>: cut to \<open>n\<close> flags, or filled up with \<open>false\<close>.\<close>

definition vector_resize :: "bool list \<Rightarrow> nat \<Rightarrow> bool list" where
  "vector_resize xs n = take n xs @ replicate (n - length xs) False"

text \<open>The part of \<open>update\<close> after a successful acquire, up to the call of \<open>render\<close>.\<close>

definition frame :: "Matrices \<Rightarrow> Engine \<Rightarrow> (Copy list \<times> Cmd list \<times> Engine) option" where
  "frame ms e =
     (let e1 = e\<lparr>m_shadowCastingNodes := vector_resize (m_shadowCastingNodes e) (length (m_nodes e))\<rparr>;
          e2 = e1\<lparr>m_visibleNodes := vector_resize (m_visibleNodes e1) (length (m_nodes e1))\<rparr>;
          (e3, copies) = updateUBO ms e2
      in case render e3 (currentIndex e3) of
           None \<Rightarrow> None
         | Some (cmds, e4) \<Rightarrow> Some (copies, cmds, e4))"

text \<open>
  The handles of the per-frame entry that this frame hands to VMA and to Vulkan:
  \<open>updateUBO\<close> copies into the scene allocation, and into the shadow and the model
  allocation for every node; \<open>render\<close> records into the command buffer, binds the scene
  descriptor set, and binds the shadow and the model descriptor set for every node it
  draws in the pass.  The engine is the one after \<open>updateUBO\<close>, with the flags set.
\<close>

definition frame_handles :: "Engine \<Rightarrow> PerFrame \<Rightarrow> Handle list" where
  "frame_handles e per_frame =
     [sceneUniformBufferAllocation_pf per_frame, primary_command_buffer per_frame,
      sceneDescriptorSet_pf per_frame]
     @ (if m_nodes e = [] then []
        else [shadowUniformBufferAllocation_pf per_frame, modelUniformBufferAllocation_pf per_frame])
     @ (if list_ex (\<lambda>i. m_shadowCastingNodes e ! i) [0..<length (m_nodes e)]
        then [shadowDescriptorSet_pf per_frame] else [])
     @ (if list_ex (\<lambda>i. m_visibleNodes e ! i) [0..<length (m_nodes e)]
        then [modelDescriptorSet_pf per_frame] else [])"

text \<open>
  The frame on the pair of records: \<open>frame\<close> on the engine, with the entry
  \<open>perFrame[currentIndex]\<close> that \<open>updateUBO\<close> and \<open>render\<close> are given.  \<open>render\<close> creates
  the release semaphore of the entry when it has none.
\<close>

definition run_frame ::
  "FrameEnv \<Rightarrow> Engine \<times> Context \<Rightarrow> Error + (Copy list \<times> Cmd list \<times> Engine \<times> Context)" where
  "run_frame env s =
     (case s of (e, c) \<Rightarrow>
        (let image = unat (currentIndex e)
         in if \<not> image < length (perFrame c) then Inl Undefined_behaviour
            else
              (case frame (matrices env) e of
                 None \<Rightarrow> Inl Undefined_behaviour
               | Some (copies, cmds, e') \<Rightarrow>
                   (let per_frame = perFrame c ! image
                    in if VK_NULL_HANDLE \<in> set (frame_handles e' per_frame)
                       then Inl Undefined_behaviour
                       else bind_result (VK_CHECK (frame_checks env)) (\<lambda>_.
                              Inr (copies, cmds, e',
                                   c\<lparr>perFrame := (perFrame c)
                                        [image := per_frame\<lparr>swapchain_release_semaphore := Created\<rparr>]\<rparr>))))))"

text \<open>
  \<open>update\<close>.  The test \<open>res == VK_SUBOPTIMAL_KHR || res == VK_ERROR_OUT_OF_DATE_KHR\<close>
  is \<open>stale\<close>.  The result is the trace of the frame with the two records as \<open>update\<close>
  leaves them, or the way in which \<open>update\<close> does not return.
\<close>

definition stale :: "VkResult \<Rightarrow> bool" where
  "stale res \<longleftrightarrow> res = VK_SUBOPTIMAL_KHR \<or> res = VK_ERROR_OUT_OF_DATE_KHR"

definition update :: "FrameEnv \<Rightarrow> Engine \<times> Context \<Rightarrow> Error + (Event list \<times> Engine \<times> Context)" where
  "update env s =
     bind_result (acquireNextSwapchainImage (semaphore_1 env) (acquire_1 env) s) (\<lambda>(res, s1).
     bind_result
       (if stale res then
          bind_result (resize (surface_1 env) (built_1 env) s1) (\<lambda>(ok, revs, s').
            let log = (if \<not> ok then [LogI ''Resize failed''] else [])
            in bind_result (acquireNextSwapchainImage (semaphore_2 env) (acquire_2 env) s')
                 (\<lambda>(res', s''). Inr (res', [Acquire res] @ revs @ log @ [Acquire res'], s'')))
        else Inr (res, [Acquire res], s1))
       (\<lambda>(res, evs, s2).
          if res \<noteq> VK_SUCCESS then Inr (evs @ [QueueWaitIdle], s2)
          else
            bind_result (run_frame env s2) (\<lambda>(copies, cmds, s3).
              let res = present_result env;
                  evs' = evs @ [CopyUBO copies, Submit cmds, Present res]
              in if stale res then
                   bind_result (resize (surface_2 env) (built_2 env) s3) (\<lambda>(ok, revs, s4).
                     let log = (if \<not> ok then [LogI ''Resize failed''] else [])
                     in Inr (evs' @ revs @ log, s4))
                 else if res \<noteq> VK_SUCCESS then
                   Inr (evs' @ [LogE ''Failed to present swapchain image.''], s3)
                 else Inr (evs', s3))))"

section \<open>Concrete values\<close>

text \<open>
  \<open>glm::mat4(1.0f)\<close>, a uniform scaling by two, and the frustum of the identity
  view-projection: the cube from \<open>-1\<close> to \<open>1\<close> on every axis.
\<close>

definition mat4_identity :: mat4 where
  "mat4_identity = \<lparr>c0 = \<lparr>x4 = 1, y4 = 0, z4 = 0, w4 = 0\<rparr>,
                    c1 = \<lparr>x4 = 0, y4 = 1, z4 = 0, w4 = 0\<rparr>,
                    c2 = \<lparr>x4 = 0, y4 = 0, z4 = 1, w4 = 0\<rparr>,
                    c3 = \<lparr>x4 = 0, y4 = 0, z4 = 0, w4 = 1\<rparr>\<rparr>"

definition mat4_scale2 :: mat4 where
  "mat4_scale2 = \<lparr>c0 = \<lparr>x4 = 2, y4 = 0, z4 = 0, w4 = 0\<rparr>,
                  c1 = \<lparr>x4 = 0, y4 = 2, z4 = 0, w4 = 0\<rparr>,
                  c2 = \<lparr>x4 = 0, y4 = 0, z4 = 2, w4 = 0\<rparr>,
                  c3 = \<lparr>x4 = 0, y4 = 0, z4 = 0, w4 = 1\<rparr>\<rparr>"

definition vec3_of :: "real \<Rightarrow> real \<Rightarrow> real \<Rightarrow> vec3" where
  "vec3_of a b c = \<lparr>vx = a, vy = b, vz = c\<rparr>"

definition cube_frustum :: Frustum where
  "cube_frustum =
     \<lparr>planes = [ \<lparr>normal = vec3_of 1 0 0, plane_d = 1\<rparr>, \<lparr>normal = vec3_of (-1) 0 0, plane_d = 1\<rparr>,
                 \<lparr>normal = vec3_of 0 1 0, plane_d = 1\<rparr>, \<lparr>normal = vec3_of 0 (-1) 0, plane_d = 1\<rparr>,
                 \<lparr>normal = vec3_of 0 0 1, plane_d = 1\<rparr>, \<lparr>normal = vec3_of 0 0 (-1), plane_d = 1\<rparr> ]\<rparr>"

text \<open>The translation component of a transform: the first three components of its last column.\<close>

definition translation :: "mat4 \<Rightarrow> vec3" where
  "translation m = \<lparr>vx = x4 (c3 m), vy = y4 (c3 m), vz = z4 (c3 m)\<rparr>"

definition quat_identity :: quat where
  "quat_identity = \<lparr>qw = 1, qx = 0, qy = 0, qz = 0\<rparr>"

definition unit_sphere :: BoundingSphere where
  "unit_sphere = \<lparr>center = vec3_of 0 0 0, radius = 1\<rparr>"

text \<open>
  A two-level hierarchy as \<open>worldMatrix\<close> reads it: a parent at \<open>(1, 2, 3)\<close> and a
  child at \<open>(10, 0, 0)\<close> whose weak reference resolves to the parent.
\<close>

definition parent_node :: Node where
  "parent_node = Node WeakEmpty (vec3_of 1 2 3) quat_identity None None unit_sphere"

definition child_node :: Node where
  "child_node = Node (WeakLive parent_node) (vec3_of 10 0 0) quat_identity None None unit_sphere"

section \<open>What the frame is expected to record\<close>

text \<open>
  The two uniform writes of node \<open>i\<close>: the shadow struct at byte offset \<open>i\<close> times the
  shadow stride, and the model struct at byte offset \<open>i\<close> times the model stride.
\<close>

definition node_copies :: "Engine \<Rightarrow> mat4 \<Rightarrow> nat \<Rightarrow> Copy list" where
  "node_copies e shadowVP i =
     [ \<lparr>dstAllocation = shadowUniformBufferAllocation,
        dstOffset = of_nat i * shadowUBOBufferSizePerNode e,
        copySize = sizeof_ShadowUniformBufferObject,
        srcData = ShadowUniformBufferObject (mat_mul shadowVP (worldMatrix (m_nodes e ! i)))\<rparr>,
       \<lparr>dstAllocation = modelUniformBufferAllocation,
        dstOffset = of_nat i * modelUBOBufferSizePerNode e,
        copySize = sizeof_ModelUBO,
        srcData = ModelUBO (worldMatrix (m_nodes e ! i))
                    (mat_mul bias (mat_mul shadowVP (worldMatrix (m_nodes e ! i)))) (of_nat i)\<rparr> ]"

text \<open>
  A write lands inside its buffer when its last byte does: the sizes of the per-frame
  buffers are those given to \<open>vmaCreateBuffer\<close>.
\<close>

definition allocation_size :: "Engine \<Rightarrow> Allocation \<Rightarrow> u64" where
  "allocation_size e a =
     (case a of
        sceneUniformBufferAllocation \<Rightarrow> sceneUBOBufferSizeForVS e + sizeof_SceneUBO_FS
      | shadowUniformBufferAllocation \<Rightarrow> shadowUniformBufferSize e
      | modelUniformBufferAllocation \<Rightarrow> modelUniformBufferSize e)"

definition copy_in_bounds :: "Engine \<Rightarrow> Copy \<Rightarrow> bool" where
  "copy_in_bounds e c \<longleftrightarrow>
     unat (dstOffset c) + unat (copySize c) \<le> unat (allocation_size e (dstAllocation c))"

text \<open>The engine after \<open>initUBO\<close>: strides and buffer sizes as the three initialisers set them.\<close>

definition initUBO :: "Engine \<Rightarrow> Engine" where
  "initUBO e = initModelUB (initShadowUB (initSceneUB e))"

text \<open>
  The mesh buffers a draw of node \<open>i\<close> binds: the entry of the node's mesh in
  \<open>meshBufferMap\<close> (null handles when there is none), and the group of commands of one
  node with dynamic offset \<open>i\<close> times the stride, as a \<open>uint32_t\<close>.
\<close>

definition mesh_buffer :: "Engine \<Rightarrow> Mesh option \<Rightarrow> MeshData" where
  "mesh_buffer e k = (case meshBufferMap e k of Some v \<Rightarrow> v | None \<Rightarrow> null_MeshData)"

definition node_draw :: "Engine \<Rightarrow> PipelineLayout \<Rightarrow> nat \<Rightarrow> DescriptorSet \<Rightarrow> u64 \<Rightarrow> nat \<Rightarrow> Cmd list" where
  "node_draw e layout firstSet dset stride i =
     [ CmdBindVertexBuffers (buffer (vertexBuffer (mesh_buffer e (m_mesh (m_nodes e ! i))))),
       CmdBindIndexBuffer (buffer (indexBuffer (mesh_buffer e (m_mesh (m_nodes e ! i))))),
       CmdBindDescriptorSets layout firstSet dset [word_of_nat (i * unat stride)],
       CmdDrawIndexed (word_of_nat
         (case m_mesh (m_nodes e ! i) of Some mesh \<Rightarrow> numberOfIndices mesh | None \<Rightarrow> 0)) ]"

definition shadow_pass_begin :: "Cmd list" where
  "shadow_pass_begin =
     [ CmdPipelineBarrier2 shadowImage LAYOUT_UNDEFINED LAYOUT_DEPTH_STENCIL_ATTACHMENT_OPTIMAL,
       CmdBeginRendering shadowPipeline, CmdBindPipeline shadowPipeline,
       CmdSetViewport, CmdSetScissor, CmdSetCullMode CULL_MODE_FRONT_BIT,
       CmdSetFrontFace, CmdSetPrimitiveTopology, CmdSetDepthBias ]"

definition color_pass_begin :: "u32 \<Rightarrow> Cmd list" where
  "color_pass_begin swapchain_index =
     [ CmdEndRendering,
       CmdPipelineBarrier2 shadowImage LAYOUT_DEPTH_STENCIL_ATTACHMENT_OPTIMAL
         LAYOUT_SHADER_READ_ONLY_OPTIMAL,
       CmdPipelineBarrier2 (colorImages swapchain_index) LAYOUT_UNDEFINED
         LAYOUT_COLOR_ATTACHMENT_OPTIMAL,
       CmdPipelineBarrier2 (swapchainImages swapchain_index) LAYOUT_UNDEFINED
         LAYOUT_COLOR_ATTACHMENT_OPTIMAL,
       CmdBeginRendering pipeline, CmdBindPipeline pipeline,
       CmdSetViewport, CmdSetScissor, CmdSetCullMode CULL_MODE_BACK_BIT,
       CmdSetFrontFace, CmdSetPrimitiveTopology,
       CmdBindDescriptorSets pipelineLayout 0 (sceneDescriptorSet swapchain_index) [],
       CmdBindDescriptorSets pipelineLayout 2 textureDescriptorSet [] ]"

definition color_pass_end :: "u32 \<Rightarrow> Cmd list" where
  "color_pass_end swapchain_index =
     [ CmdEndRendering,
       CmdPipelineBarrier2 (swapchainImages swapchain_index)
         LAYOUT_COLOR_ATTACHMENT_OPTIMAL LAYOUT_PRESENT_SRC_KHR,
       CmdPipelineBarrier2 shadowImage LAYOUT_SHADER_READ_ONLY_OPTIMAL
         LAYOUT_DEPTH_STENCIL_ATTACHMENT_OPTIMAL ]"

text \<open>
  The specification's stride: \<open>ceil(s / a) * a\<close> on natural numbers (\<open>a\<close> at least 1).
\<close>

definition ceil_multiple :: "nat \<Rightarrow> nat \<Rightarrow> nat" where
  "ceil_multiple s a = ((s + a - 1) div a) * a"

text \<open>
  The strides and buffer sizes are those \<open>initShadowUB\<close> and \<open>initModelUB\<close> compute;
  this is so after \<open>initUBO\<close>, whenever nodes are added.
\<close>

definition ubo_initialised :: "Engine \<Rightarrow> bool" where
  "ubo_initialised e \<longleftrightarrow>
     shadowUBOBufferSizePerNode e = minDynamicUBOAlignment e sizeof_ShadowUniformBufferObject
   \<and> modelUBOBufferSizePerNode e = minDynamicUBOAlignment e sizeof_ModelUBO
   \<and> shadowUniformBufferSize e = ucast MAX_NODES * shadowUBOBufferSizePerNode e
   \<and> modelUniformBufferSize e = ucast MAX_NODES * modelUBOBufferSizePerNode e"

text \<open>The writes of \<open>updateUBO\<close> into the two per-node buffers.\<close>

definition per_node_copies :: "Copy list \<Rightarrow> Copy list" where
  "per_node_copies cs = filter (\<lambda>c. dstAllocation c \<noteq> sceneUniformBufferAllocation) cs"

section \<open>Reading a trace of update\<close>

fun is_Acquire :: "Event \<Rightarrow> bool" where
  "is_Acquire (Acquire r) = True"
| "is_Acquire ev = False"

fun is_Present :: "Event \<Rightarrow> bool" where
  "is_Present (Present r) = True"
| "is_Present ev = False"

text \<open>The events of a frame that is not skipped: the uniform writes, the submission, the present.\<close>

fun is_frame_work :: "Event \<Rightarrow> bool" where
  "is_frame_work (CopyUBO cs) = True"
| "is_frame_work (Submit cmds) = True"
| "is_frame_work (Present r) = True"
| "is_frame_work ev = False"

text \<open>
  The engine after \<open>vkAcquireNextImageKHR\<close> has returned \<open>r\<close>, and the engine after a
  \<open>resize\<close> that has returned.
\<close>

definition indexed :: "VkResult \<times> u32 \<Rightarrow> Engine \<Rightarrow> Engine" where
  "indexed r e = (if fst r = VK_SUCCESS \<or> fst r = VK_SUBOPTIMAL_KHR then e\<lparr>currentIndex := snd r\<rparr> else e)"

definition resized :: "VkResult \<times> (u32 \<times> u32) \<Rightarrow> SwapchainBuild \<Rightarrow> Engine \<Rightarrow> Engine" where
  "resized surface_properties sb e =
     e\<lparr>swapchainDimensions :=
         (if device e \<noteq> 0 \<and> snd surface_properties \<noteq> swapchainDimensions e
          then (case build sb of Some ext \<Rightarrow> ext | None \<Rightarrow> swapchainDimensions e)
          else swapchainDimensions e)\<rparr>"

text \<open>
  The result and the image index of the last call of \<open>acquireNextSwapchainImage\<close> in
  \<open>update\<close>.
\<close>

definition final_acquire :: "FrameEnv \<Rightarrow> VkResult" where
  "final_acquire env =
     (if stale (fst (acquire_1 env)) then fst (acquire_2 env) else fst (acquire_1 env))"

definition final_index :: "FrameEnv \<Rightarrow> u32" where
  "final_index env =
     (if stale (fst (acquire_1 env)) then snd (acquire_2 env) else snd (acquire_1 env))"

text \<open>
  What a call of \<open>resize\<close> from \<open>update\<close> leaves in the trace: the rebuild of the
  swapchain when \<open>resize\<close> goes that far, and the log line of \<open>update\<close> otherwise.
\<close>

definition resize_events :: "bool \<Rightarrow> (u32 \<times> u32) option \<Rightarrow> Event list" where
  "resize_events rebuild built =
     (if rebuild then
        DeviceWaitIdle # InitSwapchain #
          (case built of None \<Rightarrow> [LogE ''failed to create swapchain''] | Some ext \<Rightarrow> [])
      else [LogI ''Resize failed''])"

text \<open>
  Whether the \<open>resize\<close> after a stale acquire rebuilds the swapchain, the recorded
  dimensions after the acquire phase, and whether the \<open>resize\<close> after a stale present
  rebuilds: \<open>resize\<close> rebuilds only with a device and a surface extent that differs
  from the recorded dimensions.
\<close>

definition rebuilt_1 :: "FrameEnv \<Rightarrow> Engine \<Rightarrow> bool" where
  "rebuilt_1 env e \<longleftrightarrow> device e \<noteq> 0 \<and> snd (surface_1 env) \<noteq> swapchainDimensions e"

definition dimensions_1 :: "FrameEnv \<Rightarrow> Engine \<Rightarrow> u32 \<times> u32" where
  "dimensions_1 env e =
     (if stale (fst (acquire_1 env)) \<and> rebuilt_1 env e
      then (case build (built_1 env) of Some ext \<Rightarrow> ext | None \<Rightarrow> swapchainDimensions e)
      else swapchainDimensions e)"

definition rebuilt_2 :: "FrameEnv \<Rightarrow> Engine \<Rightarrow> bool" where
  "rebuilt_2 env e \<longleftrightarrow> device e \<noteq> 0 \<and> snd (surface_2 env) \<noteq> dimensions_1 env e"

text \<open>
  The acquire phase as the trace shows it: one acquire, or, after a stale result, the
  acquire, the \<open>resize\<close> and exactly one more acquire.  The events after the present: the
  \<open>resize\<close> after a stale result (and no second present), the error line after any other
  failure.
\<close>

definition acquire_events :: "FrameEnv \<Rightarrow> Engine \<Rightarrow> Event list" where
  "acquire_events env e =
     (if stale (fst (acquire_1 env))
      then Acquire (fst (acquire_1 env)) # resize_events (rebuilt_1 env e) (build (built_1 env))
             @ [Acquire (fst (acquire_2 env))]
      else [Acquire (fst (acquire_1 env))])"

definition present_events :: "FrameEnv \<Rightarrow> Engine \<Rightarrow> Event list" where
  "present_events env e =
     (if stale (present_result env) then resize_events (rebuilt_2 env e) (build (built_2 env))
      else if present_result env \<noteq> VK_SUCCESS then [LogE ''Failed to present swapchain image.'']
      else [])"

text \<open>The engine that the frame starts from, after an acquire phase that ends in success.\<close>

definition acquired :: "FrameEnv \<Rightarrow> Engine \<Rightarrow> Engine" where
  "acquired env e = e\<lparr>swapchainDimensions := dimensions_1 env e, currentIndex := final_index env\<rparr>"

text \<open>
  When the calls under a \<open>resize\<close> all return: \<open>initSwapchain\<close> returns when the build
  fails, or when the images, the image views and every per-frame object are obtained;
  \<open>resize\<close> returns without a device, or when the surface query succeeds and the
  extent is the recorded one or \<open>initSwapchain\<close> returns.  \<open>resize\<close> returns and leaves
  the swapchain and the per-frame entries as they are without a device, or when the
  query succeeds and the extent is the recorded one or the build fails.
\<close>

definition initSwapchain_returns :: "SwapchainBuild \<Rightarrow> bool" where
  "initSwapchain_returns sb \<longleftrightarrow>
     build sb = None
     \<or> (get_images sb \<and> get_image_views sb
        \<and> list_all (\<lambda>(fence, pool, command_buffer).
                      fence = VK_SUCCESS \<and> pool = VK_SUCCESS \<and> command_buffer = VK_SUCCESS)
             (per_frame_results sb))"

definition resize_returns :: "VkResult \<times> (u32 \<times> u32) \<Rightarrow> SwapchainBuild \<Rightarrow> Engine \<Rightarrow> bool" where
  "resize_returns surface_properties sb e \<longleftrightarrow>
     device e = 0
     \<or> (fst surface_properties = VK_SUCCESS
        \<and> (snd surface_properties = swapchainDimensions e \<or> initSwapchain_returns sb))"

definition resize_keeps :: "VkResult \<times> (u32 \<times> u32) \<Rightarrow> SwapchainBuild \<Rightarrow> Engine \<Rightarrow> bool" where
  "resize_keeps surface_properties sb e \<longleftrightarrow>
     device e = 0
     \<or> (fst surface_properties = VK_SUCCESS
        \<and> (snd surface_properties = swapchainDimensions e \<or> build sb = None))"

text \<open>
  The first acquire returns when a semaphore waits to be used again or
  \<open>vkCreateSemaphore\<close> succeeds.  (The second acquire finds the semaphore that the first
  has put back.)
\<close>

definition semaphore_obtained :: "FrameEnv \<Rightarrow> Context \<Rightarrow> bool" where
  "semaphore_obtained env c \<longleftrightarrow> recycledSemaphores c \<noteq> [] \<or> semaphore_1 env = VK_SUCCESS"

text \<open>A per-frame entry with every handle that a frame can hand on.\<close>

definition entry_ready :: "PerFrame \<Rightarrow> bool" where
  "entry_ready per_frame \<longleftrightarrow>
     sceneUniformBufferAllocation_pf per_frame \<noteq> VK_NULL_HANDLE
     \<and> shadowUniformBufferAllocation_pf per_frame \<noteq> VK_NULL_HANDLE
     \<and> modelUniformBufferAllocation_pf per_frame \<noteq> VK_NULL_HANDLE
     \<and> primary_command_buffer per_frame \<noteq> VK_NULL_HANDLE
     \<and> sceneDescriptorSet_pf per_frame \<noteq> VK_NULL_HANDLE
     \<and> shadowDescriptorSet_pf per_frame \<noteq> VK_NULL_HANDLE
     \<and> modelDescriptorSet_pf per_frame \<noteq> VK_NULL_HANDLE"

text \<open>
  A frame that is skipped returns when the first acquire and the \<open>resize\<close> after a stale
  result return.  A frame that is not skipped returns when moreover the swapchain is not
  replaced before it, the entry of the acquired image is ready, every node has a mesh,
  the checked calls of \<open>updateUBO\<close> and \<open>render\<close> succeed, and the \<open>resize\<close> after a
  stale present returns.
\<close>

definition skip_returns :: "FrameEnv \<Rightarrow> Engine \<times> Context \<Rightarrow> bool" where
  "skip_returns env s \<longleftrightarrow>
     (case s of (e, c) \<Rightarrow>
        semaphore_obtained env c
        \<and> (\<not> stale (fst (acquire_1 env)) \<or> resize_returns (surface_1 env) (built_1 env) e))"

definition frame_returns :: "FrameEnv \<Rightarrow> Engine \<times> Context \<Rightarrow> bool" where
  "frame_returns env s \<longleftrightarrow>
     (case s of (e, c) \<Rightarrow>
        semaphore_obtained env c
        \<and> (\<not> stale (fst (acquire_1 env)) \<or> resize_keeps (surface_1 env) (built_1 env) e)
        \<and> unat (final_index env) < length (perFrame c)
        \<and> entry_ready (perFrame c ! unat (final_index env))
        \<and> list_all (\<lambda>node. m_mesh node \<noteq> None) (m_nodes e)
        \<and> frame_checks env = VK_SUCCESS
        \<and> (\<not> stale (present_result env) \<or> resize_returns (surface_2 env) (built_2 env) e))"

text \<open>The trace without the payload of the uniform writes and of the submission.\<close>

fun skeleton :: "Event \<Rightarrow> Event" where
  "skeleton (CopyUBO cs) = CopyUBO []"
| "skeleton (Submit cmds) = Submit []"
| "skeleton ev = ev"

definition update_trace :: "FrameEnv \<Rightarrow> Engine \<times> Context \<Rightarrow> Event list option" where
  "update_trace env s =
     (case update env s of Inl err \<Rightarrow> None | Inr (evs, s') \<Rightarrow> Some (map skeleton evs))"

text \<open>The value \<open>meshBufferMap[key]\<close> yields: the entry, or null handles for a missing key.\<close>

definition lookup_buffer :: "(Mesh option \<rightharpoonup> MeshData) \<Rightarrow> Mesh option \<Rightarrow> MeshData" where
  "lookup_buffer m k = (case m k of Some v \<Rightarrow> v | None \<Rightarrow> null_MeshData)"

section \<open>A scene of three nodes\<close>

text \<open>
  One triangle mesh shared by three nodes at \<open>(5, 0, 0)\<close>, \<open>(100, 0, 0)\<close> and the origin,
  each with the unit sphere as cached bounding sphere.  The light looks at the cube from
  \<open>-1\<close> to \<open>1\<close> (identity view-projection); the camera's view moves the scene by
  \<open>(-5, 0, 0)\<close>, so it sees the cube around \<open>(5, 0, 0)\<close>.  Node 0 is seen by the camera
  only, node 1 by neither, node 2 by the light only.  The device reports a minimum
  uniform offset alignment of 256.
\<close>

definition triangle_mesh :: Mesh where
  "triangle_mesh =
     \<lparr>mesh_id = 1,
      m_vertices = [ \<lparr>position = vec3_of (-1) 0 0, vnormal = vec3_of 0 0 1, texCoord = (0, 0)\<rparr>,
                     \<lparr>position = vec3_of 1 0 0, vnormal = vec3_of 0 0 1, texCoord = (1, 0)\<rparr>,
                     \<lparr>position = vec3_of 0 1 0, vnormal = vec3_of 0 0 1, texCoord = (0, 1)\<rparr> ],
      m_indices = [0, 1, 2]\<rparr>"

definition scene_node :: "vec3 \<Rightarrow> Node" where
  "scene_node pos = Node WeakEmpty pos quat_identity (Some triangle_mesh) (Some 7) unit_sphere"

definition triangle_buffers :: MeshData where
  "triangle_buffers = \<lparr>vertexBuffer = \<lparr>buffer = 11, allocation = 12\<rparr>,
                       indexBuffer = \<lparr>buffer = 13, allocation = 14\<rparr>\<rparr>"

definition scene_engine_0 :: Engine where
  "scene_engine_0 =
     \<lparr>m_nodes = [scene_node (vec3_of 5 0 0), scene_node (vec3_of 100 0 0), scene_node (vec3_of 0 0 0)],
      m_shadowCastingNodes = [], m_visibleNodes = [],
      m_lightPos = vec3_of 0 5 5, m_lightColor = vec3_of 1 1 1, m_intensity = 1, m_ambient = 1 / 10,
      device = 1, minUniformBufferOffsetAlignment = 256,
      swapchainDimensions = (1024, 768), currentIndex = 0,
      sceneUBOBufferSizeForVS = 0, modelUBOBufferSizePerNode = 0, shadowUBOBufferSizePerNode = 0,
      modelUniformBufferSize = 0, shadowUniformBufferSize = 0,
      meshBufferMap = [Some triangle_mesh \<mapsto> triangle_buffers]\<rparr>"

definition scene_engine :: Engine where
  "scene_engine = initUBO scene_engine_0"

text \<open>The same engine with thirty-three nodes at the origin.\<close>

definition crowded_engine :: Engine where
  "crowded_engine = initUBO (scene_engine_0\<lparr>m_nodes := replicate 33 (scene_node (vec3_of 0 0 0))\<rparr>)"

definition camera_view :: mat4 where
  "camera_view = mat4_identity\<lparr>c3 := \<lparr>x4 = - 5, y4 = 0, z4 = 0, w4 = 1\<rparr>\<rparr>"

definition scene_matrices :: Matrices where
  "scene_matrices = \<lparr>shadowView = mat4_identity, shadowProj = mat4_identity,
                      view = camera_view, proj = mat4_identity\<rparr>"

text \<open>
  The per-frame part of that scene after \<open>prepare\<close>, for a swapchain of two images:
  \<open>initPerFrame\<close> and \<open>initUBO\<close> have made the objects of each entry, and no semaphore
  has been made yet.
\<close>

definition prepared_entry :: PerFrame where
  "prepared_entry =
     \<lparr>queue_submit_fence = Created, primary_command_pool = Created,
      primary_command_buffer = Created,
      swapchain_acquire_semaphore = VK_NULL_HANDLE, swapchain_release_semaphore = VK_NULL_HANDLE,
      sceneDescriptorSet_pf = Created, sceneUniformBuffer = Created,
      sceneUniformBufferAllocation_pf = Created,
      modelDescriptorSet_pf = Created, modelUniformBuffer = Created,
      modelUniformBufferAllocation_pf = Created,
      shadowDescriptorSet_pf = Created, shadowUniformBuffer = Created,
      shadowUniformBufferAllocation_pf = Created\<rparr>"

definition scene_context :: Context where
  "scene_context = \<lparr>perFrame = [prepared_entry, prepared_entry], recycledSemaphores = []\<rparr>"

text \<open>A build of a swapchain of two images in which every call succeeds.\<close>

definition scene_build :: "u32 \<times> u32 \<Rightarrow> SwapchainBuild" where
  "scene_build ext =
     \<lparr>build = Some ext, get_images = True,
      per_frame_results = [(VK_SUCCESS, VK_SUCCESS, VK_SUCCESS), (VK_SUCCESS, VK_SUCCESS, VK_SUCCESS)],
      get_image_views = True\<rparr>"

text \<open>
  Five frames on that scene.  In the first the acquire succeeds and the present reports
  an out-of-date surface whose extent has changed.  In the second the first acquire is
  suboptimal, the surface extent is unchanged, and the second acquire succeeds.  In the
  third both acquires report an out-of-date surface, around a rebuild.  In the fourth the
  first acquire reports an out-of-date surface and the surface query of \<open>resize\<close> fails.
  In the fifth the first acquire reports an out-of-date surface, the swapchain is rebuilt
  and the second acquire succeeds.
\<close>

definition env_present_stale :: FrameEnv where
  "env_present_stale =
     \<lparr>semaphore_1 = VK_SUCCESS, acquire_1 = (VK_SUCCESS, 0),
      surface_1 = (VK_SUCCESS, (1024, 768)), built_1 = scene_build (1024, 768),
      semaphore_2 = VK_SUCCESS, acquire_2 = (VK_SUCCESS, 1),
      matrices = scene_matrices, frame_checks = VK_SUCCESS,
      present_result = VK_ERROR_OUT_OF_DATE_KHR,
      surface_2 = (VK_SUCCESS, (800, 600)), built_2 = scene_build (800, 600)\<rparr>"

definition env_acquire_suboptimal :: FrameEnv where
  "env_acquire_suboptimal =
     \<lparr>semaphore_1 = VK_SUCCESS, acquire_1 = (VK_SUBOPTIMAL_KHR, 0),
      surface_1 = (VK_SUCCESS, (1024, 768)), built_1 = scene_build (1024, 768),
      semaphore_2 = VK_SUCCESS, acquire_2 = (VK_SUCCESS, 0),
      matrices = scene_matrices, frame_checks = VK_SUCCESS,
      present_result = VK_SUCCESS,
      surface_2 = (VK_SUCCESS, (1024, 768)), built_2 = scene_build (1024, 768)\<rparr>"

definition env_acquire_fails :: FrameEnv where
  "env_acquire_fails =
     \<lparr>semaphore_1 = VK_SUCCESS, acquire_1 = (VK_ERROR_OUT_OF_DATE_KHR, 0),
      surface_1 = (VK_SUCCESS, (800, 600)), built_1 = scene_build (800, 600),
      semaphore_2 = VK_SUCCESS, acquire_2 = (VK_ERROR_OUT_OF_DATE_KHR, 0),
      matrices = scene_matrices, frame_checks = VK_SUCCESS,
      present_result = VK_SUCCESS,
      surface_2 = (VK_SUCCESS, (800, 600)), built_2 = scene_build (800, 600)\<rparr>"

definition env_surface_fails :: FrameEnv where
  "env_surface_fails = env_acquire_fails\<lparr>surface_1 := (VK_OTHER (- 4), (800, 600))\<rparr>"

definition env_acquire_rebuilds :: FrameEnv where
  "env_acquire_rebuilds = env_acquire_fails\<lparr>acquire_2 := (VK_SUCCESS, 0)\<rparr>"

section \<open>Lengths and distances\<close>

lemma dot_self_nonneg: "0 \<le> dot a a"
  by (simp add: dot_def)

lemma length3_nonneg: "0 \<le> length3 a"
  by (simp add: length3_def dot_self_nonneg)

lemma length3_sq: "(length3 a)\<^sup>2 = dot a a"
  by (simp add: length3_def dot_self_nonneg)

text \<open>Cauchy-Schwarz in three dimensions, from Lagrange's identity.\<close>

lemma dot_cauchy_schwarz: "(dot a b)\<^sup>2 \<le> dot a a * dot b b"
proof -
  have "dot a a * dot b b - (dot a b)\<^sup>2 =
          (vx a * vy b - vy a * vx b)\<^sup>2 + (vx a * vz b - vz a * vx b)\<^sup>2
        + (vy a * vz b - vz a * vy b)\<^sup>2"
    by (simp add: dot_def power2_eq_square algebra_simps)
  moreover have "0 \<le> (vx a * vy b - vy a * vx b)\<^sup>2 + (vx a * vz b - vz a * vx b)\<^sup>2
        + (vy a * vz b - vz a * vy b)\<^sup>2"
    by simp
  ultimately show ?thesis by linarith
qed

lemma dot_le_lengths: "dot a b \<le> length3 a * length3 b"
proof -
  have "\<bar>dot a b\<bar> = sqrt ((dot a b)\<^sup>2)" by simp
  also have "\<dots> \<le> sqrt (dot a a * dot b b)"
    using dot_cauchy_schwarz by (rule real_sqrt_le_mono)
  also have "\<dots> = length3 a * length3 b"
    by (simp add: length3_def real_sqrt_mult)
  finally show ?thesis by linarith
qed

lemma length3_triangle: "length3 (vadd a b) \<le> length3 a + length3 b"
proof -
  have "dot (vadd a b) (vadd a b) = dot a a + 2 * dot a b + dot b b"
    by (simp add: dot_def vadd_def algebra_simps)
  also have "\<dots> \<le> (length3 a)\<^sup>2 + 2 * (length3 a * length3 b) + (length3 b)\<^sup>2"
    using dot_le_lengths [of a b] by (simp add: length3_sq)
  also have "\<dots> = (length3 a + length3 b)\<^sup>2"
    by (simp add: power2_eq_square algebra_simps)
  finally have "dot (vadd a b) (vadd a b) \<le> (length3 a + length3 b)\<^sup>2" .
  then show ?thesis
    unfolding length3_def [of "vadd a b"]
    by (rule real_le_lsqrt [OF add_nonneg_nonneg [OF length3_nonneg length3_nonneg]])
qed

lemma length3_vscale: "length3 (vscale a s) = \<bar>s\<bar> * length3 a"
proof -
  have "dot (vscale a s) (vscale a s) = s\<^sup>2 * dot a a"
    by (simp add: dot_def vscale_def power2_eq_square algebra_simps)
  then show ?thesis
    by (simp add: length3_def real_sqrt_mult)
qed

lemma vdiv_vscale: "vdiv a s = vscale a (1 / s)"
  by (simp add: vdiv_def vscale_def)

lemma length3_vsub_commute: "length3 (vsub a b) = length3 (vsub b a)"
proof -
  have "dot (vsub a b) (vsub a b) = dot (vsub b a) (vsub b a)"
    by (simp add: dot_def vsub_def power2_eq_square algebra_simps)
  then show ?thesis by (simp add: length3_def)
qed

lemma length3_normalize: "length3 a \<noteq> 0 \<Longrightarrow> length3 (normalize a) = 1"
proof -
  assume nz: "length3 a \<noteq> 0"
  have "normalize a = vscale a (1 / length3 a)"
    by (simp add: normalize_def length3_def)
  then have "length3 (normalize a) = \<bar>1 / length3 a\<bar> * length3 a"
    by (simp add: length3_vscale)
  also have "\<dots> = 1"
    using nz length3_nonneg [of a] by simp
  finally show ?thesis .
qed

section \<open>The bounding sphere contains its points\<close>

text \<open>One growth step: the new sphere holds the old one and the new point.\<close>

lemma grow_step_old:
  assumes k: "0 \<le> k" and nz: "length3 (vsub p c) \<noteq> 0" and q: "distance q c \<le> r"
  shows "distance q (vadd c (vscale (normalize (vsub p c)) k)) \<le> r + k"
proof -
  let ?dir = "normalize (vsub p c)"
  have dir1: "length3 ?dir = 1" using nz by (rule length3_normalize)
  have "vsub (vadd c (vscale ?dir k)) q = vadd (vsub c q) (vscale ?dir k)"
    by (simp add: vsub_def vadd_def)
  then have "distance q (vadd c (vscale ?dir k)) = length3 (vadd (vsub c q) (vscale ?dir k))"
    by (simp add: distance_def)
  also have "\<dots> \<le> length3 (vsub c q) + length3 (vscale ?dir k)"
    by (rule length3_triangle)
  also have "\<dots> = distance q c + k"
    using k dir1 by (simp add: length3_vscale distance_def)
  also have "\<dots> \<le> r + k"
    using q by simp
  finally show ?thesis .
qed

lemma shift_towards:
  "d \<noteq> 0 \<Longrightarrow>
   vsub (vadd c (vscale (vscale (vsub p c) (1 / d)) k)) p = vscale (vsub c p) (1 - k / d)"
  by (simp add: vsub_def vadd_def vscale_def field_simps)

lemma grow_step_new:
  assumes k: "0 \<le> k" and kd: "k \<le> distance p c" and dpos: "0 < distance p c"
  shows "distance p (vadd c (vscale (normalize (vsub p c)) k)) = distance p c - k"
proof -
  let ?d = "distance p c"
  have len: "length3 (vsub p c) = ?d"
    by (simp add: distance_def length3_vsub_commute)
  then have "normalize (vsub p c) = vscale (vsub p c) (1 / ?d)"
    by (simp add: normalize_def length3_def)
  then have "vsub (vadd c (vscale (normalize (vsub p c)) k)) p = vscale (vsub c p) (1 - k / ?d)"
    using dpos shift_towards [of ?d c p k] by simp
  then have "distance p (vadd c (vscale (normalize (vsub p c)) k))
               = \<bar>1 - k / ?d\<bar> * length3 (vsub c p)"
    by (simp add: distance_def [of p "vadd c (vscale (normalize (vsub p c)) k)"] length3_vscale)
  also have "\<dots> = \<bar>1 - k / ?d\<bar> * ?d"
    by (simp add: distance_def)
  also have "\<dots> = (1 - k / ?d) * ?d"
  proof -
    have "k / ?d \<le> 1" using kd dpos by (simp add: field_simps)
    then show ?thesis by simp
  qed
  also have "\<dots> = ?d - k"
    using dpos by (simp add: field_simps)
  finally show ?thesis .
qed

text \<open>
  The invariant of the growing loop: the radius is not negative and the points before
  \<open>i\<close> are inside.
\<close>

lemma grow_sphere_contains:
  assumes "0 \<le> r" and "\<forall>j<i. distance (v ! j) c \<le> r"
  shows "0 \<le> radius (grow_sphere v i c r)
       \<and> (\<forall>j<length v. distance (v ! j) (center (grow_sphere v i c r)) \<le> radius (grow_sphere v i c r))"
  using assms
proof (induction v i c r rule: grow_sphere.induct)
  case (1 v i c r)
  show ?case
  proof (cases "i < length v")
    case False
    then have "grow_sphere v i c r = \<lparr>center = c, radius = r\<rparr>"
      by (subst grow_sphere.simps) simp
    with False "1.prems" show ?thesis by simp
  next
    case True
    let ?d = "distance (v ! i) c"
    show ?thesis
    proof (cases "?d > r")
      case grow: True
      let ?r' = "(r + ?d) * 0.5"
      let ?k = "?r' - r"
      let ?c' = "vadd c (vscale (normalize (vsub (v ! i) c)) ?k)"
      have eq: "grow_sphere v i c r = grow_sphere v (Suc i) ?c' ?r'"
        using True grow by (subst grow_sphere.simps) (simp add: Let_def)
      have r': "0 \<le> ?r'" using "1.prems"(1) grow by simp
      have k: "0 \<le> ?k" using grow by simp
      have kd: "?k \<le> ?d" using "1.prems"(1) grow by simp
      have dpos: "0 < ?d" using "1.prems"(1) grow by linarith
      have nz: "length3 (vsub (v ! i) c) \<noteq> 0"
        using dpos by (simp add: distance_def length3_vsub_commute [of "v ! i" c])
      have inv: "\<forall>j<Suc i. distance (v ! j) ?c' \<le> ?r'"
      proof (intro allI impI)
        fix j assume "j < Suc i"
        then consider "j < i" | "j = i" by linarith
        then show "distance (v ! j) ?c' \<le> ?r'"
        proof cases
          case 1
          with "1.prems"(2) have "distance (v ! j) c \<le> r" by simp
          from grow_step_old [OF k nz this] have "distance (v ! j) ?c' \<le> r + ?k" .
          also have "r + ?k = ?r'" by (simp add: field_simps)
          finally show ?thesis .
        next
          case 2
          have "distance (v ! i) ?c' = ?d - ?k"
            using k kd dpos by (rule grow_step_new)
          also have "\<dots> = ?r'" by (simp add: field_simps)
          finally show ?thesis using 2 by simp
        qed
      qed
      from "1.IH"(1) [OF True refl grow refl refl refl r' inv] eq show ?thesis by simp
    next
      case keep: False
      have eq: "grow_sphere v i c r = grow_sphere v (Suc i) c r"
        using True keep by (subst grow_sphere.simps) (simp add: Let_def)
      have inv: "\<forall>j<Suc i. distance (v ! j) c \<le> r"
        using "1.prems"(2) keep by (auto simp: less_Suc_eq)
      from "1.IH"(2) [OF True refl keep "1.prems"(1) inv] eq show ?thesis by simp
    qed
  qed
qed

text \<open>
  Claim C1.  For every non-empty sequence of points \<open>computeBoundingSphere\<close> returns a
  sphere, its radius is not negative, and every input point is within the radius of the
  centre (exactly, in real arithmetic).
\<close>

theorem computeBoundingSphere_contains:
  assumes "v \<noteq> []"
  shows "\<exists>s. computeBoundingSphere v = Some s \<and> 0 \<le> radius s
           \<and> (\<forall>p \<in> set v. distance p (center s) \<le> radius s)"
proof -
  let ?a = "farthest_from v (v ! 0) 0 0 0"
  let ?b = "farthest_from v (v ! ?a) 0 0 0"
  let ?c = "vscale (vadd (v ! ?a) (v ! ?b)) 0.5"
  let ?r = "distance (v ! ?a) (v ! ?b) * 0.5"
  have eq: "computeBoundingSphere v = Some (grow_sphere v 0 ?c ?r)"
    using assms by (simp add: computeBoundingSphere_def Let_def)
  have "0 \<le> ?r" by (simp add: distance_def length3_nonneg)
  then have "0 \<le> radius (grow_sphere v 0 ?c ?r)
       \<and> (\<forall>j<length v. distance (v ! j) (center (grow_sphere v 0 ?c ?r)) \<le> radius (grow_sphere v 0 ?c ?r))"
    by (rule grow_sphere_contains) simp
  then show ?thesis
    unfolding eq by (auto simp: in_set_conv_nth)
qed

theorem computeBoundingSphere_contains_witness:
  "[vec3_of 0 0 0, vec3_of 2 0 0, vec3_of 0 3 0] \<noteq> []
   \<and> (\<exists>s. computeBoundingSphere [vec3_of 0 0 0, vec3_of 2 0 0, vec3_of 0 3 0] = Some s
         \<and> 0 \<le> radius s
         \<and> distance (vec3_of 0 0 0) (center s) \<le> radius s
         \<and> distance (vec3_of 2 0 0) (center s) \<le> radius s
         \<and> distance (vec3_of 0 3 0) (center s) \<le> radius s)"
  using computeBoundingSphere_contains [of "[vec3_of 0 0 0, vec3_of 2 0 0, vec3_of 0 3 0]"]
  by simp

section \<open>The frustum test\<close>

lemma sphereInFrustum_from_iff:
  "sphereInFrustum_from i f s \<longleftrightarrow>
     (\<forall>j. i \<le> j \<and> j < 6 \<longrightarrow> \<not> Plane_distance (planes f ! j) (center s) < - radius s)"
proof (induction i f s rule: sphereInFrustum_from.induct)
  case (1 i f s)
  show ?case
  proof (cases "i < 6")
    case False
    then show ?thesis by (subst sphereInFrustum_from.simps) auto
  next
    case True
    show ?thesis
    proof (cases "Plane_distance (planes f ! i) (center s) < - radius s")
      case rej: True
      with True show ?thesis by (subst sphereInFrustum_from.simps) (auto simp: Let_def)
    next
      case acc: False
      have "sphereInFrustum_from i f s = sphereInFrustum_from (Suc i) f s"
        using True acc by (subst sphereInFrustum_from.simps) (simp add: Let_def)
      also have "\<dots> \<longleftrightarrow> (\<forall>j. Suc i \<le> j \<and> j < 6 \<longrightarrow>
                      \<not> Plane_distance (planes f ! j) (center s) < - radius s)"
        using "1.IH" True acc by simp
      also have "\<dots> \<longleftrightarrow> (\<forall>j. i \<le> j \<and> j < 6 \<longrightarrow>
                      \<not> Plane_distance (planes f ! j) (center s) < - radius s)"
        using acc by (metis Suc_leI le_neq_implies_less Suc_leD)
      finally show ?thesis .
    qed
  qed
qed

lemma sphereInFrustum_iff:
  "sphereInFrustum f s \<longleftrightarrow>
     (\<forall>j<6. \<not> Plane_distance (planes f ! j) (center s) < - radius s)"
  by (simp add: sphereInFrustum_def sphereInFrustum_from_iff)

lemma all_less_six: "(\<forall>i<6. P i) \<longleftrightarrow> P 0 \<and> P (Suc 0) \<and> P 2 \<and> P 3 \<and> P 4 \<and> P (5::nat)"
proof -
  have "i < 6 \<longleftrightarrow> i = 0 \<or> i = Suc 0 \<or> i = 2 \<or> i = 3 \<or> i = 4 \<or> i = 5" for i :: nat
    by arith
  then show ?thesis by auto
qed

lemma ex_less_six: "(\<exists>i<6. P i) \<longleftrightarrow> P 0 \<or> P (Suc 0) \<or> P 2 \<or> P 3 \<or> P 4 \<or> P (5::nat)"
  using all_less_six [of "\<lambda>i. \<not> P i"] by blast

lemma cube_distances:
  "Plane_distance (planes cube_frustum ! 0) p = vx p + 1"
  "Plane_distance (planes cube_frustum ! Suc 0) p = 1 - vx p"
  "Plane_distance (planes cube_frustum ! 2) p = vy p + 1"
  "Plane_distance (planes cube_frustum ! 3) p = 1 - vy p"
  "Plane_distance (planes cube_frustum ! 4) p = vz p + 1"
  "Plane_distance (planes cube_frustum ! 5) p = 1 - vz p"
  by (simp_all add: cube_frustum_def Plane_distance_def dot_def vec3_of_def)

text \<open>
  Claim C2.  For a frustum (six planes) and a sphere, \<open>sphereInFrustum\<close> returns false
  exactly when one of the six planes has a signed distance to the centre strictly below
  minus the radius.  So a sphere with no distance below minus the radius, tangent planes
  (distance equal to minus the radius) included, is visible, and so is a sphere (radius not
  negative) with every distance at least the radius.
\<close>

theorem sphereInFrustum_rejects_iff:
  assumes "length (planes f) = 6"
  shows "(sphereInFrustum f s = False \<longleftrightarrow>
            (\<exists>i<6. Plane_distance (planes f ! i) (center s) < - radius s))
       \<and> ((\<forall>i<6. - radius s \<le> Plane_distance (planes f ! i) (center s)) \<longrightarrow> sphereInFrustum f s)
       \<and> (0 \<le> radius s \<and> (\<forall>i<6. radius s \<le> Plane_distance (planes f ! i) (center s))
            \<longrightarrow> sphereInFrustum f s)"
  unfolding sphereInFrustum_def sphereInFrustum_from_iff by (auto simp: not_less)

text \<open>
  In the cube from \<open>-1\<close> to \<open>1\<close>: a unit sphere centred at \<open>x = 2\<close> touches the right
  plane from outside (distance \<open>-1\<close>) and is visible, at \<open>x = 3\<close> it is culled, and at
  the origin every distance equals the radius.
\<close>

theorem sphereInFrustum_rejects_iff_witness:
  "length (planes cube_frustum) = 6
   \<and> sphereInFrustum cube_frustum \<lparr>center = vec3_of 2 0 0, radius = 1\<rparr>
   \<and> \<not> sphereInFrustum cube_frustum \<lparr>center = vec3_of 3 0 0, radius = 1\<rparr>
   \<and> sphereInFrustum cube_frustum \<lparr>center = vec3_of 0 0 0, radius = 1\<rparr>"
proof -
  have h: "length (planes cube_frustum) = 6" by (simp add: cube_frustum_def)
  show ?thesis
    using h sphereInFrustum_rejects_iff [OF h, of "\<lparr>center = vec3_of 2 0 0, radius = 1\<rparr>"]
      sphereInFrustum_rejects_iff [OF h, of "\<lparr>center = vec3_of 3 0 0, radius = 1\<rparr>"]
      sphereInFrustum_rejects_iff [OF h, of "\<lparr>center = vec3_of 0 0 0, radius = 1\<rparr>"]
    by (simp add: all_less_six ex_less_six cube_distances vec3_of_def)
qed

section \<open>The extracted planes\<close>

lemma extractFrustum_raw_rows: "extractFrustum_raw vp = spec_rows vp"
  by (simp add: extractFrustum_raw_def spec_rows_def plane_of_def add4_def sub4_def row_def)

lemma normalize_planes_six:
  "normalize_planes_from 0 [p0, p1, p2, p3, p4, p5] =
     map normalized_plane [p0, p1, p2, p3, p4, p5]"
  by (simp add: normalize_planes_from.simps normalized_plane_def Let_def)

lemma extractFrustum_planes: "planes (extractFrustum vp) = map normalized_plane (spec_rows vp)"
  unfolding extractFrustum_def extractFrustum_raw_rows
  by (simp add: spec_rows_def normalize_planes_six)

lemma normalized_plane_unit:
  assumes "length3 (normal p) \<noteq> 0"
  shows "length3 (normal (normalized_plane p)) = 1"
proof -
  have "length3 (normal (normalized_plane p)) = \<bar>1 / length3 (normal p)\<bar> * length3 (normal p)"
    by (simp add: normalized_plane_def vdiv_vscale length3_vscale)
  also have "\<dots> = 1"
    using assms length3_nonneg [of "normal p"] by simp
  finally show ?thesis .
qed

lemma spec_rows_scale2:
  "spec_rows mat4_scale2 =
     [ \<lparr>normal = vec3_of 2 0 0, plane_d = 1\<rparr>, \<lparr>normal = vec3_of (-2) 0 0, plane_d = 1\<rparr>,
       \<lparr>normal = vec3_of 0 2 0, plane_d = 1\<rparr>, \<lparr>normal = vec3_of 0 (-2) 0, plane_d = 1\<rparr>,
       \<lparr>normal = vec3_of 0 0 2, plane_d = 1\<rparr>, \<lparr>normal = vec3_of 0 0 (-2), plane_d = 1\<rparr> ]"
  by (simp add: spec_rows_def mat4_scale2_def row_def mat_at_def col_def comp4_def add4_def
      sub4_def plane_of_def vec3_of_def)

lemma length3_axis:
  "length3 (vec3_of a 0 0) = \<bar>a\<bar>" "length3 (vec3_of 0 a 0) = \<bar>a\<bar>" "length3 (vec3_of 0 0 a) = \<bar>a\<bar>"
  by (simp_all add: length3_def dot_def vec3_of_def flip: power2_eq_square)

text \<open>
  Claim C3.  For a view-projection matrix whose six row combinations have non-zero
  normals, \<open>extractFrustum\<close> returns six planes, in the order left, right, bottom, top,
  near, far: row 4 plus and minus row 1, row 2 and row 3 (component \<open>i\<close> of a row from
  \<open>M[0][i], M[1][i], M[2][i], M[3][i]\<close>), each with normal and d divided by the length of
  its normal; every returned normal has length one.
\<close>

theorem extractFrustum_rows_normalized:
  assumes "\<forall>p \<in> set (spec_rows vp). length3 (normal p) \<noteq> 0"
  shows "planes (extractFrustum vp) = map normalized_plane (spec_rows vp)
       \<and> length (planes (extractFrustum vp)) = 6
       \<and> (\<forall>q \<in> set (planes (extractFrustum vp)). length3 (normal q) = 1)"
proof -
  have "length (spec_rows vp) = 6"
    by (simp add: spec_rows_def)
  moreover have "\<forall>q \<in> set (map normalized_plane (spec_rows vp)). length3 (normal q) = 1"
    using assms by (auto simp: normalized_plane_unit)
  ultimately show ?thesis by (simp add: extractFrustum_planes)
qed

theorem extractFrustum_rows_normalized_witness:
  "map (\<lambda>p. length3 (normal p)) (spec_rows mat4_scale2) = [2, 2, 2, 2, 2, 2]
   \<and> planes (extractFrustum mat4_scale2) =
       [ \<lparr>normal = vec3_of 1 0 0, plane_d = 1 / 2\<rparr>, \<lparr>normal = vec3_of (-1) 0 0, plane_d = 1 / 2\<rparr>,
         \<lparr>normal = vec3_of 0 1 0, plane_d = 1 / 2\<rparr>, \<lparr>normal = vec3_of 0 (-1) 0, plane_d = 1 / 2\<rparr>,
         \<lparr>normal = vec3_of 0 0 1, plane_d = 1 / 2\<rparr>, \<lparr>normal = vec3_of 0 0 (-1), plane_d = 1 / 2\<rparr> ]
   \<and> map (\<lambda>q. length3 (normal q)) (planes (extractFrustum mat4_scale2)) = [1, 1, 1, 1, 1, 1]"
proof -
  have l: "map (\<lambda>p. length3 (normal p)) (spec_rows mat4_scale2) = [2, 2, 2, 2, 2, 2]"
    by (simp add: spec_rows_scale2 length3_axis)
  have h: "\<forall>p \<in> set (spec_rows mat4_scale2). length3 (normal p) \<noteq> 0"
    by (simp add: spec_rows_scale2 length3_axis)
  have n: "map normalized_plane (spec_rows mat4_scale2) =
       [ \<lparr>normal = vec3_of 1 0 0, plane_d = 1 / 2\<rparr>, \<lparr>normal = vec3_of (-1) 0 0, plane_d = 1 / 2\<rparr>,
         \<lparr>normal = vec3_of 0 1 0, plane_d = 1 / 2\<rparr>, \<lparr>normal = vec3_of 0 (-1) 0, plane_d = 1 / 2\<rparr>,
         \<lparr>normal = vec3_of 0 0 1, plane_d = 1 / 2\<rparr>, \<lparr>normal = vec3_of 0 0 (-1), plane_d = 1 / 2\<rparr> ]"
    by (simp add: spec_rows_scale2 normalized_plane_def length3_axis) (simp add: vdiv_def vec3_of_def)
  from extractFrustum_rows_normalized [OF h] n l show ?thesis by (simp add: length3_axis)
qed

section \<open>Node transforms\<close>

lemma mat_vec_mat_mul: "mat_vec (mat_mul a b) v = mat_vec a (mat_vec b v)"
  by (simp add: mat_mul_def mat_vec_def add4_def scale4_def algebra_simps)

text \<open>\<open>worldMatrix\<close> in terms of \<open>m_parent.lock()\<close>, as the source has it.\<close>

lemma worldMatrix_lock:
  "worldMatrix n =
     (case lock (m_parent n) of
        Some r \<Rightarrow> mat_mul (worldMatrix r) (localMatrix n)
      | None \<Rightarrow> localMatrix n)"
  by (cases n; cases "m_parent n") simp_all

lemma localMatrix_columns:
  "c0 (localMatrix n) = c0 (mat4_cast (m_quat n))"
  "c1 (localMatrix n) = c1 (mat4_cast (m_quat n))"
  "c2 (localMatrix n) = c2 (mat4_cast (m_quat n))"
  "c3 (localMatrix n) = \<lparr>x4 = vx (m_pos n), y4 = vy (m_pos n), z4 = vz (m_pos n), w4 = 1\<rparr>"
  by (simp_all add: localMatrix_def Let_def)

lemma translation_localMatrix: "translation (localMatrix n) = m_pos n"
  by (simp add: translation_def localMatrix_columns)

lemma mat4_cast_identity: "mat4_cast quat_identity = mat4_identity"
  by (simp add: mat4_cast_def quat_identity_def mat4_identity_def)

text \<open>
  Claim C5.  The first three columns of \<open>localMatrix()\<close> are those of the rotation
  matrix of the orientation quaternion and the last column is the position (with a final
  1).  When the weak parent reference resolves to \<open>r\<close>, \<open>worldMatrix()\<close> is
  \<open>r->worldMatrix() * localMatrix()\<close>, so it transforms a vector by the local matrix and
  then by the parent's world matrix; when the reference is empty or the parent has been
  released it is \<open>localMatrix()\<close>.  \<open>worldMatrix\<close> is a total function: no error is raised.
\<close>

theorem worldMatrix_parent_local:
  "c0 (localMatrix n) = c0 (mat4_cast (m_quat n))
   \<and> c1 (localMatrix n) = c1 (mat4_cast (m_quat n))
   \<and> c2 (localMatrix n) = c2 (mat4_cast (m_quat n))
   \<and> c3 (localMatrix n) = \<lparr>x4 = vx (m_pos n), y4 = vy (m_pos n), z4 = vz (m_pos n), w4 = 1\<rparr>
   \<and> (\<forall>r. lock (m_parent n) = Some r \<longrightarrow>
          worldMatrix n = mat_mul (worldMatrix r) (localMatrix n)
        \<and> (\<forall>v. mat_vec (worldMatrix n) v = mat_vec (worldMatrix r) (mat_vec (localMatrix n) v)))
   \<and> (m_parent n = WeakEmpty \<or> m_parent n = WeakExpired \<longrightarrow> worldMatrix n = localMatrix n)"
  by (auto simp: localMatrix_columns worldMatrix_lock [of n] mat_vec_mat_mul)

text \<open>
  The two-level hierarchy: the child at \<open>(10, 0, 0)\<close> under the parent at \<open>(1, 2, 3)\<close>
  is at \<open>(11, 2, 3)\<close> in the world.
\<close>

theorem worldMatrix_parent_local_witness:
  "lock (m_parent child_node) = Some parent_node
   \<and> worldMatrix child_node = mat_mul (worldMatrix parent_node) (localMatrix child_node)
   \<and> translation (worldMatrix child_node) = vec3_of 11 2 3
   \<and> worldMatrix parent_node = localMatrix parent_node"
proof -
  have p: "localMatrix parent_node = mat4_identity\<lparr>c3 := \<lparr>x4 = 1, y4 = 2, z4 = 3, w4 = 1\<rparr>\<rparr>"
    by (simp add: localMatrix_def parent_node_def mat4_cast_identity vec3_of_def)
  have c: "localMatrix child_node = mat4_identity\<lparr>c3 := \<lparr>x4 = 10, y4 = 0, z4 = 0, w4 = 1\<rparr>\<rparr>"
    by (simp add: localMatrix_def child_node_def mat4_cast_identity vec3_of_def)
  have l: "lock (m_parent child_node) = Some parent_node"
    by (simp add: child_node_def)
  have e: "m_parent parent_node = WeakEmpty"
    by (simp add: parent_node_def)
  have wp: "worldMatrix parent_node = localMatrix parent_node"
    using worldMatrix_parent_local [of parent_node] e by simp
  have wc: "worldMatrix child_node = mat_mul (worldMatrix parent_node) (localMatrix child_node)"
    using worldMatrix_parent_local [of child_node] l by simp
  have "translation (mat_mul (localMatrix parent_node) (localMatrix child_node)) = vec3_of 11 2 3"
    unfolding p c
    by (simp add: translation_def mat_mul_def mat_vec_def add4_def scale4_def mat4_identity_def
        vec3_of_def)
  with l wp wc show ?thesis by simp
qed

section \<open>The parent reference through the public interface\<close>

lemma public_node_parent: "public_node n \<Longrightarrow> m_parent n = WeakEmpty"
  by (induction rule: public_node.induct)
     (auto simp: Node_default_def Node_new_def setPosition_def setQuat_def setEulerAngle_def
        setMesh_def setTexture_def split: option.splits)

text \<open>
  Claim C9.  No public operation of \<open>Node\<close> sets the parent: both constructors leave
  \<open>m_parent\<close> empty and every setter keeps it, so for every node built through the
  public interface the weak reference does not resolve and \<open>worldMatrix()\<close> equals
  \<open>localMatrix()\<close>.
\<close>

theorem public_node_world_is_local:
  "(public_node n \<longrightarrow>
      m_parent n = WeakEmpty \<and> lock (m_parent n) = None \<and> worldMatrix n = localMatrix n)
   \<and> m_parent Node_default = WeakEmpty
   \<and> (\<forall>mesh texture n'. Node_new mesh texture = Some n' \<longrightarrow> m_parent n' = WeakEmpty)
   \<and> m_parent (setPosition n pos) = m_parent n
   \<and> m_parent (setQuat n q) = m_parent n
   \<and> m_parent (setEulerAngle n angle) = m_parent n
   \<and> (\<forall>mesh n'. setMesh n mesh = Some n' \<longrightarrow> m_parent n' = m_parent n)
   \<and> m_parent (setTexture n texture) = m_parent n"
  by (auto simp: public_node_parent worldMatrix_lock [of n] Node_default_def Node_new_def
      setPosition_def setQuat_def setEulerAngle_def setMesh_def setTexture_def
      split: option.splits)

theorem public_node_world_is_local_witness:
  "public_node (setEulerAngle (setPosition Node_default (vec3_of 1 2 3)) (vec3_of 0 0 1))
   \<and> worldMatrix (setEulerAngle (setPosition Node_default (vec3_of 1 2 3)) (vec3_of 0 0 1))
       = localMatrix (setEulerAngle (setPosition Node_default (vec3_of 1 2 3)) (vec3_of 0 0 1))
   \<and> m_parent (setEulerAngle (setPosition Node_default (vec3_of 1 2 3)) (vec3_of 0 0 1)) = WeakEmpty"
proof -
  have "public_node (setEulerAngle (setPosition Node_default (vec3_of 1 2 3)) (vec3_of 0 0 1))"
    by (intro pn_setEulerAngle pn_setPosition pn_default)
  with public_node_world_is_local
         [of "setEulerAngle (setPosition Node_default (vec3_of 1 2 3)) (vec3_of 0 0 1)"]
  show ?thesis by simp
qed

section \<open>Machine offsets\<close>

lemma ucast_of_nat_down: "(ucast (word_of_nat n :: 64 word) :: 32 word) = word_of_nat n"
  by (rule bit_word_eqI) (auto simp: bit_simps)

lemma dynamic_offset_eq:
  "(ucast (of_nat i * (s :: 64 word)) :: 32 word) = word_of_nat (i * unat s)"
proof -
  have "of_nat i * s = (word_of_nat (i * unat s) :: 64 word)" by simp
  then show ?thesis by (simp only: ucast_of_nat_down)
qed

section \<open>The loop of updateUBO\<close>

lemma updateUBO_nodes_done:
  "\<not> i < length (m_nodes e) \<Longrightarrow> updateUBO_nodes svp vp i e cs = (e, cs)"
  by (subst updateUBO_nodes.simps) simp

lemma updateUBO_nodes_step:
  "i < length (m_nodes e) \<Longrightarrow>
   updateUBO_nodes svp vp i e cs =
     updateUBO_nodes svp vp (Suc i)
       (e\<lparr>m_shadowCastingNodes := (m_shadowCastingNodes e)
             [i := sphereInFrustum (extractFrustum svp) (boundingSphere (m_nodes e ! i))],
          m_visibleNodes := (m_visibleNodes e)
             [i := sphereInFrustum (extractFrustum vp) (boundingSphere (m_nodes e ! i))]\<rparr>)
       (cs @ node_copies e svp i)"
  by (subst updateUBO_nodes.simps) (simp add: Let_def node_copies_def)

lemma node_copies_flags [simp]:
  "node_copies (e\<lparr>m_shadowCastingNodes := a, m_visibleNodes := b\<rparr>) svp i = node_copies e svp i"
  by (simp add: node_copies_def)

text \<open>The loop changes the two flag vectors and nothing else.\<close>

lemma updateUBO_nodes_frame:
  "\<exists>a b. fst (updateUBO_nodes svp vp i e cs) = e\<lparr>m_shadowCastingNodes := a, m_visibleNodes := b\<rparr>"
proof (induction "length (m_nodes e) - i" arbitrary: i e cs)
  case 0
  then have "\<not> i < length (m_nodes e)" by simp
  moreover have "e = e\<lparr>m_shadowCastingNodes := m_shadowCastingNodes e, m_visibleNodes := m_visibleNodes e\<rparr>"
    by simp
  ultimately show ?case by (metis updateUBO_nodes_done fst_conv)
next
  case (Suc k)
  then have lt: "i < length (m_nodes e)" by simp
  let ?e2 = "e\<lparr>m_shadowCastingNodes := (m_shadowCastingNodes e)
             [i := sphereInFrustum (extractFrustum svp) (boundingSphere (m_nodes e ! i))],
          m_visibleNodes := (m_visibleNodes e)
             [i := sphereInFrustum (extractFrustum vp) (boundingSphere (m_nodes e ! i))]\<rparr>"
  have "k = length (m_nodes ?e2) - Suc i" using Suc.hyps(2) by simp
  from Suc.hyps(1) [OF this, of "cs @ node_copies e svp i"]
  obtain a b where "fst (updateUBO_nodes svp vp (Suc i) ?e2 (cs @ node_copies e svp i))
        = ?e2\<lparr>m_shadowCastingNodes := a, m_visibleNodes := b\<rparr>"
    by blast
  then have "fst (updateUBO_nodes svp vp i e cs) = e\<lparr>m_shadowCastingNodes := a, m_visibleNodes := b\<rparr>"
    by (simp add: updateUBO_nodes_step [OF lt])
  then show ?case by blast
qed

lemma updateUBO_nodes_m_nodes: "m_nodes (fst (updateUBO_nodes svp vp i e cs)) = m_nodes e"
proof -
  obtain a b where "fst (updateUBO_nodes svp vp i e cs) = e\<lparr>m_shadowCastingNodes := a, m_visibleNodes := b\<rparr>"
    using updateUBO_nodes_frame by blast
  then show ?thesis by simp
qed

lemma updateUBO_nodes_copies:
  "snd (updateUBO_nodes svp vp i e cs) = cs @ concat (map (node_copies e svp) [i..<length (m_nodes e)])"
proof (induction "length (m_nodes e) - i" arbitrary: i e cs)
  case 0
  then show ?case by (simp add: updateUBO_nodes_done)
next
  case (Suc k)
  then have lt: "i < length (m_nodes e)" by simp
  let ?e2 = "e\<lparr>m_shadowCastingNodes := (m_shadowCastingNodes e)
             [i := sphereInFrustum (extractFrustum svp) (boundingSphere (m_nodes e ! i))],
          m_visibleNodes := (m_visibleNodes e)
             [i := sphereInFrustum (extractFrustum vp) (boundingSphere (m_nodes e ! i))]\<rparr>"
  have same: "node_copies ?e2 svp = node_copies e svp"
    by (rule ext) (simp add: node_copies_def)
  have "k = length (m_nodes ?e2) - Suc i" using Suc.hyps(2) by simp
  from Suc.hyps(1) [OF this, of "cs @ node_copies e svp i"]
  have "snd (updateUBO_nodes svp vp i e cs)
          = (cs @ node_copies e svp i) @ concat (map (node_copies e svp) [Suc i..<length (m_nodes e)])"
    by (simp add: updateUBO_nodes_step [OF lt] same)
  with lt show ?case by (simp add: upt_conv_Cons)
qed

lemma updateUBO_nodes_flags:
  "length (m_shadowCastingNodes (fst (updateUBO_nodes svp vp i e cs))) = length (m_shadowCastingNodes e)
   \<and> length (m_visibleNodes (fst (updateUBO_nodes svp vp i e cs))) = length (m_visibleNodes e)
   \<and> (\<forall>j<length (m_shadowCastingNodes e).
         m_shadowCastingNodes (fst (updateUBO_nodes svp vp i e cs)) ! j =
           (if i \<le> j \<and> j < length (m_nodes e)
            then sphereInFrustum (extractFrustum svp) (boundingSphere (m_nodes e ! j))
            else m_shadowCastingNodes e ! j))
   \<and> (\<forall>j<length (m_visibleNodes e).
         m_visibleNodes (fst (updateUBO_nodes svp vp i e cs)) ! j =
           (if i \<le> j \<and> j < length (m_nodes e)
            then sphereInFrustum (extractFrustum vp) (boundingSphere (m_nodes e ! j))
            else m_visibleNodes e ! j))"
proof (induction "length (m_nodes e) - i" arbitrary: i e cs)
  case 0
  then have "\<not> i < length (m_nodes e)" by simp
  then show ?case by (auto simp: updateUBO_nodes_done)
next
  case (Suc k)
  then have lt: "i < length (m_nodes e)" by simp
  let ?e2 = "e\<lparr>m_shadowCastingNodes := (m_shadowCastingNodes e)
             [i := sphereInFrustum (extractFrustum svp) (boundingSphere (m_nodes e ! i))],
          m_visibleNodes := (m_visibleNodes e)
             [i := sphereInFrustum (extractFrustum vp) (boundingSphere (m_nodes e ! i))]\<rparr>"
  have "k = length (m_nodes ?e2) - Suc i" using Suc.hyps(2) by simp
  from Suc.hyps(1) [OF this, of "cs @ node_copies e svp i"] lt
  show ?case
    by (simp add: updateUBO_nodes_step [OF lt] nth_list_update)
       (metis Suc_leD Suc_leI le_neq_implies_less not_less_eq_eq)
qed


section \<open>The loops of the two passes\<close>

lemma map_index_fst: "fst (map_index m k) = lookup_buffer m k"
  by (simp add: map_index_def lookup_buffer_def split: option.splits)

lemma map_index_snd: "lookup_buffer (snd (map_index m k)) k' = lookup_buffer m k'"
  by (simp add: map_index_def lookup_buffer_def split: option.splits)

lemma mesh_buffer_lookup: "mesh_buffer e k = lookup_buffer (meshBufferMap e) k"
  by (simp add: mesh_buffer_def lookup_buffer_def)

lemma node_draw_cong:
  assumes "m_nodes e' = m_nodes e" and "\<And>k. lookup_buffer (meshBufferMap e') k = lookup_buffer (meshBufferMap e) k"
  shows "node_draw e' layout fs dset stride = node_draw e layout fs dset stride"
  by (rule ext) (simp add: node_draw_def mesh_buffer_lookup assms)

lemma shadow_draw_eq:
  "shadow_draw e idx i =
     (case m_mesh (m_nodes e ! i) of
        None \<Rightarrow> None
      | Some mesh \<Rightarrow>
          Some (node_draw e shadowPipelineLayout 0 (shadowDescriptorSet idx) (shadowUBOBufferSizePerNode e) i,
                e\<lparr>meshBufferMap := snd (map_index (meshBufferMap e) (m_mesh (m_nodes e ! i)))\<rparr>))"
  by (simp add: shadow_draw_def node_draw_def Let_def split_beta map_index_fst mesh_buffer_lookup
      dynamic_offset_eq split: option.splits)

lemma color_draw_eq:
  "color_draw e idx i =
     (case m_mesh (m_nodes e ! i) of
        None \<Rightarrow> None
      | Some mesh \<Rightarrow>
          Some (node_draw e pipelineLayout 1 (modelDescriptorSet idx) (modelUBOBufferSizePerNode e) i,
                e\<lparr>meshBufferMap := snd (map_index (meshBufferMap e) (m_mesh (m_nodes e ! i)))\<rparr>))"
  by (simp add: color_draw_def node_draw_def Let_def split_beta map_index_fst mesh_buffer_lookup
      dynamic_offset_eq split: option.splits)

lemma renderShadow_nodes_done:
  "\<not> i < length (m_nodes e) \<Longrightarrow> renderShadow_nodes idx i e cmds = Some (cmds, e)"
  by (subst renderShadow_nodes.simps) simp

lemma renderShadow_nodes_skip:
  "i < length (m_nodes e) \<Longrightarrow> \<not> m_shadowCastingNodes e ! i \<Longrightarrow>
   renderShadow_nodes idx i e cmds = renderShadow_nodes idx (Suc i) e cmds"
  by (subst renderShadow_nodes.simps) simp

lemma renderShadow_nodes_null:
  "i < length (m_nodes e) \<Longrightarrow> m_shadowCastingNodes e ! i \<Longrightarrow> m_mesh (m_nodes e ! i) = None \<Longrightarrow>
   renderShadow_nodes idx i e cmds = None"
  by (subst renderShadow_nodes.simps) (simp add: shadow_draw_eq)

lemma renderShadow_nodes_draw:
  "i < length (m_nodes e) \<Longrightarrow> m_shadowCastingNodes e ! i \<Longrightarrow> m_mesh (m_nodes e ! i) = Some mesh \<Longrightarrow>
   renderShadow_nodes idx i e cmds =
     renderShadow_nodes idx (Suc i)
       (e\<lparr>meshBufferMap := snd (map_index (meshBufferMap e) (m_mesh (m_nodes e ! i)))\<rparr>)
       (cmds @ node_draw e shadowPipelineLayout 0 (shadowDescriptorSet idx) (shadowUBOBufferSizePerNode e) i)"
  by (subst renderShadow_nodes.simps) (simp add: shadow_draw_eq)

lemma renderShadow_nodes_Some:
  assumes "renderShadow_nodes idx i e cmds = Some (cmds', e')"
  shows "cmds' = cmds @ concat (map (node_draw e shadowPipelineLayout 0 (shadowDescriptorSet idx)
                                   (shadowUBOBufferSizePerNode e))
                              (filter (\<lambda>j. m_shadowCastingNodes e ! j) [i..<length (m_nodes e)]))
       \<and> (\<exists>m. e' = e\<lparr>meshBufferMap := m\<rparr> \<and> (\<forall>k. lookup_buffer m k = lookup_buffer (meshBufferMap e) k))"
  using assms
proof (induction "length (m_nodes e) - i" arbitrary: i e cmds)
  case 0
  then have "\<not> i < length (m_nodes e)" by simp
  with 0 have "cmds' = cmds" "e' = e" by (simp_all add: renderShadow_nodes_done)
  moreover have "e = e\<lparr>meshBufferMap := meshBufferMap e\<rparr>" by simp
  ultimately show ?case using \<open>\<not> i < length (m_nodes e)\<close> by (metis append_Nil2 concat.simps(1) filter.simps(1) list.simps(8) upt_rec)
next
  case (Suc k)
  then have lt: "i < length (m_nodes e)" by simp
  show ?case
  proof (cases "m_shadowCastingNodes e ! i")
    case False
    have "k = length (m_nodes e) - Suc i" using Suc.hyps(2) by simp
    from Suc.hyps(1) [OF this] Suc.prems lt False show ?thesis
      by (simp add: renderShadow_nodes_skip upt_conv_Cons)
  next
    case True
    show ?thesis
    proof (cases "m_mesh (m_nodes e ! i)")
      case None
      with lt True Suc.prems show ?thesis by (simp add: renderShadow_nodes_null)
    next
      case (Some mesh)
      let ?e1 = "e\<lparr>meshBufferMap := snd (map_index (meshBufferMap e) (m_mesh (m_nodes e ! i)))\<rparr>"
      let ?d = "node_draw e shadowPipelineLayout 0 (shadowDescriptorSet idx) (shadowUBOBufferSizePerNode e)"
      have k: "k = length (m_nodes ?e1) - Suc i" using Suc.hyps(2) by simp
      have run: "renderShadow_nodes idx (Suc i) ?e1 (cmds @ ?d i) = Some (cmds', e')"
        using Suc.prems renderShadow_nodes_draw [OF lt True Some] by simp
      have same: "node_draw ?e1 shadowPipelineLayout 0 (shadowDescriptorSet idx) (shadowUBOBufferSizePerNode ?e1) = ?d"
        using node_draw_cong [of ?e1 e] by (simp add: map_index_snd)
      from Suc.hyps(1) [OF k run]
      obtain m where c: "cmds' = (cmds @ ?d i) @ concat (map ?d (filter (\<lambda>j. m_shadowCastingNodes e ! j) [Suc i..<length (m_nodes e)]))"
        and m: "e' = ?e1\<lparr>meshBufferMap := m\<rparr>"
               "\<forall>k. lookup_buffer m k = lookup_buffer (meshBufferMap ?e1) k"
        unfolding same by auto
      from m have "e' = e\<lparr>meshBufferMap := m\<rparr> \<and> (\<forall>k. lookup_buffer m k = lookup_buffer (meshBufferMap e) k)"
        by (simp add: map_index_snd)
      moreover from c lt True
      have "cmds' = cmds @ concat (map ?d (filter (\<lambda>j. m_shadowCastingNodes e ! j) [i..<length (m_nodes e)]))"
        by (simp add: upt_conv_Cons)
      ultimately show ?thesis by blast
    qed
  qed
qed

lemma renderShadow_nodes_total:
  assumes "\<forall>node \<in> set (m_nodes e). m_mesh node \<noteq> None"
  shows "renderShadow_nodes idx i e cmds \<noteq> None"
  using assms
proof (induction "length (m_nodes e) - i" arbitrary: i e cmds)
  case 0
  then show ?case by (simp add: renderShadow_nodes_done)
next
  case (Suc k)
  then have lt: "i < length (m_nodes e)" by simp
  have k: "k = length (m_nodes e) - Suc i" using Suc.hyps(2) by simp
  show ?case
  proof (cases "m_shadowCastingNodes e ! i")
    case False
    with Suc.hyps(1) [OF k Suc.prems] lt show ?thesis by (simp add: renderShadow_nodes_skip)
  next
    case True
    from Suc.prems lt obtain mesh where mesh: "m_mesh (m_nodes e ! i) = Some mesh"
      by (metis nth_mem option.exhaust)
    let ?e1 = "e\<lparr>meshBufferMap := snd (map_index (meshBufferMap e) (m_mesh (m_nodes e ! i)))\<rparr>"
    have "k = length (m_nodes ?e1) - Suc i" using k by simp
    moreover have "\<forall>node \<in> set (m_nodes ?e1). m_mesh node \<noteq> None" using Suc.prems by simp
    ultimately show ?thesis
      using Suc.hyps(1) [of ?e1 "Suc i"] by (simp add: renderShadow_nodes_draw [OF lt True mesh])
  qed
qed

lemma render_nodes_done:
  "\<not> i < length (m_nodes e) \<Longrightarrow> render_nodes idx i e cmds = Some (cmds, e)"
  by (subst render_nodes.simps) simp

lemma render_nodes_skip:
  "i < length (m_nodes e) \<Longrightarrow> \<not> m_visibleNodes e ! i \<Longrightarrow>
   render_nodes idx i e cmds = render_nodes idx (Suc i) e cmds"
  by (subst render_nodes.simps) simp

lemma render_nodes_null:
  "i < length (m_nodes e) \<Longrightarrow> m_visibleNodes e ! i \<Longrightarrow> m_mesh (m_nodes e ! i) = None \<Longrightarrow>
   render_nodes idx i e cmds = None"
  by (subst render_nodes.simps) (simp add: color_draw_eq)

lemma render_nodes_draw:
  "i < length (m_nodes e) \<Longrightarrow> m_visibleNodes e ! i \<Longrightarrow> m_mesh (m_nodes e ! i) = Some mesh \<Longrightarrow>
   render_nodes idx i e cmds =
     render_nodes idx (Suc i)
       (e\<lparr>meshBufferMap := snd (map_index (meshBufferMap e) (m_mesh (m_nodes e ! i)))\<rparr>)
       (cmds @ node_draw e pipelineLayout 1 (modelDescriptorSet idx) (modelUBOBufferSizePerNode e) i)"
  by (subst render_nodes.simps) (simp add: color_draw_eq)

lemma render_nodes_Some:
  assumes "render_nodes idx i e cmds = Some (cmds', e')"
  shows "cmds' = cmds @ concat (map (node_draw e pipelineLayout 1 (modelDescriptorSet idx)
                                   (modelUBOBufferSizePerNode e))
                              (filter (\<lambda>j. m_visibleNodes e ! j) [i..<length (m_nodes e)]))
       \<and> (\<exists>m. e' = e\<lparr>meshBufferMap := m\<rparr> \<and> (\<forall>k. lookup_buffer m k = lookup_buffer (meshBufferMap e) k))"
  using assms
proof (induction "length (m_nodes e) - i" arbitrary: i e cmds)
  case 0
  then have "\<not> i < length (m_nodes e)" by simp
  with 0 have "cmds' = cmds" "e' = e" by (simp_all add: render_nodes_done)
  moreover have "e = e\<lparr>meshBufferMap := meshBufferMap e\<rparr>" by simp
  ultimately show ?case using \<open>\<not> i < length (m_nodes e)\<close> by (metis append_Nil2 concat.simps(1) filter.simps(1) list.simps(8) upt_rec)
next
  case (Suc k)
  then have lt: "i < length (m_nodes e)" by simp
  show ?case
  proof (cases "m_visibleNodes e ! i")
    case False
    have "k = length (m_nodes e) - Suc i" using Suc.hyps(2) by simp
    from Suc.hyps(1) [OF this] Suc.prems lt False show ?thesis
      by (simp add: render_nodes_skip upt_conv_Cons)
  next
    case True
    show ?thesis
    proof (cases "m_mesh (m_nodes e ! i)")
      case None
      with lt True Suc.prems show ?thesis by (simp add: render_nodes_null)
    next
      case (Some mesh)
      let ?e1 = "e\<lparr>meshBufferMap := snd (map_index (meshBufferMap e) (m_mesh (m_nodes e ! i)))\<rparr>"
      let ?d = "node_draw e pipelineLayout 1 (modelDescriptorSet idx) (modelUBOBufferSizePerNode e)"
      have k: "k = length (m_nodes ?e1) - Suc i" using Suc.hyps(2) by simp
      have run: "render_nodes idx (Suc i) ?e1 (cmds @ ?d i) = Some (cmds', e')"
        using Suc.prems render_nodes_draw [OF lt True Some] by simp
      have same: "node_draw ?e1 pipelineLayout 1 (modelDescriptorSet idx) (modelUBOBufferSizePerNode ?e1) = ?d"
        using node_draw_cong [of ?e1 e] by (simp add: map_index_snd)
      from Suc.hyps(1) [OF k run]
      obtain m where c: "cmds' = (cmds @ ?d i) @ concat (map ?d (filter (\<lambda>j. m_visibleNodes e ! j) [Suc i..<length (m_nodes e)]))"
        and m: "e' = ?e1\<lparr>meshBufferMap := m\<rparr>"
               "\<forall>k. lookup_buffer m k = lookup_buffer (meshBufferMap ?e1) k"
        unfolding same by auto
      from m have "e' = e\<lparr>meshBufferMap := m\<rparr> \<and> (\<forall>k. lookup_buffer m k = lookup_buffer (meshBufferMap e) k)"
        by (simp add: map_index_snd)
      moreover from c lt True
      have "cmds' = cmds @ concat (map ?d (filter (\<lambda>j. m_visibleNodes e ! j) [i..<length (m_nodes e)]))"
        by (simp add: upt_conv_Cons)
      ultimately show ?thesis by blast
    qed
  qed
qed

lemma render_nodes_total:
  assumes "\<forall>node \<in> set (m_nodes e). m_mesh node \<noteq> None"
  shows "render_nodes idx i e cmds \<noteq> None"
  using assms
proof (induction "length (m_nodes e) - i" arbitrary: i e cmds)
  case 0
  then show ?case by (simp add: render_nodes_done)
next
  case (Suc k)
  then have lt: "i < length (m_nodes e)" by simp
  have k: "k = length (m_nodes e) - Suc i" using Suc.hyps(2) by simp
  show ?case
  proof (cases "m_visibleNodes e ! i")
    case False
    with Suc.hyps(1) [OF k Suc.prems] lt show ?thesis by (simp add: render_nodes_skip)
  next
    case True
    from Suc.prems lt obtain mesh where mesh: "m_mesh (m_nodes e ! i) = Some mesh"
      by (metis nth_mem option.exhaust)
    let ?e1 = "e\<lparr>meshBufferMap := snd (map_index (meshBufferMap e) (m_mesh (m_nodes e ! i)))\<rparr>"
    have "k = length (m_nodes ?e1) - Suc i" using k by simp
    moreover have "\<forall>node \<in> set (m_nodes ?e1). m_mesh node \<noteq> None" using Suc.prems by simp
    ultimately show ?thesis
      using Suc.hyps(1) [of ?e1 "Suc i"] by (simp add: render_nodes_draw [OF lt True mesh])
  qed
qed


section \<open>The frame\<close>

lemma vector_resize_length: "length (vector_resize xs n) = n"
  by (simp add: vector_resize_def)

lemma updateUBO_flags:
  assumes "length (m_shadowCastingNodes e) = length (m_nodes e)"
      and "length (m_visibleNodes e) = length (m_nodes e)"
  shows "m_nodes (fst (updateUBO ms e)) = m_nodes e"
    and "length (m_shadowCastingNodes (fst (updateUBO ms e))) = length (m_nodes e)"
    and "length (m_visibleNodes (fst (updateUBO ms e))) = length (m_nodes e)"
    and "\<forall>i<length (m_nodes e).
            m_shadowCastingNodes (fst (updateUBO ms e)) ! i =
              sphereInFrustum (extractFrustum (mat_mul (shadowProj ms) (shadowView ms)))
                (boundingSphere (m_nodes e ! i))
          \<and> m_visibleNodes (fst (updateUBO ms e)) ! i =
              sphereInFrustum (extractFrustum (mat_mul (proj ms) (view ms)))
                (boundingSphere (m_nodes e ! i))"
proof -
  let ?svp = "mat_mul (shadowProj ms) (shadowView ms)"
  let ?vp = "mat_mul (proj ms) (view ms)"
  obtain cs where u: "updateUBO ms e = updateUBO_nodes ?svp ?vp 0 e cs"
    by (simp add: updateUBO_def Let_def)
  show "m_nodes (fst (updateUBO ms e)) = m_nodes e"
    by (simp add: u updateUBO_nodes_m_nodes)
  from updateUBO_nodes_flags [of ?svp ?vp 0 e cs] assms
  show "length (m_shadowCastingNodes (fst (updateUBO ms e))) = length (m_nodes e)"
    and "length (m_visibleNodes (fst (updateUBO ms e))) = length (m_nodes e)"
    and "\<forall>i<length (m_nodes e).
            m_shadowCastingNodes (fst (updateUBO ms e)) ! i =
              sphereInFrustum (extractFrustum ?svp) (boundingSphere (m_nodes e ! i))
          \<and> m_visibleNodes (fst (updateUBO ms e)) ! i =
              sphereInFrustum (extractFrustum ?vp) (boundingSphere (m_nodes e ! i))"
    by (simp_all add: u)
qed

lemma updateUBO_frame:
  "\<exists>a b. fst (updateUBO ms e) = e\<lparr>m_shadowCastingNodes := a, m_visibleNodes := b\<rparr>"
  by (simp add: updateUBO_def Let_def updateUBO_nodes_frame)

lemma render_Some:
  assumes "render e idx = Some (cmds, e')"
  shows "cmds = shadow_pass_begin
            @ concat (map (node_draw e shadowPipelineLayout 0 (shadowDescriptorSet idx)
                             (shadowUBOBufferSizePerNode e))
                        (filter (\<lambda>i. m_shadowCastingNodes e ! i) [0..<length (m_nodes e)]))
            @ color_pass_begin idx
            @ concat (map (node_draw e pipelineLayout 1 (modelDescriptorSet idx)
                             (modelUBOBufferSizePerNode e))
                        (filter (\<lambda>i. m_visibleNodes e ! i) [0..<length (m_nodes e)]))
            @ color_pass_end idx
       \<and> (\<exists>m. e' = e\<lparr>meshBufferMap := m\<rparr>)"
proof -
  let ?pre = "[CmdPipelineBarrier2 shadowImage LAYOUT_UNDEFINED LAYOUT_DEPTH_STENCIL_ATTACHMENT_OPTIMAL]
       @ [ CmdBeginRendering shadowPipeline, CmdBindPipeline shadowPipeline,
           CmdSetViewport, CmdSetScissor, CmdSetCullMode CULL_MODE_FRONT_BIT,
           CmdSetFrontFace, CmdSetPrimitiveTopology, CmdSetDepthBias ]"
  from assms obtain c1 e1 where s: "renderShadow_nodes idx 0 e ?pre = Some (c1, e1)"
    by (auto simp: render_def renderShadow_def split: option.splits)
  from renderShadow_nodes_Some [OF s] obtain m1 where
    c1: "c1 = ?pre @ concat (map (node_draw e shadowPipelineLayout 0 (shadowDescriptorSet idx)
                                   (shadowUBOBufferSizePerNode e))
                              (filter (\<lambda>j. m_shadowCastingNodes e ! j) [0..<length (m_nodes e)]))"
    and e1: "e1 = e\<lparr>meshBufferMap := m1\<rparr>" "\<forall>k. lookup_buffer m1 k = lookup_buffer (meshBufferMap e) k"
    by blast
  let ?mid = "[ CmdPipelineBarrier2 shadowImage LAYOUT_DEPTH_STENCIL_ATTACHMENT_OPTIMAL
                       LAYOUT_SHADER_READ_ONLY_OPTIMAL,
                     CmdPipelineBarrier2 (colorImages idx) LAYOUT_UNDEFINED
                       LAYOUT_COLOR_ATTACHMENT_OPTIMAL,
                     CmdPipelineBarrier2 (swapchainImages idx) LAYOUT_UNDEFINED
                       LAYOUT_COLOR_ATTACHMENT_OPTIMAL,
                     CmdBeginRendering pipeline, CmdBindPipeline pipeline,
                     CmdSetViewport, CmdSetScissor, CmdSetCullMode CULL_MODE_BACK_BIT,
                     CmdSetFrontFace, CmdSetPrimitiveTopology,
                     CmdBindDescriptorSets pipelineLayout 0 (sceneDescriptorSet idx) [],
                     CmdBindDescriptorSets pipelineLayout 2 textureDescriptorSet [] ]"
  from assms s obtain c2 e2 where
    r: "render_nodes idx 0 e1 ((c1 @ [CmdEndRendering]) @ ?mid) = Some (c2, e2)"
    and fin: "cmds = c2 @ color_pass_end idx" "e' = e2"
    by (auto simp: render_def renderShadow_def color_pass_end_def split: option.splits)
  have same: "node_draw e1 pipelineLayout 1 (modelDescriptorSet idx) (modelUBOBufferSizePerNode e1)
               = node_draw e pipelineLayout 1 (modelDescriptorSet idx) (modelUBOBufferSizePerNode e)"
    using node_draw_cong [of e1 e] e1 by simp
  from render_nodes_Some [OF r] obtain m2 where
    c2: "c2 = ((c1 @ [CmdEndRendering]) @ ?mid)
             @ concat (map (node_draw e pipelineLayout 1 (modelDescriptorSet idx)
                              (modelUBOBufferSizePerNode e))
                         (filter (\<lambda>j. m_visibleNodes e1 ! j) [0..<length (m_nodes e1)]))"
    and e2: "e2 = e1\<lparr>meshBufferMap := m2\<rparr>"
    unfolding same by blast
  have "e' = e\<lparr>meshBufferMap := m2\<rparr>" using fin e2 e1 by simp
  moreover have "cmds = shadow_pass_begin
            @ concat (map (node_draw e shadowPipelineLayout 0 (shadowDescriptorSet idx)
                             (shadowUBOBufferSizePerNode e))
                        (filter (\<lambda>i. m_shadowCastingNodes e ! i) [0..<length (m_nodes e)]))
            @ color_pass_begin idx
            @ concat (map (node_draw e pipelineLayout 1 (modelDescriptorSet idx)
                             (modelUBOBufferSizePerNode e))
                        (filter (\<lambda>i. m_visibleNodes e ! i) [0..<length (m_nodes e)]))
            @ color_pass_end idx"
    using fin c2 c1 e1 by (simp add: shadow_pass_begin_def color_pass_begin_def)
  ultimately show ?thesis by blast
qed

lemma render_total:
  assumes "\<forall>node \<in> set (m_nodes e). m_mesh node \<noteq> None"
  shows "render e idx \<noteq> None"
proof -
  let ?pre = "[CmdPipelineBarrier2 shadowImage LAYOUT_UNDEFINED LAYOUT_DEPTH_STENCIL_ATTACHMENT_OPTIMAL]
       @ [ CmdBeginRendering shadowPipeline, CmdBindPipeline shadowPipeline,
           CmdSetViewport, CmdSetScissor, CmdSetCullMode CULL_MODE_FRONT_BIT,
           CmdSetFrontFace, CmdSetPrimitiveTopology, CmdSetDepthBias ]"
  from renderShadow_nodes_total [OF assms, of idx 0 ?pre]
  obtain c1 e1 where s: "renderShadow_nodes idx 0 e ?pre = Some (c1, e1)" by auto
  from renderShadow_nodes_Some [OF s] have "m_nodes e1 = m_nodes e" by auto
  with assms have "\<forall>node \<in> set (m_nodes e1). m_mesh node \<noteq> None" by simp
  from render_nodes_total [OF this] s show ?thesis
    by (auto simp: render_def renderShadow_def split: option.splits)
qed

lemma frame_Some:
  assumes "frame ms e = Some (copies, cmds, e')"
  shows "m_nodes e' = m_nodes e
      \<and> length (m_shadowCastingNodes e') = length (m_nodes e)
      \<and> length (m_visibleNodes e') = length (m_nodes e)
      \<and> (\<forall>i<length (m_nodes e).
            m_shadowCastingNodes e' ! i =
              sphereInFrustum (extractFrustum (mat_mul (shadowProj ms) (shadowView ms)))
                (boundingSphere (m_nodes e ! i))
          \<and> m_visibleNodes e' ! i =
              sphereInFrustum (extractFrustum (mat_mul (proj ms) (view ms)))
                (boundingSphere (m_nodes e ! i)))
      \<and> cmds = shadow_pass_begin
            @ concat (map (node_draw e shadowPipelineLayout 0 (shadowDescriptorSet (currentIndex e))
                             (shadowUBOBufferSizePerNode e))
                        (filter (\<lambda>i. m_shadowCastingNodes e' ! i) [0..<length (m_nodes e)]))
            @ color_pass_begin (currentIndex e)
            @ concat (map (node_draw e pipelineLayout 1 (modelDescriptorSet (currentIndex e))
                             (modelUBOBufferSizePerNode e))
                        (filter (\<lambda>i. m_visibleNodes e' ! i) [0..<length (m_nodes e)]))
            @ color_pass_end (currentIndex e)"
proof -
  let ?e2 = "e\<lparr>m_shadowCastingNodes := vector_resize (m_shadowCastingNodes e) (length (m_nodes e)),
               m_visibleNodes := vector_resize (m_visibleNodes e) (length (m_nodes e))\<rparr>"
  let ?e3 = "fst (updateUBO ms ?e2)"
  from assms have r: "render ?e3 (currentIndex ?e3) = Some (cmds, e')"
    by (auto simp: frame_def Let_def split_beta split: option.splits)
  obtain a b where e3: "?e3 = ?e2\<lparr>m_shadowCastingNodes := a, m_visibleNodes := b\<rparr>"
    using updateUBO_frame by blast
  have l: "length (m_shadowCastingNodes ?e2) = length (m_nodes ?e2)"
          "length (m_visibleNodes ?e2) = length (m_nodes ?e2)"
    by (simp_all add: vector_resize_length)
  note f = updateUBO_flags [OF l, of ms]
  from render_Some [OF r] obtain m where
    c: "cmds = shadow_pass_begin
            @ concat (map (node_draw ?e3 shadowPipelineLayout 0 (shadowDescriptorSet (currentIndex ?e3))
                             (shadowUBOBufferSizePerNode ?e3))
                        (filter (\<lambda>i. m_shadowCastingNodes ?e3 ! i) [0..<length (m_nodes ?e3)]))
            @ color_pass_begin (currentIndex ?e3)
            @ concat (map (node_draw ?e3 pipelineLayout 1 (modelDescriptorSet (currentIndex ?e3))
                             (modelUBOBufferSizePerNode ?e3))
                        (filter (\<lambda>i. m_visibleNodes ?e3 ! i) [0..<length (m_nodes ?e3)]))
            @ color_pass_end (currentIndex ?e3)"
    and e': "e' = ?e3\<lparr>meshBufferMap := m\<rparr>"
    by blast
  have same: "node_draw ?e3 layout fs dset stride = node_draw e layout fs dset stride"
    for layout fs dset stride
    by (rule node_draw_cong) (simp_all add: e3)
  have fields: "currentIndex ?e3 = currentIndex e" "m_nodes ?e3 = m_nodes e"
    "shadowUBOBufferSizePerNode ?e3 = shadowUBOBufferSizePerNode e"
    "modelUBOBufferSizePerNode ?e3 = modelUBOBufferSizePerNode e"
    by (simp_all add: e3)
  have flags: "m_shadowCastingNodes e' = m_shadowCastingNodes ?e3" "m_visibleNodes e' = m_visibleNodes ?e3"
    "m_nodes e' = m_nodes e"
    by (simp_all add: e' fields)
  show ?thesis
    using f c unfolding flags same fields by simp
qed

lemma frame_total:
  assumes "\<forall>node \<in> set (m_nodes e). m_mesh node \<noteq> None"
  shows "frame ms e \<noteq> None"
proof -
  let ?e2 = "e\<lparr>m_shadowCastingNodes := vector_resize (m_shadowCastingNodes e) (length (m_nodes e)),
               m_visibleNodes := vector_resize (m_visibleNodes e) (length (m_nodes e))\<rparr>"
  let ?e3 = "fst (updateUBO ms ?e2)"
  obtain a b where e3: "?e3 = ?e2\<lparr>m_shadowCastingNodes := a, m_visibleNodes := b\<rparr>"
    using updateUBO_frame by blast
  then have "m_nodes ?e3 = m_nodes e" by simp
  with assms have "\<forall>node \<in> set (m_nodes ?e3). m_mesh node \<noteq> None" by simp
  from render_total [OF this, of "currentIndex ?e3"] show ?thesis
    by (auto simp: frame_def Let_def split_beta split: option.splits)
qed

lemma node_draw_offset:
  "\<exists>w. node_draw e layout fs dset stride i ! 2 = CmdBindDescriptorSets layout fs dset [w]
       \<and> w = word_of_nat (i * unat stride)
       \<and> (i * unat stride < 2 ^ 32 \<longrightarrow> unat w = i * unat stride)"
proof -
  have "unat (word_of_nat n :: u32) = n" if "n < 2 ^ 32" for n :: nat
    using that by (simp only: unat_of_nat) simp
  then show ?thesis
    by (simp add: node_draw_def del: of_nat_mult)
qed

text \<open>
  Claim C4.  In a frame that reaches rendering (it does whenever every node has a mesh),
  the shadow flag of node \<open>i\<close> is \<open>sphereInFrustum\<close> of the node's bounding sphere
  against the frustum of the light view-projection and the visible flag the same against
  the camera view-projection; the shadow pass records, in node order, exactly one group of
  binds and an indexed draw for each node whose shadow flag is set, the colour pass the
  same for each node whose visible flag is set, and nothing else draws.  The group of
  node \<open>i\<close> binds the buffers of the node's mesh and the dynamic offset \<open>i\<close> times
  the stride: as a \<open>uint32_t\<close>, which is the number itself whenever it is below
  \<open>2^32\<close>.
\<close>

theorem frame_draws_flagged_nodes:
  "(list_all (\<lambda>node. m_mesh node \<noteq> None) (m_nodes e) \<longrightarrow> frame ms e \<noteq> None)
   \<and> (\<forall>copies cmds e'. frame ms e = Some (copies, cmds, e') \<longrightarrow>
        m_nodes e' = m_nodes e
      \<and> length (m_shadowCastingNodes e') = length (m_nodes e)
      \<and> length (m_visibleNodes e') = length (m_nodes e)
      \<and> (\<forall>i<length (m_nodes e).
            m_shadowCastingNodes e' ! i =
              sphereInFrustum (extractFrustum (mat_mul (shadowProj ms) (shadowView ms)))
                (boundingSphere (m_nodes e ! i))
          \<and> m_visibleNodes e' ! i =
              sphereInFrustum (extractFrustum (mat_mul (proj ms) (view ms)))
                (boundingSphere (m_nodes e ! i)))
      \<and> cmds = shadow_pass_begin
            @ concat (map (node_draw e shadowPipelineLayout 0 (shadowDescriptorSet (currentIndex e))
                             (shadowUBOBufferSizePerNode e))
                        (filter (\<lambda>i. m_shadowCastingNodes e' ! i) [0..<length (m_nodes e)]))
            @ color_pass_begin (currentIndex e)
            @ concat (map (node_draw e pipelineLayout 1 (modelDescriptorSet (currentIndex e))
                             (modelUBOBufferSizePerNode e))
                        (filter (\<lambda>i. m_visibleNodes e' ! i) [0..<length (m_nodes e)]))
            @ color_pass_end (currentIndex e))
   \<and> (\<forall>layout fs dset stride i.
         \<exists>w. node_draw e layout fs dset stride i ! 2 = CmdBindDescriptorSets layout fs dset [w]
            \<and> w = word_of_nat (i * unat stride)
            \<and> (i * unat stride < 2 ^ 32 \<longrightarrow> unat w = i * unat stride))"
proof (intro conjI allI impI)
  assume "list_all (\<lambda>node. m_mesh node \<noteq> None) (m_nodes e)"
  then have "\<forall>node \<in> set (m_nodes e). m_mesh node \<noteq> None" by (simp add: list_all_iff)
  then show "frame ms e \<noteq> None" by (rule frame_total)
next
  fix layout fs dset stride i
  show "\<exists>w. node_draw e layout fs dset stride i ! 2 = CmdBindDescriptorSets layout fs dset [w]
            \<and> w = word_of_nat (i * unat stride)
            \<and> (i * unat stride < 2 ^ 32 \<longrightarrow> unat w = i * unat stride)"
    by (rule node_draw_offset)
qed (use frame_Some in blast)+


section \<open>The three-node scene\<close>

lemma scene_engine_fields:
  "m_nodes scene_engine = [scene_node (vec3_of 5 0 0), scene_node (vec3_of 100 0 0), scene_node (vec3_of 0 0 0)]"
  "currentIndex scene_engine = 0"
  "shadowUBOBufferSizePerNode scene_engine = 256"
  "modelUBOBufferSizePerNode scene_engine = 256"
  "shadowUniformBufferSize scene_engine = 8192"
  "modelUniformBufferSize scene_engine = 8192"
  "meshBufferMap scene_engine = [Some triangle_mesh \<mapsto> triangle_buffers]"
  by (simp_all add: scene_engine_def scene_engine_0_def initUBO_def initModelUB_def initShadowUB_def
      initSceneUB_def minDynamicUBOAlignment_def Let_def MAX_NODES_def sizeof_ModelUBO_def
      sizeof_ShadowUniformBufferObject_def sizeof_SceneUBO_VS_def)

lemma mat_mul_identity_left: "mat_mul mat4_identity m = m"
  by (simp add: mat_mul_def mat_vec_def mat4_identity_def add4_def scale4_def)

lemma length3_unit_axes:
  "length3 \<lparr>vx = a, vy = 0, vz = 0\<rparr> = \<bar>a\<bar>"
  "length3 \<lparr>vx = 0, vy = a, vz = 0\<rparr> = \<bar>a\<bar>"
  "length3 \<lparr>vx = 0, vy = 0, vz = a\<rparr> = \<bar>a\<bar>"
  using length3_axis [of a] by (simp_all add: vec3_of_def)

lemma light_frustum: "extractFrustum mat4_identity = cube_frustum"
proof -
  have "planes (extractFrustum mat4_identity) = planes cube_frustum"
    by (simp add: extractFrustum_planes spec_rows_def mat4_identity_def row_def mat_at_def col_def
        comp4_def add4_def sub4_def plane_of_def normalized_plane_def cube_frustum_def
        length3_unit_axes vdiv_def vec3_of_def)
  then show ?thesis by simp
qed

lemma camera_distances:
  "Plane_distance (planes (extractFrustum camera_view) ! 0) p = vx p - 4"
  "Plane_distance (planes (extractFrustum camera_view) ! Suc 0) p = 6 - vx p"
  "Plane_distance (planes (extractFrustum camera_view) ! 2) p = vy p + 1"
  "Plane_distance (planes (extractFrustum camera_view) ! 3) p = 1 - vy p"
  "Plane_distance (planes (extractFrustum camera_view) ! 4) p = vz p + 1"
  "Plane_distance (planes (extractFrustum camera_view) ! 5) p = 1 - vz p"
proof -
  have "planes (extractFrustum camera_view) =
     [ \<lparr>normal = vec3_of 1 0 0, plane_d = - 4\<rparr>, \<lparr>normal = vec3_of (-1) 0 0, plane_d = 6\<rparr>,
       \<lparr>normal = vec3_of 0 1 0, plane_d = 1\<rparr>, \<lparr>normal = vec3_of 0 (-1) 0, plane_d = 1\<rparr>,
       \<lparr>normal = vec3_of 0 0 1, plane_d = 1\<rparr>, \<lparr>normal = vec3_of 0 0 (-1), plane_d = 1\<rparr> ]"
    by (simp add: extractFrustum_planes spec_rows_def camera_view_def mat4_identity_def row_def
        mat_at_def col_def comp4_def add4_def sub4_def plane_of_def normalized_plane_def
        length3_unit_axes vdiv_def vec3_of_def)
  then show
    "Plane_distance (planes (extractFrustum camera_view) ! 0) p = vx p - 4"
    "Plane_distance (planes (extractFrustum camera_view) ! Suc 0) p = 6 - vx p"
    "Plane_distance (planes (extractFrustum camera_view) ! 2) p = vy p + 1"
    "Plane_distance (planes (extractFrustum camera_view) ! 3) p = 1 - vy p"
    "Plane_distance (planes (extractFrustum camera_view) ! 4) p = vz p + 1"
    "Plane_distance (planes (extractFrustum camera_view) ! 5) p = 1 - vz p"
    by (simp_all add: Plane_distance_def dot_def vec3_of_def)
qed

lemma scene_node_sphere:
  "center (boundingSphere (scene_node p)) = p" "radius (boundingSphere (scene_node p)) = 1"
  by (simp_all add: boundingSphere_def scene_node_def unit_sphere_def vadd_def vec3_of_def)

lemma scene_light_tests:
  "\<not> sphereInFrustum cube_frustum (boundingSphere (scene_node (vec3_of 5 0 0)))"
  "\<not> sphereInFrustum cube_frustum (boundingSphere (scene_node (vec3_of 100 0 0)))"
  "sphereInFrustum cube_frustum (boundingSphere (scene_node (vec3_of 0 0 0)))"
  by (simp_all add: sphereInFrustum_iff all_less_six cube_distances scene_node_sphere)
     (simp_all add: vec3_of_def)

lemma scene_camera_tests:
  "sphereInFrustum (extractFrustum camera_view) (boundingSphere (scene_node (vec3_of 5 0 0)))"
  "\<not> sphereInFrustum (extractFrustum camera_view) (boundingSphere (scene_node (vec3_of 100 0 0)))"
  "\<not> sphereInFrustum (extractFrustum camera_view) (boundingSphere (scene_node (vec3_of 0 0 0)))"
  by (simp_all add: sphereInFrustum_iff all_less_six camera_distances scene_node_sphere)
     (simp_all add: vec3_of_def)

lemma list3_eqI: "length xs = 3 \<Longrightarrow> xs ! 0 = a \<Longrightarrow> xs ! 1 = b \<Longrightarrow> xs ! 2 = c \<Longrightarrow> xs = [a, b, c]"
  by (cases xs; cases "tl xs"; cases "tl (tl xs)") auto

lemma upt_3: "[0..<3] = [0, 1, 2]"
  by (simp add: upt_rec)

lemma scene_has_meshes: "list_all (\<lambda>node. m_mesh node \<noteq> None) (m_nodes scene_engine)"
  by (simp add: scene_engine_fields scene_node_def)

lemma scene_node_draw:
  assumes "i < 3"
  shows "node_draw scene_engine layout fs dset 256 i =
             [ CmdBindVertexBuffers 11, CmdBindIndexBuffer 13,
               CmdBindDescriptorSets layout fs dset [word_of_nat (i * 256)], CmdDrawIndexed 3 ]"
proof -
  from assms consider "i = 0" | "i = 1" | "i = 2" by linarith
  then show ?thesis
    by cases
       (simp_all add: node_draw_def mesh_buffer_def scene_engine_fields scene_node_def
          triangle_buffers_def triangle_mesh_def numberOfIndices_def)
qed

text \<open>
  The three-node scene: node 2 is inside the light frustum and outside the camera
  frustum, so the shadow pass draws it (offset \<open>2 * 256\<close>) and the colour pass skips it;
  node 0 is drawn by the colour pass only and node 1 by neither.
\<close>

theorem frame_draws_flagged_nodes_witness:
  "\<exists>copies e'.
     frame scene_matrices scene_engine =
       Some (copies,
             shadow_pass_begin
             @ [ CmdBindVertexBuffers 11, CmdBindIndexBuffer 13,
                 CmdBindDescriptorSets shadowPipelineLayout 0 (shadowDescriptorSet 0) [512],
                 CmdDrawIndexed 3 ]
             @ color_pass_begin 0
             @ [ CmdBindVertexBuffers 11, CmdBindIndexBuffer 13,
                 CmdBindDescriptorSets pipelineLayout 1 (modelDescriptorSet 0) [0],
                 CmdDrawIndexed 3 ]
             @ color_pass_end 0,
             e')
     \<and> m_shadowCastingNodes e' = [False, False, True]
     \<and> m_visibleNodes e' = [True, False, False]"
proof -
  note fd = frame_draws_flagged_nodes [of scene_engine scene_matrices]
  from fd [THEN conjunct1] scene_has_meshes have "frame scene_matrices scene_engine \<noteq> None"
    by (rule mp)
  then obtain r where "frame scene_matrices scene_engine = Some r" by blast
  then obtain copies cmds e' where fr: "frame scene_matrices scene_engine = Some (copies, cmds, e')"
    by (cases r) blast
  note sm = fd [THEN conjunct2, THEN conjunct1, rule_format, OF fr]
  have n: "length (m_nodes scene_engine) = 3" by (simp add: scene_engine_fields)
  note sm_len_s = sm [THEN conjunct2, THEN conjunct1]
  note sm_len_v = sm [THEN conjunct2, THEN conjunct2, THEN conjunct1]
  note sm_flags = sm [THEN conjunct2, THEN conjunct2, THEN conjunct2, THEN conjunct1]
  note sm_cmds = sm [THEN conjunct2, THEN conjunct2, THEN conjunct2, THEN conjunct2]
  from sm_len_s sm_len_v
  have len: "length (m_shadowCastingNodes e') = 3" "length (m_visibleNodes e') = 3"
    by (simp_all only: n)
  have vp: "mat_mul (shadowProj scene_matrices) (shadowView scene_matrices) = mat4_identity"
           "mat_mul (proj scene_matrices) (view scene_matrices) = camera_view"
    by (simp_all add: scene_matrices_def mat_mul_identity_left)
  from sm_flags have flags: "\<forall>i<3. m_shadowCastingNodes e' ! i =
              sphereInFrustum cube_frustum (boundingSphere (m_nodes scene_engine ! i))
          \<and> m_visibleNodes e' ! i =
              sphereInFrustum (extractFrustum camera_view) (boundingSphere (m_nodes scene_engine ! i))"
    by (simp only: n vp light_frustum)
  have s: "m_shadowCastingNodes e' = [False, False, True]"
    using len(1) flags
    by (intro list3_eqI) (simp_all add: scene_engine_fields scene_light_tests)
  have v: "m_visibleNodes e' = [True, False, False]"
    using len(2) flags
    by (intro list3_eqI) (simp_all add: scene_engine_fields scene_camera_tests)
  from sm_cmds have "cmds = shadow_pass_begin
            @ concat (map (node_draw scene_engine shadowPipelineLayout 0 (shadowDescriptorSet 0) 256)
                        (filter (\<lambda>i. m_shadowCastingNodes e' ! i) [0..<3]))
            @ color_pass_begin 0
            @ concat (map (node_draw scene_engine pipelineLayout 1 (modelDescriptorSet 0) 256)
                        (filter (\<lambda>i. m_visibleNodes e' ! i) [0..<3]))
            @ color_pass_end 0"
    by (simp only: n scene_engine_fields(2,3,4))
  then have "cmds = shadow_pass_begin
             @ [ CmdBindVertexBuffers 11, CmdBindIndexBuffer 13,
                 CmdBindDescriptorSets shadowPipelineLayout 0 (shadowDescriptorSet 0) [512],
                 CmdDrawIndexed 3 ]
             @ color_pass_begin 0
             @ [ CmdBindVertexBuffers 11, CmdBindIndexBuffer 13,
                 CmdBindDescriptorSets pipelineLayout 1 (modelDescriptorSet 0) [0],
                 CmdDrawIndexed 3 ]
             @ color_pass_end 0"
    unfolding s v by (simp add: upt_3 scene_node_draw)
  with fr s v show ?thesis by blast
qed

section \<open>The stride\<close>

lemma of_nat_and_not_mask:
  "(word_of_nat N :: 'a::len word) AND NOT (mask k) = word_of_nat ((N div 2 ^ k) * 2 ^ k)"
proof -
  have "(N div 2 ^ k) * 2 ^ k = push_bit k (drop_bit k N)"
    by (simp add: push_bit_eq_mult drop_bit_eq_div)
  then show ?thesis
    by (simp only:) (rule bit_word_eqI, auto simp: bit_simps)
qed

lemma round_up_word:
  fixes s :: "'a::len word"
  shows "(s + 2 ^ k - 1) AND NOT (2 ^ k - 1) = word_of_nat (ceil_multiple (unat s) (2 ^ k))"
proof -
  have "s + 2 ^ k - 1 = word_of_nat (unat s + 2 ^ k - 1)"
  proof -
    have "unat s + 2 ^ k - 1 = unat s + (2 ^ k - 1)" by simp
    then have "(word_of_nat (unat s + 2 ^ k - 1) :: 'a word) = word_of_nat (unat s) + word_of_nat (2 ^ k - 1)"
      by (simp only: of_nat_add)
    also have "(word_of_nat (2 ^ k - 1) :: 'a word) = 2 ^ k - 1"
      by (simp add: of_nat_diff)
    finally show ?thesis by simp
  qed
  moreover have "(2 ^ k - 1 :: 'a word) = mask k"
    by (simp add: mask_eq_decr_exp)
  ultimately show ?thesis
    by (simp only: of_nat_and_not_mask ceil_multiple_def)
qed

lemma ceil_multiple_least:
  assumes "0 < a"
  shows "a dvd ceil_multiple s a" "s \<le> ceil_multiple s a"
    "a dvd m \<Longrightarrow> s \<le> m \<Longrightarrow> ceil_multiple s a \<le> m"
    "ceil_multiple s a < s + a"
proof -
  show "a dvd ceil_multiple s a" by (simp add: ceil_multiple_def)
  have split: "s + a - 1 = (s + a - 1) div a * a + (s + a - 1) mod a" by simp
  have "(s + a - 1) mod a < a" using assms by simp
  then have "(s + a - 1) mod a \<le> a - 1" by simp
  with split have "s + a - 1 \<le> ceil_multiple s a + (a - 1)"
    unfolding ceil_multiple_def by linarith
  then show "s \<le> ceil_multiple s a" using assms by simp
  from split have "ceil_multiple s a \<le> s + a - 1" unfolding ceil_multiple_def by linarith
  then show "ceil_multiple s a < s + a" using assms by simp
  show "ceil_multiple s a \<le> m" if "a dvd m" "s \<le> m"
  proof -
    from that obtain q where m: "m = a * q" by (auto simp: dvd_def)
    have "(s + a - 1) div a \<le> (a * q + a - 1) div a"
      using that m by (intro div_le_mono) simp
    also have "(a * q + a - 1) div a = q"
    proof -
      have "a * q + a - 1 = (a - 1) + q * a" using assms by (simp add: algebra_simps)
      then have "(a * q + a - 1) div a = ((a - 1) + q * a) div a" by simp
      also have "\<dots> = (a - 1) div a + q" using assms by (simp only: div_mult_self1) 
      also have "\<dots> = q" using assms by simp
      finally show ?thesis .
    qed
    finally show ?thesis by (simp add: ceil_multiple_def m mult.commute)
  qed
qed

lemma exp_word_pos: "k < 64 \<Longrightarrow> (0 :: 64 word) < 2 ^ k"
  by (simp add: word_gt_0)

lemma minDynamicUBOAlignment_zero:
  "minUniformBufferOffsetAlignment e = 0 \<Longrightarrow> minDynamicUBOAlignment e s = s"
  by (simp add: minDynamicUBOAlignment_def)

lemma minDynamicUBOAlignment_exp:
  assumes "k < 64" and "minUniformBufferOffsetAlignment e = 2 ^ k"
  shows "minDynamicUBOAlignment e s = word_of_nat (ceil_multiple (unat s) (2 ^ k))"
  using assms exp_word_pos [of k] by (simp add: minDynamicUBOAlignment_def round_up_word)

text \<open>
  Claim C7.  When the device reports the alignment zero the stride is the struct size.
  When it reports a power of two \<open>a\<close>, the stride is \<open>ceil(s / a) * a\<close> as a
  \<open>size_t\<close>; that number fits in a \<open>size_t\<close> for every size not above \<open>2^63\<close> (so for
  the size of every object), and whenever it fits the stride is that number: a multiple of
  \<open>a\<close>, at least \<open>s\<close>, and not above any other multiple of \<open>a\<close> that is at least
  \<open>s\<close>.
\<close>

theorem minDynamicUBOAlignment_ceil_multiple:
  "(minUniformBufferOffsetAlignment e = 0 \<longrightarrow> minDynamicUBOAlignment e s = s)
   \<and> (\<forall>k<64. minUniformBufferOffsetAlignment e = 2 ^ k \<longrightarrow>
        minDynamicUBOAlignment e s = word_of_nat (ceil_multiple (unat s) (2 ^ k))
      \<and> (unat s \<le> 2 ^ 63 \<longrightarrow> ceil_multiple (unat s) (2 ^ k) < 2 ^ 64)
      \<and> (ceil_multiple (unat s) (2 ^ k) < 2 ^ 64 \<longrightarrow>
           unat (minDynamicUBOAlignment e s) = ceil_multiple (unat s) (2 ^ k)
         \<and> 2 ^ k dvd unat (minDynamicUBOAlignment e s)
         \<and> unat s \<le> unat (minDynamicUBOAlignment e s)
         \<and> (\<forall>m. 2 ^ k dvd m \<and> unat s \<le> m \<longrightarrow> unat (minDynamicUBOAlignment e s) \<le> m)))"
proof (intro conjI allI impI)
  fix k :: nat
  assume k: "k < 64" and a: "minUniformBufferOffsetAlignment e = 2 ^ k"
  have pos: "(0::nat) < 2 ^ k" by simp
  show eq: "minDynamicUBOAlignment e s = word_of_nat (ceil_multiple (unat s) (2 ^ k))"
    using k a by (rule minDynamicUBOAlignment_exp)
  show "ceil_multiple (unat s) (2 ^ k) < 2 ^ 64" if "unat s \<le> 2 ^ 63"
  proof -
    have "(2::nat) ^ k \<le> 2 ^ 63" using k by (intro power_increasing) simp_all
    with that ceil_multiple_least(4) [OF pos, of "unat s"] show ?thesis by simp
  qed
  assume fits: "ceil_multiple (unat s) (2 ^ k) < 2 ^ 64"
  then show u: "unat (minDynamicUBOAlignment e s) = ceil_multiple (unat s) (2 ^ k)"
    unfolding eq by (simp only: unat_of_nat) simp
  show "2 ^ k dvd unat (minDynamicUBOAlignment e s)"
    unfolding u by (rule ceil_multiple_least(1) [OF pos])
  show "unat s \<le> unat (minDynamicUBOAlignment e s)"
    unfolding u by (rule ceil_multiple_least(2) [OF pos])
  fix m assume "2 ^ k dvd m \<and> unat s \<le> m"
  then show "unat (minDynamicUBOAlignment e s) \<le> m"
    unfolding u using ceil_multiple_least(3) [OF pos] by blast
qed (simp add: minDynamicUBOAlignment_zero)

theorem minDynamicUBOAlignment_ceil_multiple_witness:
  "minUniformBufferOffsetAlignment scene_engine_0 = 2 ^ 8
   \<and> minDynamicUBOAlignment scene_engine_0 132 = 256
   \<and> ceil_multiple 132 (2 ^ 8) = 256
   \<and> minDynamicUBOAlignment scene_engine_0 64 = 256
   \<and> minDynamicUBOAlignment scene_engine_0 257 = 512
   \<and> minDynamicUBOAlignment (scene_engine_0\<lparr>minUniformBufferOffsetAlignment := 0\<rparr>) 132 = 132"
proof -
  have a: "minUniformBufferOffsetAlignment scene_engine_0 = 2 ^ 8"
    by (simp add: scene_engine_0_def)
  have c: "ceil_multiple 132 (2 ^ 8) = 256" "ceil_multiple 64 (2 ^ 8) = 256" "ceil_multiple 257 (2 ^ 8) = 512"
    by (simp_all add: ceil_multiple_def)
  have k: "(8::nat) < 64" by simp
  note t = minDynamicUBOAlignment_ceil_multiple [THEN conjunct2, rule_format, OF k a, THEN conjunct1]
  have z: "minUniformBufferOffsetAlignment (scene_engine_0\<lparr>minUniformBufferOffsetAlignment := 0\<rparr>) = 0"
    by simp
  from t [of 132] t [of 64] t [of 257] c a
    minDynamicUBOAlignment_ceil_multiple [THEN conjunct1, rule_format, OF z, of 132]
  show ?thesis by simp
qed

section \<open>The per-node writes and the buffers\<close>

lemma and_not_split: "(x AND NOT m) + (x AND m) = (x :: 'a::len word)"
proof -
  have "(x AND NOT m) AND (x AND m) = 0"
    by (rule bit_word_eqI) (auto simp: bit_simps)
  moreover have "(x AND NOT m) OR (x AND m) = x"
    by (rule bit_word_eqI) (auto simp: bit_simps)
  ultimately show ?thesis
    using word_plus_and_or [of "x AND NOT m" "x AND m"] by simp
qed

lemma unat_and_not_ge:
  fixes x m :: "'a::len word"
  shows "unat x - unat m \<le> unat (x AND NOT m)"
proof -
  have "unat (x AND m) \<le> unat m"
    by (simp add: word_and_le1 flip: word_le_nat_alt)
  moreover have "unat (x AND NOT m) + unat (x AND m) = unat x"
  proof -
    have "x AND m \<le> x" by (rule word_and_le2)
    then have "unat (x - (x AND m)) = unat x - unat (x AND m)" by (rule unat_sub)
    moreover have "x - (x AND m) = x AND NOT m"
      using and_not_split [of x m] by (simp add: algebra_simps)
    moreover have "unat (x AND m) \<le> unat x"
      by (simp add: word_and_le2 flip: word_le_nat_alt)
    ultimately show ?thesis by simp
  qed
  ultimately show ?thesis by linarith
qed

lemma unat_and_le: "unat (x AND y) \<le> unat (x :: 'a::len word)"
  by (simp add: word_and_le2 flip: word_le_nat_alt)

text \<open>Without overflow the stride is at least the struct and below the struct plus the alignment.\<close>

lemma stride_bounds:
  assumes "unat s + unat (minUniformBufferOffsetAlignment e) < 2 ^ 64"
  shows "unat s \<le> unat (minDynamicUBOAlignment e s)
       \<and> unat (minDynamicUBOAlignment e s) \<le> unat s + unat (minUniformBufferOffsetAlignment e)"
proof (cases "minUniformBufferOffsetAlignment e = 0")
  case True
  then show ?thesis by (simp add: minDynamicUBOAlignment_def)
next
  case False
  let ?a = "minUniformBufferOffsetAlignment e"
  from False have pos: "0 < unat ?a" by (simp add: unat_gt_0)
  have r: "minDynamicUBOAlignment e s = (s + ?a - 1) AND NOT (?a - 1)"
    using False by (simp add: minDynamicUBOAlignment_def word_gt_0 Let_def)
  have m: "unat (?a - 1) = unat ?a - 1"
    using False by (simp add: unat_minus_one)
  have e1: "s + ?a - 1 = s + (?a - 1)" by simp
  have step: "unat (s + (?a - 1)) = unat s + unat (?a - 1)"
    using assms m by (intro unat_add_lem [THEN iffD1]) simp
  have x: "unat (s + ?a - 1) = unat s + unat ?a - 1"
    unfolding e1 step m using pos by arith
  from unat_and_not_ge [of "s + ?a - 1" "?a - 1"] x m pos
  have "unat s \<le> unat (minDynamicUBOAlignment e s)" by (simp add: r)
  moreover from unat_and_le [of "s + ?a - 1" "NOT (?a - 1)"] x pos
  have "unat (minDynamicUBOAlignment e s) \<le> unat s + unat ?a" by (simp add: r)
  ultimately show ?thesis by simp
qed


lemma minDynamicUBOAlignment_initUBO:
  "minDynamicUBOAlignment (initUBO e0) s = minDynamicUBOAlignment e0 s"
  by (simp add: minDynamicUBOAlignment_def initUBO_def initModelUB_def initShadowUB_def
      initSceneUB_def Let_def)

lemma minDynamicUBOAlignment_addNode:
  "minDynamicUBOAlignment (addNode e node) s = minDynamicUBOAlignment e s"
  by (simp add: minDynamicUBOAlignment_def addNode_def)

lemma initUBO_fields:
  "shadowUBOBufferSizePerNode (initUBO e0) = minDynamicUBOAlignment e0 sizeof_ShadowUniformBufferObject"
  "modelUBOBufferSizePerNode (initUBO e0) = minDynamicUBOAlignment e0 sizeof_ModelUBO"
  "shadowUniformBufferSize (initUBO e0) = 32 * minDynamicUBOAlignment e0 sizeof_ShadowUniformBufferObject"
  "modelUniformBufferSize (initUBO e0) = 32 * minDynamicUBOAlignment e0 sizeof_ModelUBO"
  by (simp_all add: initUBO_def initModelUB_def initShadowUB_def initSceneUB_def Let_def
      MAX_NODES_def minDynamicUBOAlignment_def)

lemma initUBO_initialised: "ubo_initialised (initUBO e0)"
  by (simp add: ubo_initialised_def minDynamicUBOAlignment_initUBO initUBO_fields MAX_NODES_def)

lemma initUBO_sizes:
  "shadowUniformBufferSize (initUBO e0) = 32 * shadowUBOBufferSizePerNode (initUBO e0)"
  "modelUniformBufferSize (initUBO e0) = 32 * modelUBOBufferSizePerNode (initUBO e0)"
  by (simp_all add: initUBO_fields)

lemma addNode_initialised: "ubo_initialised e \<Longrightarrow> ubo_initialised (addNode e node)"
  by (simp add: ubo_initialised_def minDynamicUBOAlignment_addNode) (simp add: addNode_def)

lemma per_node_copies_updateUBO:
  "per_node_copies (snd (updateUBO ms e)) =
     concat (map (node_copies e (mat_mul (shadowProj ms) (shadowView ms))) [0..<length (m_nodes e)])"
proof -
  have keep: "filter (\<lambda>c. dstAllocation c \<noteq> sceneUniformBufferAllocation) (concat (map (node_copies e svp) xs))
                = concat (map (node_copies e svp) xs)" for svp xs
    by (induction xs) (simp_all add: node_copies_def)
  show ?thesis
    by (simp add: updateUBO_def Let_def updateUBO_nodes_copies per_node_copies_def keep)
qed

text \<open>
  With a stride that holds the struct, a buffer of 32 strides holds the writes at
  \<open>i\<close> strides exactly for \<open>i\<close> below 32.
\<close>

lemma unat_32_mult:
  fixes T :: u64
  assumes "unat T < 2 ^ 59"
  shows "unat (32 * T) = 32 * unat T"
proof -
  have "32 * unat T < 2 ^ 64" using assms by simp
  then have "unat (32 :: u64) * unat T < 2 ^ LENGTH(64)" by simp
  then have "unat (32 * T) = unat (32 :: u64) * unat T"
    by (rule unat_mult_lem [THEN iffD1])
  then show ?thesis by simp
qed

lemma unat_index_mult:
  fixes T :: u64
  assumes "unat T < 2 ^ 59" and "i \<le> 32"
  shows "unat (of_nat i * T) = i * unat T"
proof -
  have "i < 2 ^ 64" using assms(2) by (rule le_less_trans) simp
  then have i: "unat (of_nat i :: u64) = i" by (simp only: unat_of_nat) simp
  have "i * unat T \<le> 32 * unat T" using assms(2) by (rule mult_le_mono1)
  moreover have "32 * unat T < 2 ^ 64" using assms(1) by simp
  ultimately have "i * unat T < 2 ^ 64" by (rule le_less_trans)
  then have "unat (of_nat i :: u64) * unat T < 2 ^ LENGTH(64)" by (simp only: i) simp
  then have "unat (of_nat i * T) = unat (of_nat i :: u64) * unat T"
    by (rule unat_mult_lem [THEN iffD1])
  then show ?thesis by (simp only: i)
qed

lemma strided_writes_fit:
  fixes T :: u64
  assumes "0 < usz" and "usz \<le> unat T" and "unat T < 2 ^ 59"
  shows "(\<forall>i<n. unat (of_nat i * T) + usz \<le> unat (32 * T)) \<longleftrightarrow> n \<le> 32"
proof
  assume all: "\<forall>i<n. unat (of_nat i * T) + usz \<le> unat (32 * T)"
  show "n \<le> 32"
  proof (rule ccontr)
    assume "\<not> n \<le> 32"
    then have "32 < n" by simp
    with all have "unat (of_nat 32 * T) + usz \<le> unat (32 * T)" by blast
    then have "32 * unat T + usz \<le> 32 * unat T"
      by (simp only: unat_index_mult [OF assms(3) order_refl] unat_32_mult [OF assms(3)])
    with assms(1) show False by simp
  qed
next
  assume n: "n \<le> 32"
  show "\<forall>i<n. unat (of_nat i * T) + usz \<le> unat (32 * T)"
  proof (intro allI impI)
    fix i assume "i < n"
    with n have i: "Suc i \<le> 32" by simp
    then have i': "i \<le> 32" by simp
    have "i * unat T + usz \<le> i * unat T + unat T" using assms(2) by simp
    also have "\<dots> = Suc i * unat T" by simp
    also have "\<dots> \<le> 32 * unat T" using i by (rule mult_le_mono1)
    finally show "unat (of_nat i * T) + usz \<le> unat (32 * T)"
      by (simp only: unat_index_mult [OF assms(3) i'] unat_32_mult [OF assms(3)])
  qed
qed

lemma node_copies_in_bounds:
  "(\<forall>c \<in> set (concat (map (node_copies e svp) [0..<n])). copy_in_bounds e c) \<longleftrightarrow>
   (\<forall>i<n. unat (of_nat i * shadowUBOBufferSizePerNode e) + unat sizeof_ShadowUniformBufferObject
             \<le> unat (shadowUniformBufferSize e))
 \<and> (\<forall>i<n. unat (of_nat i * modelUBOBufferSizePerNode e) + unat sizeof_ModelUBO
             \<le> unat (modelUniformBufferSize e))"
proof -
  have one: "(\<forall>c \<in> set (node_copies e svp i). copy_in_bounds e c) \<longleftrightarrow>
      unat (of_nat i * shadowUBOBufferSizePerNode e) + unat sizeof_ShadowUniformBufferObject
             \<le> unat (shadowUniformBufferSize e)
    \<and> unat (of_nat i * modelUBOBufferSizePerNode e) + unat sizeof_ModelUBO
             \<le> unat (modelUniformBufferSize e)" for i
    by (simp add: node_copies_def copy_in_bounds_def allocation_size_def)
  have "(\<forall>c \<in> set (concat (map (node_copies e svp) [0..<n])). copy_in_bounds e c) \<longleftrightarrow>
        (\<forall>i<n. \<forall>c \<in> set (node_copies e svp i). copy_in_bounds e c)"
    by auto
  then show ?thesis unfolding one by blast
qed


text \<open>
  Claim C10.  After \<open>initUBO\<close> each per-frame shadow and model buffer has the size of
  \<open>MAX_NODES = 32\<close> strides; \<open>addNode\<close> appends a node whatever the length of the list
  (and leaves strides and sizes alone); \<open>updateUBO\<close> writes, for every node \<open>i\<close> of
  the list and without a check, the shadow struct at \<open>i\<close> times the shadow stride and the
  model struct at \<open>i\<close> times the model stride.  With the strides and sizes of
  \<open>initUBO\<close>, and a device alignment for which the 64-bit sizes do not wrap (below
  \<open>2^58\<close>; Vulkan allows at most 256), every per-node write lands inside its buffer
  exactly when the scene has at most 32 nodes.
\<close>

theorem per_node_writes_in_bounds_iff:
  "ubo_initialised (initUBO e0)
   \<and> shadowUniformBufferSize (initUBO e0) = 32 * shadowUBOBufferSizePerNode (initUBO e0)
   \<and> modelUniformBufferSize (initUBO e0) = 32 * modelUBOBufferSizePerNode (initUBO e0)
   \<and> m_nodes (addNode e node) = m_nodes e @ [node]
   \<and> (ubo_initialised e \<longrightarrow> ubo_initialised (addNode e node))
   \<and> per_node_copies (snd (updateUBO ms e)) =
       concat (map (node_copies e (mat_mul (shadowProj ms) (shadowView ms))) [0..<length (m_nodes e)])
   \<and> (ubo_initialised e \<and> unat (minUniformBufferOffsetAlignment e) < 2 ^ 58 \<longrightarrow>
        ((\<forall>c \<in> set (per_node_copies (snd (updateUBO ms e))). copy_in_bounds e c)
           \<longleftrightarrow> length (m_nodes e) \<le> 32))"
proof -
  have fit: "(\<forall>c \<in> set (per_node_copies (snd (updateUBO ms e))). copy_in_bounds e c)
           \<longleftrightarrow> length (m_nodes e) \<le> 32"
    if h: "ubo_initialised e \<and> unat (minUniformBufferOffsetAlignment e) < 2 ^ 58"
  proof -
    let ?S = "shadowUBOBufferSizePerNode e" and ?M = "modelUBOBufferSizePerNode e"
    let ?n = "length (m_nodes e)"
    from h have S: "?S = minDynamicUBOAlignment e sizeof_ShadowUniformBufferObject"
      and M: "?M = minDynamicUBOAlignment e sizeof_ModelUBO"
      and tot: "shadowUniformBufferSize e = 32 * ?S" "modelUniformBufferSize e = 32 * ?M"
      by (simp_all add: ubo_initialised_def MAX_NODES_def)
    have sz: "unat sizeof_ShadowUniformBufferObject = 64" "unat sizeof_ModelUBO = 132"
      by (simp_all add: sizeof_ShadowUniformBufferObject_def sizeof_ModelUBO_def)
    from h have "unat sizeof_ShadowUniformBufferObject + unat (minUniformBufferOffsetAlignment e) < 2 ^ 64"
      and "unat sizeof_ModelUBO + unat (minUniformBufferOffsetAlignment e) < 2 ^ 64"
      by (simp_all add: sz)
    from stride_bounds [OF this(1)] stride_bounds [OF this(2)] h
    have bS: "64 \<le> unat ?S" "unat ?S < 2 ^ 59" and bM: "132 \<le> unat ?M" "unat ?M < 2 ^ 59"
      by (simp_all add: S M sz)
    have fS: "(\<forall>i<?n. unat (of_nat i * ?S) + 64 \<le> unat (32 * ?S)) \<longleftrightarrow> ?n \<le> 32"
      by (rule strided_writes_fit [OF _ bS]) simp
    have fM: "(\<forall>i<?n. unat (of_nat i * ?M) + 132 \<le> unat (32 * ?M)) \<longleftrightarrow> ?n \<le> 32"
      by (rule strided_writes_fit [OF _ bM]) simp
    have "(\<forall>c \<in> set (per_node_copies (snd (updateUBO ms e))). copy_in_bounds e c) \<longleftrightarrow>
            (\<forall>i<?n. unat (of_nat i * ?S) + 64 \<le> unat (32 * ?S))
          \<and> (\<forall>i<?n. unat (of_nat i * ?M) + 132 \<le> unat (32 * ?M))"
      by (simp only: per_node_copies_updateUBO node_copies_in_bounds tot sz)
    also have "\<dots> \<longleftrightarrow> ?n \<le> 32"
      unfolding fS fM by simp
    finally show ?thesis .
  qed
  have "m_nodes (addNode e node) = m_nodes e @ [node]"
    by (simp add: addNode_def)
  with fit initUBO_initialised initUBO_sizes addNode_initialised per_node_copies_updateUBO
  show ?thesis by blast
qed

lemma initUBO_keeps:
  "minUniformBufferOffsetAlignment (initUBO e0) = minUniformBufferOffsetAlignment e0"
  "m_nodes (initUBO e0) = m_nodes e0"
  by (simp_all add: initUBO_def initModelUB_def initShadowUB_def initSceneUB_def Let_def)

text \<open>
  With an alignment of 256 the three writes of each buffer of the three-node scene land
  inside; with thirty-three nodes one does not.
\<close>

theorem per_node_writes_in_bounds_iff_witness:
  "ubo_initialised scene_engine
   \<and> unat (minUniformBufferOffsetAlignment scene_engine) < 2 ^ 58
   \<and> length (m_nodes scene_engine) = 3
   \<and> list_all (copy_in_bounds scene_engine)
         (per_node_copies (snd (updateUBO scene_matrices scene_engine)))
   \<and> ubo_initialised crowded_engine
   \<and> unat (minUniformBufferOffsetAlignment crowded_engine) < 2 ^ 58
   \<and> length (m_nodes crowded_engine) = 33
   \<and> \<not> list_all (copy_in_bounds crowded_engine)
         (per_node_copies (snd (updateUBO scene_matrices crowded_engine)))"
proof -
  note t = per_node_writes_in_bounds_iff
  have i1: "ubo_initialised scene_engine"
    unfolding scene_engine_def by (rule t [THEN conjunct1])
  have i2: "ubo_initialised crowded_engine"
    unfolding crowded_engine_def by (rule t [THEN conjunct1])
  have a1: "unat (minUniformBufferOffsetAlignment scene_engine) < 2 ^ 58"
    by (simp add: scene_engine_def initUBO_keeps scene_engine_0_def)
  have a2: "unat (minUniformBufferOffsetAlignment crowded_engine) < 2 ^ 58"
    by (simp add: crowded_engine_def initUBO_keeps scene_engine_0_def)
  have n1: "length (m_nodes scene_engine) = 3"
    by (simp add: scene_engine_def initUBO_keeps scene_engine_0_def)
  have n2: "length (m_nodes crowded_engine) = 33"
    by (simp add: crowded_engine_def initUBO_keeps)
  note iff = t [THEN conjunct2, THEN conjunct2, THEN conjunct2, THEN conjunct2, THEN conjunct2,
                THEN conjunct2, rule_format]
  from iff [of scene_engine scene_matrices] i1 a1 n1
  have "list_all (copy_in_bounds scene_engine)
         (per_node_copies (snd (updateUBO scene_matrices scene_engine)))"
    by (simp add: list_all_iff)
  moreover from iff [of crowded_engine scene_matrices] i2 a2 n2
  have "\<not> list_all (copy_in_bounds crowded_engine)
         (per_node_copies (snd (updateUBO scene_matrices crowded_engine)))"
    by (simp add: list_all_iff)
  ultimately show ?thesis using i1 i2 a1 a2 n1 n2 by simp
qed

section \<open>The bounding sphere of a node\<close>

lemma updateUBO_m_nodes: "m_nodes (fst (updateUBO ms e)) = m_nodes e"
  by (simp add: updateUBO_def Let_def updateUBO_nodes_m_nodes)

lemma boundingSphere_parts:
  "radius (boundingSphere n) = radius (m_boundingSphere n)"
  "center (boundingSphere n) = vadd (center (m_boundingSphere n)) (m_pos n)"
  by (simp_all add: boundingSphere_def Let_def)

lemma root_world_position: "lock (m_parent n) = None \<Longrightarrow> translation (worldMatrix n) = m_pos n"
  by (simp add: worldMatrix_lock [of n] translation_localMatrix)

text \<open>
  Claim C6.  The sphere returned by \<open>Node::boundingSphere()\<close> has the radius of the
  cached sphere and the cached centre translated by the node's position \<open>m_pos\<close>.  For
  every node that the public interface builds, and the program has no other nodes
  (\<open>m_parent\<close> is private and nothing sets it), that position is the translation
  component of the node's world transform.  The query is a function of the node, and
  \<open>updateUBO\<close>, which asks twice per node, leaves the node list as it was.
\<close>

theorem boundingSphere_adds_position:
  "radius (boundingSphere n) = radius (m_boundingSphere n)
   \<and> center (boundingSphere n) = vadd (center (m_boundingSphere n)) (m_pos n)
   \<and> (lock (m_parent n) = None \<longrightarrow>
        center (boundingSphere n) = vadd (center (m_boundingSphere n)) (translation (worldMatrix n)))
   \<and> (public_node n \<longrightarrow>
        center (boundingSphere n) = vadd (center (m_boundingSphere n)) (translation (worldMatrix n)))
   \<and> m_nodes (fst (updateUBO ms e)) = m_nodes e"
proof -
  have "lock (m_parent n) = None" if "public_node n"
    using public_node_parent [OF that] by simp
  then show ?thesis
    by (auto simp: boundingSphere_parts root_world_position updateUBO_m_nodes)
qed

theorem boundingSphere_adds_position_witness:
  "public_node (setPosition Node_default (vec3_of 1 2 3))
   \<and> center (boundingSphere (setPosition Node_default (vec3_of 1 2 3))) = vec3_of 1 2 3
   \<and> translation (worldMatrix (setPosition Node_default (vec3_of 1 2 3))) = vec3_of 1 2 3
   \<and> radius (boundingSphere (setPosition Node_default (vec3_of 1 2 3))) = 0"
proof -
  let ?n = "setPosition Node_default (vec3_of 1 2 3)"
  have p: "public_node ?n" by (intro pn_setPosition pn_default)
  have c: "vadd (center (m_boundingSphere ?n)) (m_pos ?n) = vec3_of 1 2 3"
          "radius (m_boundingSphere ?n) = 0" "m_pos ?n = vec3_of 1 2 3"
    by (simp_all add: setPosition_def Node_default_def vadd_def vec3_of_def)
  have t: "translation (worldMatrix ?n) = vec3_of 1 2 3"
    using root_world_position [of ?n] public_node_parent [OF p] c(3) by simp
  from boundingSphere_adds_position [of ?n] p c t show ?thesis by simp
qed

section \<open>The stale surface in update\<close>

lemma bind_result_Inr: "bind_result (Inr v) f = f v"
  by (simp add: bind_result_def)

lemma bind_result_Inl: "bind_result (Inl err) f = Inl err"
  by (simp add: bind_result_def)

lemma bind_result_eq_Inr: "bind_result r f = Inr y \<longleftrightarrow> (\<exists>v. r = Inr v \<and> f v = Inr y)"
  by (cases r) (simp_all add: bind_result_def)

lemma VK_CHECK_simps:
  "VK_CHECK VK_SUCCESS = Inr ()"
  "err \<noteq> VK_SUCCESS \<Longrightarrow> VK_CHECK err = Inl (Vulkan_error err)"
  by (simp_all add: VK_CHECK_def)

text \<open>\<open>acquireNextSwapchainImage\<close>: what it returns, and when.\<close>

lemma entry_ready_semaphore:
  "entry_ready (per_frame\<lparr>swapchain_acquire_semaphore := h\<rparr>) = entry_ready per_frame"
  "entry_ready (per_frame\<lparr>swapchain_release_semaphore := h\<rparr>) = entry_ready per_frame"
  by (simp_all add: entry_ready_def)

lemma acquire_Inr:
  assumes "acquireNextSwapchainImage created r (e, c) = Inr (res, e', c')"
  shows "res = fst r" and "e' = indexed r e"
    and "length (perFrame c') = length (perFrame c)"
    and "\<forall>i<length (perFrame c). entry_ready (perFrame c' ! i) = entry_ready (perFrame c ! i)"
    and "res = VK_SUCCESS \<longrightarrow> unat (snd r) < length (perFrame c)"
    and "res \<noteq> VK_SUCCESS \<longrightarrow> perFrame c' = perFrame c \<and> recycledSemaphores c' \<noteq> []"
proof -
  from assms obtain sem c1 where
    s: "(if recycledSemaphores c = []
           then bind_result (VK_CHECK created) (\<lambda>_. Inr (Created, c))
           else Inr (last (recycledSemaphores c),
                     c\<lparr>recycledSemaphores := butlast (recycledSemaphores c)\<rparr>)) = Inr (sem, c1)"
    and k: "(let res = fst r;
                 e1 = (if res = VK_SUCCESS \<or> res = VK_SUBOPTIMAL_KHR
                       then e\<lparr>currentIndex := snd r\<rparr> else e)
             in if res \<noteq> VK_SUCCESS
                then Inr (res, e1,
                          c1\<lparr>recycledSemaphores := recycledSemaphores c1 @ [sem]\<rparr>)
                else if \<not> unat (snd r) < length (perFrame c1) then Inl Undefined_behaviour
                else
                  (let image = unat (snd r);
                       per_frame = perFrame c1 ! image;
                       old_semaphore = swapchain_acquire_semaphore per_frame;
                       c2 = (if old_semaphore \<noteq> VK_NULL_HANDLE
                             then c1\<lparr>recycledSemaphores := recycledSemaphores c1 @ [old_semaphore]\<rparr>
                             else c1)
                   in Inr (VK_SUCCESS, e1,
                           c2\<lparr>perFrame := (perFrame c2)
                                 [image := per_frame\<lparr>swapchain_acquire_semaphore := sem\<rparr>]\<rparr>)))
            = Inr (res, e', c')"
    by (auto simp: acquireNextSwapchainImage_def bind_result_eq_Inr)
  from s have p1: "perFrame c1 = perFrame c"
    by (auto simp: bind_result_eq_Inr split: if_splits)
  from k show "res = fst r" and "e' = indexed r e"
    by (auto simp: Let_def indexed_def split: if_splits)
  from k p1 show "length (perFrame c') = length (perFrame c)"
    by (auto simp: Let_def split: if_splits)
  from k p1 show "\<forall>i<length (perFrame c). entry_ready (perFrame c' ! i) = entry_ready (perFrame c ! i)"
    by (auto simp: Let_def nth_list_update entry_ready_semaphore split: if_splits)
  from k p1 show "res = VK_SUCCESS \<longrightarrow> unat (snd r) < length (perFrame c)"
    by (auto simp: Let_def split: if_splits)
  from k p1 show "res \<noteq> VK_SUCCESS \<longrightarrow> perFrame c' = perFrame c \<and> recycledSemaphores c' \<noteq> []"
    by (auto simp: Let_def split: if_splits)
qed

lemma acquire_returns:
  assumes "recycledSemaphores c \<noteq> [] \<or> created = VK_SUCCESS"
      and "fst r = VK_SUCCESS \<longrightarrow> unat (snd r) < length (perFrame c)"
  shows "\<exists>c'. acquireNextSwapchainImage created r (e, c) = Inr (fst r, indexed r e, c')"
  using assms
  by (auto simp: acquireNextSwapchainImage_def bind_result_def VK_CHECK_def Let_def indexed_def)

text \<open>\<open>initSwapchain\<close> and \<open>resize\<close>: what they return, and when.\<close>

lemma initPerFrame_returns:
  "initPerFrame (VK_SUCCESS, VK_SUCCESS, VK_SUCCESS) per_frame =
     Inr (per_frame\<lparr>queue_submit_fence := Created, primary_command_pool := Created,
                     primary_command_buffer := Created\<rparr>)"
  by (simp add: initPerFrame_def VK_CHECK_def bind_result_def)

lemma initPerFrames_returns:
  "list_all (\<lambda>(fence, pool, command_buffer).
       fence = VK_SUCCESS \<and> pool = VK_SUCCESS \<and> command_buffer = VK_SUCCESS) results
     \<Longrightarrow> \<exists>per_frames. initPerFrames results = Inr per_frames"
proof (induction results)
  case Nil
  show ?case by simp
next
  case (Cons r rest)
  then obtain per_frames where "initPerFrames rest = Inr per_frames" by auto
  moreover from Cons.prems have "r = (VK_SUCCESS, VK_SUCCESS, VK_SUCCESS)" by auto
  ultimately show ?case by (simp add: initPerFrame_returns bind_result_Inr)
qed

lemma initSwapchain_Inr:
  assumes "initSwapchain sb (e, c) = Inr (evs, e', c')"
  shows "evs = InitSwapchain # (case build sb of None \<Rightarrow> [LogE ''failed to create swapchain''] | Some ext \<Rightarrow> [])"
    and "e' = e\<lparr>swapchainDimensions := (case build sb of Some ext \<Rightarrow> ext | None \<Rightarrow> swapchainDimensions e)\<rparr>"
    and "recycledSemaphores c' = recycledSemaphores c"
    and "build sb = None \<longrightarrow> c' = c"
  using assms
  by (auto simp: initSwapchain_def bind_result_eq_Inr split: option.splits if_splits)

lemma initSwapchain_returns_Inr:
  assumes "initSwapchain_returns sb"
  shows "\<exists>evs e' c'. initSwapchain sb (e, c) = Inr (evs, e', c')"
proof (cases "build sb")
  case None
  then show ?thesis by (simp add: initSwapchain_def)
next
  case (Some ext)
  with assms have g: "get_images sb" "get_image_views sb"
    and "list_all (\<lambda>(fence, pool, command_buffer).
       fence = VK_SUCCESS \<and> pool = VK_SUCCESS \<and> command_buffer = VK_SUCCESS) (per_frame_results sb)"
    by (auto simp: initSwapchain_returns_def)
  from initPerFrames_returns [OF this(3)] obtain per_frames
    where "initPerFrames (per_frame_results sb) = Inr per_frames" by blast
  with Some g show ?thesis by (simp add: initSwapchain_def bind_result_Inr)
qed

lemma resize_Inr:
  assumes "resize sp sb (e, c) = Inr (ok, revs, e', c')"
  shows "revs @ (if \<not> ok then [LogI ''Resize failed''] else [])
           = resize_events (device e \<noteq> 0 \<and> snd sp \<noteq> swapchainDimensions e) (build sb)"
    and "e' = resized sp sb e"
    and "recycledSemaphores c' = recycledSemaphores c"
    and "resize_keeps sp sb e \<longrightarrow> c' = c"
proof -
  show "revs @ (if \<not> ok then [LogI ''Resize failed''] else [])
           = resize_events (device e \<noteq> 0 \<and> snd sp \<noteq> swapchainDimensions e) (build sb)"
    using assms
    by (auto simp: resize_def bind_result_eq_Inr resize_events_def
        dest!: initSwapchain_Inr(1) split: if_splits)
  show "e' = resized sp sb e"
    using assms
    by (auto simp: resize_def bind_result_eq_Inr resized_def
        dest!: initSwapchain_Inr(2) split: if_splits)
  show "recycledSemaphores c' = recycledSemaphores c"
    using assms
    by (auto simp: resize_def bind_result_eq_Inr dest!: initSwapchain_Inr(3) split: if_splits)
  show "resize_keeps sp sb e \<longrightarrow> c' = c"
    using assms
    by (auto simp: resize_def bind_result_eq_Inr resize_keeps_def
        dest!: initSwapchain_Inr(4) split: if_splits)
qed

lemma resize_returns_Inr:
  assumes "resize_returns sp sb e"
  shows "\<exists>ok revs e' c'. resize sp sb (e, c) = Inr (ok, revs, e', c')"
proof (cases "device e \<noteq> 0 \<and> snd sp \<noteq> swapchainDimensions e")
  case False
  with assms show ?thesis
    by (auto simp: resize_def resize_returns_def VK_CHECK_def bind_result_def)
next
  case True
  with assms have ok: "fst sp = VK_SUCCESS" and "initSwapchain_returns sb"
    by (auto simp: resize_returns_def)
  from initSwapchain_returns_Inr [OF this(2)] obtain evs e' c'
    where "initSwapchain sb (e, c) = Inr (evs, e', c')" by blast
  with True ok show ?thesis
    by (auto simp: resize_def VK_CHECK_def bind_result_def)
qed

lemma resize_throws:
  assumes "device e \<noteq> 0" and "fst sp \<noteq> VK_SUCCESS"
  shows "resize sp sb (e, c) = Inl (Vulkan_error (fst sp))"
  using assms by (simp add: resize_def VK_CHECK_def bind_result_def)

lemma resize_keeps_returns: "resize_keeps sp sb e \<Longrightarrow> resize_returns sp sb e"
  by (auto simp: resize_keeps_def resize_returns_def initSwapchain_returns_def)

text \<open>\<open>run_frame\<close>: what it returns, and when.\<close>

lemma run_frame_Inr:
  assumes "run_frame env (e, c) = Inr (copies, cmds, e', c')"
  shows "frame (matrices env) e = Some (copies, cmds, e')"
  using assms
  by (auto simp: run_frame_def Let_def bind_result_eq_Inr split: if_splits option.splits)

lemma entry_ready_handles: "entry_ready per_frame \<Longrightarrow> VK_NULL_HANDLE \<notin> set (frame_handles e per_frame)"
  by (auto simp: entry_ready_def frame_handles_def)

lemma run_frame_returns:
  assumes "unat (currentIndex e) < length (perFrame c)"
      and "entry_ready (perFrame c ! unat (currentIndex e))"
      and "list_all (\<lambda>node. m_mesh node \<noteq> None) (m_nodes e)"
      and "frame_checks env = VK_SUCCESS"
  shows "\<exists>copies cmds e' c'. run_frame env (e, c) = Inr (copies, cmds, e', c')"
proof -
  from assms(3) have "\<forall>node \<in> set (m_nodes e). m_mesh node \<noteq> None"
    by (simp add: list_all_iff)
  from frame_total [OF this, of "matrices env"]
  obtain r where "frame (matrices env) e = Some r" by blast
  then obtain copies cmds e' where fr: "frame (matrices env) e = Some (copies, cmds, e')"
    by (cases r) auto
  from entry_ready_handles [OF assms(2), of e'] assms(1,4) fr show ?thesis
    by (simp add: run_frame_def Let_def VK_CHECK_def bind_result_def)
qed

text \<open>
  The acquire phase of \<open>update\<close>, with what follows it left open: when it returns, what
  follows is given the last result, the events of the phase and the engine with the new
  image index and dimensions.
\<close>

lemma indexed_fields:
  "m_nodes (indexed r e) = m_nodes e"
  "m_shadowCastingNodes (indexed r e) = m_shadowCastingNodes e"
  "m_visibleNodes (indexed r e) = m_visibleNodes e"
  "device (indexed r e) = device e"
  "swapchainDimensions (indexed r e) = swapchainDimensions e"
  by (simp_all add: indexed_def)

lemma resized_fields:
  "m_nodes (resized sp sb e) = m_nodes e"
  "m_shadowCastingNodes (resized sp sb e) = m_shadowCastingNodes e"
  "m_visibleNodes (resized sp sb e) = m_visibleNodes e"
  "device (resized sp sb e) = device e"
  by (simp_all add: resized_def)

lemma stale_not_success: "stale res \<Longrightarrow> res \<noteq> VK_SUCCESS"
  by (auto simp: stale_def)

lemma acquire_phase_Inr:
  assumes "bind_result (acquireNextSwapchainImage (semaphore_1 env) (acquire_1 env) (e, c)) (\<lambda>(res, s1).
     bind_result
       (if stale res then
          bind_result (resize (surface_1 env) (built_1 env) s1) (\<lambda>(ok, revs, s').
            let log = (if \<not> ok then [LogI ''Resize failed''] else [])
            in bind_result (acquireNextSwapchainImage (semaphore_2 env) (acquire_2 env) s')
                 (\<lambda>(res', s''). Inr (res', [Acquire res] @ revs @ log @ [Acquire res'], s'')))
        else Inr (res, [Acquire res], s1))
       K) = Inr y"
  shows "\<exists>e2 c2. K (final_acquire env, acquire_events env e, e2, c2) = Inr y
           \<and> m_nodes e2 = m_nodes e
           \<and> m_shadowCastingNodes e2 = m_shadowCastingNodes e
           \<and> m_visibleNodes e2 = m_visibleNodes e
           \<and> device e2 = device e
           \<and> swapchainDimensions e2 = dimensions_1 env e
           \<and> (final_acquire env = VK_SUCCESS \<longrightarrow> e2 = acquired env e)"
proof -
  from assms obtain res e1 c1 where
    a1: "acquireNextSwapchainImage (semaphore_1 env) (acquire_1 env) (e, c) = Inr (res, e1, c1)"
    and k1: "bind_result
       (if stale res then
          bind_result (resize (surface_1 env) (built_1 env) (e1, c1)) (\<lambda>(ok, revs, s').
            let log = (if \<not> ok then [LogI ''Resize failed''] else [])
            in bind_result (acquireNextSwapchainImage (semaphore_2 env) (acquire_2 env) s')
                 (\<lambda>(res', s''). Inr (res', [Acquire res] @ revs @ log @ [Acquire res'], s'')))
        else Inr (res, [Acquire res], e1, c1))
       K = Inr y"
    by (auto simp: bind_result_eq_Inr)
  note r1 = acquire_Inr(1,2) [OF a1]
  have e1: "m_nodes e1 = m_nodes e" "m_shadowCastingNodes e1 = m_shadowCastingNodes e"
    "m_visibleNodes e1 = m_visibleNodes e" "device e1 = device e"
    "swapchainDimensions e1 = swapchainDimensions e"
    by (simp_all add: r1 indexed_fields)
  show ?thesis
  proof (cases "stale (fst (acquire_1 env))")
    case False
    with k1 r1 have "K (final_acquire env, acquire_events env e, e1, c1) = Inr y"
      by (simp add: bind_result_Inr final_acquire_def acquire_events_def)
    moreover have "swapchainDimensions e1 = dimensions_1 env e"
      using False by (simp add: e1 dimensions_1_def)
    moreover have "final_acquire env = VK_SUCCESS \<longrightarrow> e1 = acquired env e"
      using False by (auto simp: r1 indexed_def acquired_def final_acquire_def final_index_def dimensions_1_def)
    ultimately show ?thesis using e1 by blast
  next
    case True
    with k1 r1 obtain ok revs e' c' res' e'' c'' where
      rs: "resize (surface_1 env) (built_1 env) (e1, c1) = Inr (ok, revs, e', c')"
      and a2: "acquireNextSwapchainImage (semaphore_2 env) (acquire_2 env) (e', c') = Inr (res', e'', c'')"
      and k2: "K (res', [Acquire res] @ revs @ (if \<not> ok then [LogI ''Resize failed''] else []) @ [Acquire res'], e'', c'') = Inr y"
      by (auto simp: bind_result_eq_Inr Let_def)
    note r2 = resize_Inr(1,2) [OF rs]
    note r3 = acquire_Inr(1,2) [OF a2]
    have ev: "[Acquire res] @ revs @ (if \<not> ok then [LogI ''Resize failed''] else []) @ [Acquire res']
        = Acquire res # (revs @ (if \<not> ok then [LogI ''Resize failed''] else [])) @ [Acquire res']"
      by simp
    have "K (final_acquire env, acquire_events env e, e'', c'') = Inr y"
      using k2 True unfolding ev r2(1)
      by (simp add: final_acquire_def acquire_events_def rebuilt_1_def r1 r3 indexed_fields)
    moreover have e'': "e'' = indexed (acquire_2 env) (resized (surface_1 env) (built_1 env) e1)"
      by (simp add: r3 r2)
    have "m_nodes e'' = m_nodes e" "m_shadowCastingNodes e'' = m_shadowCastingNodes e"
      "m_visibleNodes e'' = m_visibleNodes e" "device e'' = device e"
      by (simp_all add: e'' indexed_fields resized_fields e1)
    moreover have "swapchainDimensions e'' = dimensions_1 env e"
      using True
      by (simp add: e'' indexed_fields resized_def e1 dimensions_1_def rebuilt_1_def
          split: option.splits)
    moreover have "final_acquire env = VK_SUCCESS \<longrightarrow> e'' = acquired env e"
      using True
      by (auto simp: e'' r1 indexed_def resized_def acquired_def final_acquire_def final_index_def
          dimensions_1_def rebuilt_1_def stale_def split: option.splits)
    ultimately show ?thesis by blast
  qed
qed

lemma resize_returns_cong:
  assumes "device e' = device e" and "swapchainDimensions e' = swapchainDimensions e"
  shows "resize_returns sp sb e' = resize_returns sp sb e"
    and "resize_keeps sp sb e' = resize_keeps sp sb e"
  using assms by (simp_all add: resize_returns_def resize_keeps_def)

lemma kept_dimensions:
  assumes "\<not> stale (fst (acquire_1 env)) \<or> resize_keeps (surface_1 env) (built_1 env) e"
  shows "dimensions_1 env e = swapchainDimensions e"
  using assms by (auto simp: dimensions_1_def rebuilt_1_def resize_keeps_def)

lemma acquire_phase_returns:
  assumes so: "semaphore_obtained env c"
      and rr: "\<not> stale (fst (acquire_1 env)) \<or> resize_returns (surface_1 env) (built_1 env) e"
      and ok: "final_acquire env = VK_SUCCESS \<longrightarrow>
                 (\<not> stale (fst (acquire_1 env)) \<or> resize_keeps (surface_1 env) (built_1 env) e)
                 \<and> unat (final_index env) < length (perFrame c)"
  shows "\<exists>res evs e2 c2.
      bind_result (acquireNextSwapchainImage (semaphore_1 env) (acquire_1 env) (e, c)) (\<lambda>(res, s1).
        bind_result
          (if stale res then
             bind_result (resize (surface_1 env) (built_1 env) s1) (\<lambda>(ok, revs, s').
               let log = (if \<not> ok then [LogI ''Resize failed''] else [])
               in bind_result (acquireNextSwapchainImage (semaphore_2 env) (acquire_2 env) s')
                    (\<lambda>(res', s''). Inr (res', [Acquire res] @ revs @ log @ [Acquire res'], s'')))
           else Inr (res, [Acquire res], s1))
          K) = K (res, evs, e2, c2)
      \<and> res = final_acquire env
      \<and> (final_acquire env = VK_SUCCESS \<longrightarrow>
           e2 = acquired env e
         \<and> length (perFrame c2) = length (perFrame c)
         \<and> (\<forall>i<length (perFrame c). entry_ready (perFrame c2 ! i) = entry_ready (perFrame c ! i)))"
    (is "\<exists>res evs e2 c2. ?L = _ \<and> _")
proof (cases "stale (fst (acquire_1 env))")
  case False
  then have fa: "final_acquire env = fst (acquire_1 env)" "final_index env = snd (acquire_1 env)"
    by (simp_all add: final_acquire_def final_index_def)
  from so ok have "recycledSemaphores c \<noteq> [] \<or> semaphore_1 env = VK_SUCCESS"
    and "fst (acquire_1 env) = VK_SUCCESS \<longrightarrow> unat (snd (acquire_1 env)) < length (perFrame c)"
    by (auto simp: semaphore_obtained_def fa)
  from acquire_returns [OF this, of e] obtain c1 where
    a1: "acquireNextSwapchainImage (semaphore_1 env) (acquire_1 env) (e, c)
           = Inr (fst (acquire_1 env), indexed (acquire_1 env) e, c1)" by blast
  have "final_acquire env = VK_SUCCESS \<longrightarrow> indexed (acquire_1 env) e = acquired env e"
    using False
    by (auto simp: indexed_def acquired_def final_acquire_def final_index_def dimensions_1_def)
  with acquire_Inr(3,4) [OF a1]
  have imp: "final_acquire env = VK_SUCCESS \<longrightarrow>
           indexed (acquire_1 env) e = acquired env e
         \<and> length (perFrame c1) = length (perFrame c)
         \<and> (\<forall>i<length (perFrame c). entry_ready (perFrame c1 ! i) = entry_ready (perFrame c ! i))"
    by simp
  have eq: "?L = K (final_acquire env, [Acquire (fst (acquire_1 env))], indexed (acquire_1 env) e, c1)"
    using a1 False by (simp add: bind_result_Inr fa)
  show ?thesis
    by (intro exI conjI, rule eq, rule refl, rule imp)
next
  case True
  then have fa: "final_acquire env = fst (acquire_2 env)" "final_index env = snd (acquire_2 env)"
    and ns: "fst (acquire_1 env) \<noteq> VK_SUCCESS"
    by (simp_all add: final_acquire_def final_index_def stale_not_success)
  from so ns have "recycledSemaphores c \<noteq> [] \<or> semaphore_1 env = VK_SUCCESS"
    and "fst (acquire_1 env) = VK_SUCCESS \<longrightarrow> unat (snd (acquire_1 env)) < length (perFrame c)"
    by (auto simp: semaphore_obtained_def)
  from acquire_returns [OF this, of e] obtain c1 where
    a1: "acquireNextSwapchainImage (semaphore_1 env) (acquire_1 env) (e, c)
           = Inr (fst (acquire_1 env), indexed (acquire_1 env) e, c1)" by blast
  from acquire_Inr(6) [OF a1] ns
  have c1: "perFrame c1 = perFrame c" "recycledSemaphores c1 \<noteq> []" by auto
  let ?e1 = "indexed (acquire_1 env) e"
  from rr True have "resize_returns (surface_1 env) (built_1 env) ?e1"
    by (simp add: resize_returns_cong(1) [of ?e1 e] indexed_fields)
  from resize_returns_Inr [OF this, of c1] obtain ok revs e' c' where
    rs: "resize (surface_1 env) (built_1 env) (?e1, c1) = Inr (ok, revs, e', c')" by blast
  note r2 = resize_Inr [OF rs]
  have keep: "final_acquire env = VK_SUCCESS \<longrightarrow> c' = c1"
    using ok True r2(4) by (simp add: resize_returns_cong(2) [of ?e1 e] indexed_fields)
  have "recycledSemaphores c' \<noteq> [] \<or> semaphore_2 env = VK_SUCCESS"
    by (simp add: r2(3) c1)
  moreover have "fst (acquire_2 env) = VK_SUCCESS \<longrightarrow> unat (snd (acquire_2 env)) < length (perFrame c')"
    using ok keep c1 by (auto simp: fa)
  ultimately obtain c'' where
    a2: "acquireNextSwapchainImage (semaphore_2 env) (acquire_2 env) (e', c')
           = Inr (fst (acquire_2 env), indexed (acquire_2 env) e', c'')"
    using acquire_returns [of c' "semaphore_2 env" "acquire_2 env" e'] by blast
  have e2: "final_acquire env = VK_SUCCESS \<longrightarrow> indexed (acquire_2 env) e' = acquired env e"
    using True
    by (auto simp: r2(2) indexed_def resized_def acquired_def final_acquire_def final_index_def
        dimensions_1_def rebuilt_1_def stale_def split: option.splits)
  have pf: "final_acquire env = VK_SUCCESS \<longrightarrow>
         length (perFrame c'') = length (perFrame c)
         \<and> (\<forall>i<length (perFrame c). entry_ready (perFrame c'' ! i) = entry_ready (perFrame c ! i))"
    using acquire_Inr(3,4) [OF a2] keep c1 by auto
  from e2 pf
  have imp: "final_acquire env = VK_SUCCESS \<longrightarrow>
           indexed (acquire_2 env) e' = acquired env e
         \<and> length (perFrame c'') = length (perFrame c)
         \<and> (\<forall>i<length (perFrame c). entry_ready (perFrame c'' ! i) = entry_ready (perFrame c ! i))"
    by simp
  have eq: "?L = K (final_acquire env,
                    [Acquire (fst (acquire_1 env))] @ revs
                      @ (if \<not> ok then [LogI ''Resize failed''] else [])
                      @ [Acquire (fst (acquire_2 env))],
                    indexed (acquire_2 env) e', c'')"
    using True a1 rs a2 by (simp add: bind_result_Inr Let_def fa)
  show ?thesis
    by (intro exI conjI, rule eq, rule refl, rule imp)
qed

lemma frame_engine:
  assumes "frame ms e = Some (copies, cmds, e')"
  shows "device e' = device e" and "swapchainDimensions e' = swapchainDimensions e"
proof -
  let ?e2 = "e\<lparr>m_shadowCastingNodes := vector_resize (m_shadowCastingNodes e) (length (m_nodes e)),
               m_visibleNodes := vector_resize (m_visibleNodes e) (length (m_nodes e))\<rparr>"
  let ?e3 = "fst (updateUBO ms ?e2)"
  obtain a b where e3: "?e3 = ?e2\<lparr>m_shadowCastingNodes := a, m_visibleNodes := b\<rparr>"
    using updateUBO_frame by blast
  from assms have r: "render ?e3 (currentIndex ?e3) = Some (cmds, e')"
    by (auto simp: frame_def Let_def split_beta split: option.splits)
  from render_Some [OF r] obtain m where e': "e' = ?e3\<lparr>meshBufferMap := m\<rparr>" by blast
  show "device e' = device e" by (simp add: e' e3)
  show "swapchainDimensions e' = swapchainDimensions e" by (simp add: e' e3)
qed

lemma acquired_fields:
  "m_nodes (acquired env e) = m_nodes e"
  "device (acquired env e) = device e"
  "swapchainDimensions (acquired env e) = dimensions_1 env e"
  "currentIndex (acquired env e) = final_index env"
  by (simp_all add: acquired_def)

text \<open>What follows the present, on the engine that the frame has left.\<close>

lemma present_phase_Inr:
  assumes fr: "frame (matrices env) (acquired env e) = Some (copies, cmds, e3)"
      and p: "(let res = present_result env;
                  evs' = evs0 @ [CopyUBO copies, Submit cmds, Present res]
              in if stale res then
                   bind_result (resize (surface_2 env) (built_2 env) (e3, cx)) (\<lambda>(ok, revs, s4).
                     let log = (if \<not> ok then [LogI ''Resize failed''] else [])
                     in Inr (evs' @ revs @ log, s4))
                 else if res \<noteq> VK_SUCCESS then
                   Inr (evs' @ [LogE ''Failed to present swapchain image.''], e3, cx)
                 else Inr (evs', e3, cx)) = Inr (evs, s')"
  shows "evs = evs0 @ [CopyUBO copies, Submit cmds, Present (present_result env)] @ present_events env e"
proof (cases "stale (present_result env)")
  case False
  with p show ?thesis by (auto simp: Let_def present_events_def split: if_splits)
next
  case True
  with p obtain ok revs e4 cy where
    rs: "resize (surface_2 env) (built_2 env) (e3, cx) = Inr (ok, revs, e4, cy)"
    and ev: "evs = (evs0 @ [CopyUBO copies, Submit cmds, Present (present_result env)])
                   @ (revs @ (if \<not> ok then [LogI ''Resize failed''] else []))"
    by (auto simp: Let_def bind_result_eq_Inr)
  have "revs @ (if \<not> ok then [LogI ''Resize failed''] else []) = present_events env e"
    using True resize_Inr(1) [OF rs] frame_engine [OF fr]
    by (simp add: present_events_def rebuilt_2_def acquired_fields)
  with ev show ?thesis by simp
qed

lemma update_Inr:
  assumes u: "update env (e, c) = Inr (evs, e', c')"
  shows "final_acquire env \<noteq> VK_SUCCESS \<longrightarrow>
           evs = acquire_events env e @ [QueueWaitIdle]
         \<and> m_nodes e' = m_nodes e
         \<and> m_shadowCastingNodes e' = m_shadowCastingNodes e
         \<and> m_visibleNodes e' = m_visibleNodes e"
    and "final_acquire env = VK_SUCCESS \<longrightarrow>
           (\<exists>copies cmds e3.
               frame (matrices env) (acquired env e) = Some (copies, cmds, e3)
             \<and> evs = acquire_events env e
                       @ [CopyUBO copies, Submit cmds, Present (present_result env)]
                       @ present_events env e)"
proof -
  from acquire_phase_Inr [OF u [unfolded update_def]] obtain e2 c2 where
    k: "(if final_acquire env \<noteq> VK_SUCCESS then Inr (acquire_events env e @ [QueueWaitIdle], e2, c2)
          else
            bind_result (run_frame env (e2, c2)) (\<lambda>(copies, cmds, s3).
              let res = present_result env;
                  evs' = acquire_events env e @ [CopyUBO copies, Submit cmds, Present res]
              in if stale res then
                   bind_result (resize (surface_2 env) (built_2 env) s3) (\<lambda>(ok, revs, s4).
                     let log = (if \<not> ok then [LogI ''Resize failed''] else [])
                     in Inr (evs' @ revs @ log, s4))
                 else if res \<noteq> VK_SUCCESS then
                   Inr (evs' @ [LogE ''Failed to present swapchain image.''], s3)
                 else Inr (evs', s3))) = Inr (evs, e', c')"
    and f: "m_nodes e2 = m_nodes e" "m_shadowCastingNodes e2 = m_shadowCastingNodes e"
           "m_visibleNodes e2 = m_visibleNodes e"
    and a: "final_acquire env = VK_SUCCESS \<longrightarrow> e2 = acquired env e"
    by auto
  show "final_acquire env \<noteq> VK_SUCCESS \<longrightarrow>
           evs = acquire_events env e @ [QueueWaitIdle]
         \<and> m_nodes e' = m_nodes e
         \<and> m_shadowCastingNodes e' = m_shadowCastingNodes e
         \<and> m_visibleNodes e' = m_visibleNodes e"
    using k f by auto
  show "final_acquire env = VK_SUCCESS \<longrightarrow>
           (\<exists>copies cmds e3.
               frame (matrices env) (acquired env e) = Some (copies, cmds, e3)
             \<and> evs = acquire_events env e
                       @ [CopyUBO copies, Submit cmds, Present (present_result env)]
                       @ present_events env e)"
  proof
    assume fa: "final_acquire env = VK_SUCCESS"
    with a have e2: "e2 = acquired env e" by simp
    from k fa obtain copies cmds e3 c3 where
      rf: "run_frame env (e2, c2) = Inr (copies, cmds, e3, c3)"
      and p: "(let res = present_result env;
                  evs' = acquire_events env e @ [CopyUBO copies, Submit cmds, Present res]
              in if stale res then
                   bind_result (resize (surface_2 env) (built_2 env) (e3, c3)) (\<lambda>(ok, revs, s4).
                     let log = (if \<not> ok then [LogI ''Resize failed''] else [])
                     in Inr (evs' @ revs @ log, s4))
                 else if res \<noteq> VK_SUCCESS then
                   Inr (evs' @ [LogE ''Failed to present swapchain image.''], e3, c3)
                 else Inr (evs', e3, c3)) = Inr (evs, e', c')"
      by (auto simp: bind_result_eq_Inr)
    from run_frame_Inr [OF rf] have fr: "frame (matrices env) (acquired env e) = Some (copies, cmds, e3)"
      by (simp add: e2)
    from present_phase_Inr [OF fr p] fr
    show "\<exists>copies cmds e3.
               frame (matrices env) (acquired env e) = Some (copies, cmds, e3)
             \<and> evs = acquire_events env e
                       @ [CopyUBO copies, Submit cmds, Present (present_result env)]
                       @ present_events env e"
      by blast
  qed
qed

text \<open>When \<open>update\<close> throws on the stale-surface path, and when it returns.\<close>

lemma update_throws:
  assumes so: "semaphore_obtained env c"
      and st: "stale (fst (acquire_1 env))"
      and dv: "device e \<noteq> 0"
      and sp: "fst (surface_1 env) \<noteq> VK_SUCCESS"
  shows "update env (e, c) = Inl (Vulkan_error (fst (surface_1 env)))"
proof -
  from st have ns: "fst (acquire_1 env) \<noteq> VK_SUCCESS" by (rule stale_not_success)
  from so ns have "recycledSemaphores c \<noteq> [] \<or> semaphore_1 env = VK_SUCCESS"
    and "fst (acquire_1 env) = VK_SUCCESS \<longrightarrow> unat (snd (acquire_1 env)) < length (perFrame c)"
    by (auto simp: semaphore_obtained_def)
  from acquire_returns [OF this, of e] obtain c1 where
    a1: "acquireNextSwapchainImage (semaphore_1 env) (acquire_1 env) (e, c)
           = Inr (fst (acquire_1 env), indexed (acquire_1 env) e, c1)" by blast
  from dv have "device (indexed (acquire_1 env) e) \<noteq> 0" by (simp add: indexed_fields)
  from resize_throws [OF this sp]
  have "resize (surface_1 env) (built_1 env) (indexed (acquire_1 env) e, c1)
          = Inl (Vulkan_error (fst (surface_1 env)))" .
  with a1 st show ?thesis
    by (simp add: update_def bind_result_Inr bind_result_Inl)
qed

lemma update_returns:
  assumes so: "semaphore_obtained env c"
      and rr: "\<not> stale (fst (acquire_1 env)) \<or> resize_returns (surface_1 env) (built_1 env) e"
      and ok: "final_acquire env = VK_SUCCESS \<longrightarrow>
                 (\<not> stale (fst (acquire_1 env)) \<or> resize_keeps (surface_1 env) (built_1 env) e)
                 \<and> unat (final_index env) < length (perFrame c)
                 \<and> entry_ready (perFrame c ! unat (final_index env))
                 \<and> list_all (\<lambda>node. m_mesh node \<noteq> None) (m_nodes e)
                 \<and> frame_checks env = VK_SUCCESS
                 \<and> (\<not> stale (present_result env) \<or> resize_returns (surface_2 env) (built_2 env) e)"
  shows "\<exists>evs e' c'. update env (e, c) = Inr (evs, e', c')"
proof -
  let ?K = "\<lambda>(res, evs, s2).
          if res \<noteq> VK_SUCCESS then Inr (evs @ [QueueWaitIdle], s2)
          else
            bind_result (run_frame env s2) (\<lambda>(copies, cmds, s3).
              let res = present_result env;
                  evs' = evs @ [CopyUBO copies, Submit cmds, Present res]
              in if stale res then
                   bind_result (resize (surface_2 env) (built_2 env) s3) (\<lambda>(ok, revs, s4).
                     let log = (if \<not> ok then [LogI ''Resize failed''] else [])
                     in Inr (evs' @ revs @ log, s4))
                 else if res \<noteq> VK_SUCCESS then
                   Inr (evs' @ [LogE ''Failed to present swapchain image.''], s3)
                 else Inr (evs', s3))"
  from ok have ok': "final_acquire env = VK_SUCCESS \<longrightarrow>
                 (\<not> stale (fst (acquire_1 env)) \<or> resize_keeps (surface_1 env) (built_1 env) e)
                 \<and> unat (final_index env) < length (perFrame c)" by simp
  have "\<exists>res evs e2 c2. update env (e, c) = ?K (res, evs, e2, c2)
      \<and> res = final_acquire env
      \<and> (final_acquire env = VK_SUCCESS \<longrightarrow>
           e2 = acquired env e
         \<and> length (perFrame c2) = length (perFrame c)
         \<and> (\<forall>i<length (perFrame c). entry_ready (perFrame c2 ! i) = entry_ready (perFrame c ! i)))"
    unfolding update_def by (rule acquire_phase_returns [OF so rr ok'])
  then obtain evs0 e2 c2 where
    u: "update env (e, c) = ?K (final_acquire env, evs0, e2, c2)"
    and f: "final_acquire env = VK_SUCCESS \<longrightarrow>
           e2 = acquired env e
         \<and> length (perFrame c2) = length (perFrame c)
         \<and> (\<forall>i<length (perFrame c). entry_ready (perFrame c2 ! i) = entry_ready (perFrame c ! i))"
    by blast
  show ?thesis
  proof (cases "final_acquire env = VK_SUCCESS")
    case False
    with u show ?thesis by simp
  next
    case True
    with f have e2: "e2 = acquired env e"
      and len: "length (perFrame c2) = length (perFrame c)"
      and rdy: "\<forall>i<length (perFrame c). entry_ready (perFrame c2 ! i) = entry_ready (perFrame c ! i)"
      by simp_all
    from ok True have keep: "\<not> stale (fst (acquire_1 env)) \<or> resize_keeps (surface_1 env) (built_1 env) e"
      and idx: "unat (final_index env) < length (perFrame c)"
      and er: "entry_ready (perFrame c ! unat (final_index env))"
      and ms: "list_all (\<lambda>node. m_mesh node \<noteq> None) (m_nodes e)"
      and fc: "frame_checks env = VK_SUCCESS"
      and pr: "\<not> stale (present_result env) \<or> resize_returns (surface_2 env) (built_2 env) e"
      by simp_all
    have "unat (currentIndex e2) < length (perFrame c2)"
      and "entry_ready (perFrame c2 ! unat (currentIndex e2))"
      and "list_all (\<lambda>node. m_mesh node \<noteq> None) (m_nodes e2)"
      using idx er ms rdy by (simp_all add: e2 acquired_fields len)
    from run_frame_returns [OF this fc] obtain copies cmds e3 cx where
      rf: "run_frame env (e2, c2) = Inr (copies, cmds, e3, cx)" by blast
    from run_frame_Inr [OF rf] have fr: "frame (matrices env) (acquired env e) = Some (copies, cmds, e3)"
      by (simp add: e2)
    show ?thesis
    proof (cases "stale (present_result env)")
      case False
      with u True rf show ?thesis by (simp add: bind_result_Inr Let_def)
    next
      case st: True
      have "device e3 = device e" "swapchainDimensions e3 = swapchainDimensions e"
        using frame_engine [OF fr] kept_dimensions [OF keep] by (simp_all add: acquired_fields)
      from resize_returns_cong(1) [OF this] pr st
      have "resize_returns (surface_2 env) (built_2 env) e3" by simp
      from resize_returns_Inr [OF this, of cx] obtain okk revs e4 cy where
        "resize (surface_2 env) (built_2 env) (e3, cx) = Inr (okk, revs, e4, cy)" by blast
      with u True rf st show ?thesis by (simp add: bind_result_Inr Let_def)
    qed
  qed
qed

text \<open>What the events of the two phases hold.\<close>

lemma resize_events_filter:
  "filter is_Acquire (resize_events b built) = []"
  "filter is_Present (resize_events b built) = []"
  "filter is_frame_work (resize_events b built) = []"
  by (simp_all add: resize_events_def split: option.splits)

lemma acquire_events_filter:
  "length (filter is_Acquire (acquire_events env e)) = (if stale (fst (acquire_1 env)) then 2 else 1)"
  "filter is_frame_work (acquire_events env e) = []"
  by (simp_all add: acquire_events_def resize_events_filter)

lemma present_events_filter:
  "filter is_Present (present_events env e) = []"
  "filter is_Acquire (present_events env e) = []"
  by (simp_all add: present_events_def resize_events_filter)

text \<open>
  Claim C8, as amended.  When the first acquire reports an out-of-date or suboptimal
  surface, \<open>update\<close> calls \<open>resize\<close>, which rebuilds the swapchain only with a device
  and a surface extent that differs from the recorded dimensions (and \<open>update\<close> logs
  the failure otherwise), and acquires exactly once more.  Whenever \<open>update\<close> returns:
  if the last acquire is not a success the frame is skipped, the trace is the acquire
  phase followed by the wait for queue idle, with no uniform write, no submission and no
  present, and the node list and the two flag vectors are as before; if it is a success
  the trace is the acquire phase, the frame on the engine with the acquired image, one
  present, and what follows the present, which after an out-of-date or suboptimal
  present is the \<open>resize\<close> only, with neither a second present nor another acquire.
  A skipped frame returns when the first acquire and the \<open>resize\<close> return; a frame that
  starts on the swapchain it found returns under the further conditions of
  \<open>frame_returns\<close>; a failing surface query in \<open>resize\<close> throws out of \<open>update\<close>.
\<close>

theorem update_stale_surface:
  "(\<forall>evs e' c'. update env (e, c) = Inr (evs, e', c') \<longrightarrow>
       (final_acquire env \<noteq> VK_SUCCESS \<longrightarrow>
          evs = acquire_events env e @ [QueueWaitIdle]
        \<and> m_nodes e' = m_nodes e
        \<and> m_shadowCastingNodes e' = m_shadowCastingNodes e
        \<and> m_visibleNodes e' = m_visibleNodes e)
     \<and> (final_acquire env = VK_SUCCESS \<longrightarrow>
          (\<exists>copies cmds e3.
              frame (matrices env) (acquired env e) = Some (copies, cmds, e3)
            \<and> evs = acquire_events env e
                      @ [CopyUBO copies, Submit cmds, Present (present_result env)]
                      @ present_events env e)))
   \<and> (skip_returns env (e, c) \<and> final_acquire env \<noteq> VK_SUCCESS \<longrightarrow>
        (\<exists>e' c'. update env (e, c) = Inr (acquire_events env e @ [QueueWaitIdle], e', c')))
   \<and> (frame_returns env (e, c) \<and> final_acquire env = VK_SUCCESS \<longrightarrow>
        (\<exists>evs e' c'. update env (e, c) = Inr (evs, e', c')))
   \<and> (semaphore_obtained env c \<and> stale (fst (acquire_1 env)) \<and> device e \<noteq> 0
        \<and> fst (surface_1 env) \<noteq> VK_SUCCESS \<longrightarrow>
        update env (e, c) = Inl (Vulkan_error (fst (surface_1 env))))
   \<and> length (filter is_Acquire (acquire_events env e)) = (if stale (fst (acquire_1 env)) then 2 else 1)
   \<and> filter is_frame_work (acquire_events env e) = []
   \<and> filter is_Present (present_events env e) = []
   \<and> filter is_Acquire (present_events env e) = []"
proof -
  have returned: "\<forall>evs e' c'. update env (e, c) = Inr (evs, e', c') \<longrightarrow>
       (final_acquire env \<noteq> VK_SUCCESS \<longrightarrow>
          evs = acquire_events env e @ [QueueWaitIdle]
        \<and> m_nodes e' = m_nodes e
        \<and> m_shadowCastingNodes e' = m_shadowCastingNodes e
        \<and> m_visibleNodes e' = m_visibleNodes e)
     \<and> (final_acquire env = VK_SUCCESS \<longrightarrow>
          (\<exists>copies cmds e3.
              frame (matrices env) (acquired env e) = Some (copies, cmds, e3)
            \<and> evs = acquire_events env e
                      @ [CopyUBO copies, Submit cmds, Present (present_result env)]
                      @ present_events env e))"
    using update_Inr [of env e c] by blast
  have skipped: "skip_returns env (e, c) \<and> final_acquire env \<noteq> VK_SUCCESS \<longrightarrow>
        (\<exists>e' c'. update env (e, c) = Inr (acquire_events env e @ [QueueWaitIdle], e', c'))"
  proof
    assume h: "skip_returns env (e, c) \<and> final_acquire env \<noteq> VK_SUCCESS"
    then have "semaphore_obtained env c"
      and "\<not> stale (fst (acquire_1 env)) \<or> resize_returns (surface_1 env) (built_1 env) e"
      by (simp_all add: skip_returns_def)
    from update_returns [OF this] h obtain evs e' c' where
      u: "update env (e, c) = Inr (evs, e', c')" by auto
    from update_Inr(1) [OF u] h have "evs = acquire_events env e @ [QueueWaitIdle]" by simp
    with u show "\<exists>e' c'. update env (e, c) = Inr (acquire_events env e @ [QueueWaitIdle], e', c')"
      by blast
  qed
  have run: "frame_returns env (e, c) \<and> final_acquire env = VK_SUCCESS \<longrightarrow>
        (\<exists>evs e' c'. update env (e, c) = Inr (evs, e', c'))"
  proof
    assume h: "frame_returns env (e, c) \<and> final_acquire env = VK_SUCCESS"
    then have so: "semaphore_obtained env c"
      and keep: "\<not> stale (fst (acquire_1 env)) \<or> resize_keeps (surface_1 env) (built_1 env) e"
      and rest: "unat (final_index env) < length (perFrame c)
                 \<and> entry_ready (perFrame c ! unat (final_index env))
                 \<and> list_all (\<lambda>node. m_mesh node \<noteq> None) (m_nodes e)
                 \<and> frame_checks env = VK_SUCCESS
                 \<and> (\<not> stale (present_result env) \<or> resize_returns (surface_2 env) (built_2 env) e)"
      by (simp_all add: frame_returns_def)
    from keep have rr: "\<not> stale (fst (acquire_1 env)) \<or> resize_returns (surface_1 env) (built_1 env) e"
      using resize_keeps_returns by blast
    from keep rest show "\<exists>evs e' c'. update env (e, c) = Inr (evs, e', c')"
      by (intro update_returns [OF so rr]) simp
  qed
  have thrown: "semaphore_obtained env c \<and> stale (fst (acquire_1 env)) \<and> device e \<noteq> 0
        \<and> fst (surface_1 env) \<noteq> VK_SUCCESS \<longrightarrow>
        update env (e, c) = Inl (Vulkan_error (fst (surface_1 env)))"
    using update_throws [of env c e] by blast
  from returned skipped run thrown acquire_events_filter [of env e] present_events_filter [of env e]
  show ?thesis by (intro conjI)
qed

text \<open>The frames on the three-node scene.\<close>

lemma scene_engine_surface:
  "device scene_engine = 1"
  "swapchainDimensions scene_engine = (1024, 768)"
  by (simp_all add: scene_engine_def scene_engine_0_def initUBO_def initModelUB_def initShadowUB_def
      initSceneUB_def Let_def)

lemma scene_build_returns: "initSwapchain_returns (scene_build ext)" "build (scene_build ext) = Some ext"
  by (simp_all add: initSwapchain_returns_def scene_build_def)

lemma scene_update_events:
  "final_acquire env_acquire_fails = VK_ERROR_OUT_OF_DATE_KHR"
  "acquire_events env_acquire_fails scene_engine =
     [Acquire VK_ERROR_OUT_OF_DATE_KHR, DeviceWaitIdle, InitSwapchain, Acquire VK_ERROR_OUT_OF_DATE_KHR]"
  "final_acquire env_acquire_suboptimal = VK_SUCCESS"
  "acquire_events env_acquire_suboptimal scene_engine =
     [Acquire VK_SUBOPTIMAL_KHR, LogI ''Resize failed'', Acquire VK_SUCCESS]"
  "present_result env_acquire_suboptimal = VK_SUCCESS"
  "present_events env_acquire_suboptimal scene_engine = []"
  "final_acquire env_present_stale = VK_SUCCESS"
  "acquire_events env_present_stale scene_engine = [Acquire VK_SUCCESS]"
  "present_result env_present_stale = VK_ERROR_OUT_OF_DATE_KHR"
  "present_events env_present_stale scene_engine = [DeviceWaitIdle, InitSwapchain]"
  by (simp_all add: final_acquire_def acquire_events_def present_events_def resize_events_def
      rebuilt_1_def rebuilt_2_def dimensions_1_def stale_def scene_engine_surface
      scene_build_returns env_acquire_fails_def env_acquire_suboptimal_def env_present_stale_def)

lemma scene_skip_returns: "skip_returns env_acquire_fails (scene_engine, scene_context)"
  by (simp add: skip_returns_def semaphore_obtained_def resize_returns_def scene_build_returns
      env_acquire_fails_def)

lemma scene_frame_returns:
  "frame_returns env_acquire_suboptimal (scene_engine, scene_context)"
  "frame_returns env_present_stale (scene_engine, scene_context)"
  using scene_has_meshes
  by (simp_all add: frame_returns_def semaphore_obtained_def resize_keeps_def resize_returns_def
      scene_build_returns final_index_def stale_def scene_engine_surface scene_context_def
      prepared_entry_def entry_ready_def env_acquire_suboptimal_def env_present_stale_def)

lemma scene_surface_fails:
  "semaphore_obtained env_surface_fails scene_context"
  "stale (fst (acquire_1 env_surface_fails))"
  "device scene_engine \<noteq> 0"
  "fst (surface_1 env_surface_fails) = VK_OTHER (- 4)"
  by (simp_all add: semaphore_obtained_def stale_def scene_engine_surface env_surface_fails_def
      env_acquire_fails_def)

text \<open>
  On the scene: two out-of-date acquires around a rebuild skip the frame; a suboptimal
  acquire with the extent unchanged is followed by a second acquire and the frame; a
  failing surface query after an out-of-date acquire throws.
\<close>

theorem update_stale_surface_witness:
  "(\<exists>e' c'. update env_acquire_fails (scene_engine, scene_context) =
            Inr ([Acquire VK_ERROR_OUT_OF_DATE_KHR, DeviceWaitIdle, InitSwapchain,
                  Acquire VK_ERROR_OUT_OF_DATE_KHR, QueueWaitIdle], e', c')
        \<and> m_nodes e' = m_nodes scene_engine)
   \<and> (\<exists>copies cmds e' c'. update env_acquire_suboptimal (scene_engine, scene_context) =
            Inr ([Acquire VK_SUBOPTIMAL_KHR, LogI ''Resize failed'', Acquire VK_SUCCESS,
                  CopyUBO copies, Submit cmds, Present VK_SUCCESS], e', c'))
   \<and> update env_surface_fails (scene_engine, scene_context) = Inl (Vulkan_error (VK_OTHER (- 4)))"
proof -
  note fails = update_stale_surface [of env_acquire_fails scene_engine scene_context]
  note subopt = update_stale_surface [of env_acquire_suboptimal scene_engine scene_context]
  note surf = update_stale_surface [of env_surface_fails scene_engine scene_context]
  have ns: "final_acquire env_acquire_fails \<noteq> VK_SUCCESS"
    by (simp add: scene_update_events(1))
  from fails [THEN conjunct2, THEN conjunct1, rule_format, OF conjI, OF scene_skip_returns ns]
  obtain e' c' where
    u: "update env_acquire_fails (scene_engine, scene_context) =
          Inr (acquire_events env_acquire_fails scene_engine @ [QueueWaitIdle], e', c')"
    by blast
  from fails [THEN conjunct1, rule_format, OF u, THEN conjunct1, rule_format, OF ns]
  have "m_nodes e' = m_nodes scene_engine" by simp
  with u have a: "\<exists>e' c'. update env_acquire_fails (scene_engine, scene_context) =
            Inr ([Acquire VK_ERROR_OUT_OF_DATE_KHR, DeviceWaitIdle, InitSwapchain,
                  Acquire VK_ERROR_OUT_OF_DATE_KHR, QueueWaitIdle], e', c')
        \<and> m_nodes e' = m_nodes scene_engine"
    by (auto simp: scene_update_events(2))
  from subopt [THEN conjunct2, THEN conjunct2, THEN conjunct1, rule_format, OF conjI,
      OF scene_frame_returns(1) scene_update_events(3)]
  obtain evs e2 c2 where
    v: "update env_acquire_suboptimal (scene_engine, scene_context) = Inr (evs, e2, c2)"
    by blast
  from subopt [THEN conjunct1, rule_format, OF v, THEN conjunct2, rule_format, OF scene_update_events(3)]
  obtain copies cmds where
    "evs = [Acquire VK_SUBOPTIMAL_KHR, LogI ''Resize failed'', Acquire VK_SUCCESS,
            CopyUBO copies, Submit cmds, Present VK_SUCCESS]"
    by (auto simp: scene_update_events(4,5,6))
  with v have b: "\<exists>copies cmds e' c'. update env_acquire_suboptimal (scene_engine, scene_context) =
            Inr ([Acquire VK_SUBOPTIMAL_KHR, LogI ''Resize failed'', Acquire VK_SUCCESS,
                  CopyUBO copies, Submit cmds, Present VK_SUCCESS], e', c')" by blast
  have "fst (surface_1 env_surface_fails) \<noteq> VK_SUCCESS"
    by (simp add: scene_surface_fails(4))
  from surf [THEN conjunct2, THEN conjunct2, THEN conjunct2, THEN conjunct1, rule_format,
      OF conjI, OF scene_surface_fails(1) conjI, OF scene_surface_fails(2) conjI,
      OF scene_surface_fails(3) this]
  have c: "update env_surface_fails (scene_engine, scene_context) = Inl (Vulkan_error (VK_OTHER (- 4)))"
    by (simp add: scene_surface_fails(4))
  from a b c show ?thesis by (intro conjI)
qed

text \<open>The trace of a frame on the scene that is not skipped and returns.\<close>

lemma scene_update_trace:
  assumes fr: "frame_returns env (scene_engine, scene_context)"
      and fa: "final_acquire env = VK_SUCCESS"
  shows "update_trace env (scene_engine, scene_context) =
           Some (map skeleton (acquire_events env scene_engine)
                 @ [CopyUBO [], Submit [], Present (present_result env)]
                 @ map skeleton (present_events env scene_engine))"
proof -
  from fr have so: "semaphore_obtained env scene_context"
    and keep: "\<not> stale (fst (acquire_1 env)) \<or> resize_keeps (surface_1 env) (built_1 env) scene_engine"
    and rest: "unat (final_index env) < length (perFrame scene_context)
               \<and> entry_ready (perFrame scene_context ! unat (final_index env))
               \<and> list_all (\<lambda>node. m_mesh node \<noteq> None) (m_nodes scene_engine)
               \<and> frame_checks env = VK_SUCCESS
               \<and> (\<not> stale (present_result env)
                  \<or> resize_returns (surface_2 env) (built_2 env) scene_engine)"
    by (simp_all add: frame_returns_def)
  from keep have rr: "\<not> stale (fst (acquire_1 env))
      \<or> resize_returns (surface_1 env) (built_1 env) scene_engine"
    using resize_keeps_returns by blast
  from keep rest have "\<exists>evs e' c'. update env (scene_engine, scene_context) = Inr (evs, e', c')"
    by (intro update_returns [OF so rr]) simp
  then obtain evs e' c' where u: "update env (scene_engine, scene_context) = Inr (evs, e', c')"
    by blast
  from update_Inr(2) [OF u] fa obtain copies cmds where
    "evs = acquire_events env scene_engine
             @ [CopyUBO copies, Submit cmds, Present (present_result env)]
             @ present_events env scene_engine" by blast
  with u show ?thesis by (simp add: update_trace_def)
qed

text \<open>
  Claim C8 as stated fails in two ways.  After a present that reports an out-of-date
  surface the swapchain is rebuilt and the present is not tried again: the trace has one
  present.  After a suboptimal acquire with the surface extent unchanged nothing is
  rebuilt: \<open>resize\<close> returns false, the line is logged and the acquire is tried again.
\<close>

theorem update_present_not_retried_counterexample:
  "update_trace env_present_stale (scene_engine, scene_context) =
     Some [Acquire VK_SUCCESS, CopyUBO [], Submit [], Present VK_ERROR_OUT_OF_DATE_KHR,
           DeviceWaitIdle, InitSwapchain]
   \<and> update_trace env_acquire_suboptimal (scene_engine, scene_context) =
     Some [Acquire VK_SUBOPTIMAL_KHR, LogI ''Resize failed'', Acquire VK_SUCCESS,
           CopyUBO [], Submit [], Present VK_SUCCESS]"
  by (simp add: scene_update_trace scene_frame_returns scene_update_events)

text \<open>
  The frame that follows a rebuild in the same \<open>update\<close>.  \<open>initSwapchain\<close> replaces
  the per-frame entries by new ones with a fence, a command pool and a command buffer;
  the uniform buffers and descriptor sets that \<open>initUBO\<close> gave the old entries are not
  made again, and \<open>updateUBO\<close> hands \<open>VK_NULL_HANDLE\<close> to \<open>vmaCopyMemoryToAllocation\<close>.
\<close>

lemma run_frame_unprepared:
  assumes "sceneUniformBufferAllocation_pf (perFrame c ! unat (currentIndex e)) = VK_NULL_HANDLE"
  shows "run_frame env (e, c) = Inl Undefined_behaviour"
  using assms by (simp add: run_frame_def Let_def frame_handles_def split: option.splits)

lemma update_after_rebuild:
  "update env_acquire_rebuilds (scene_engine, scene_context) = Inl Undefined_behaviour"
proof -
  have a1: "acquireNextSwapchainImage VK_SUCCESS (VK_ERROR_OUT_OF_DATE_KHR, 0) (scene_engine, scene_context)
      = Inr (VK_ERROR_OUT_OF_DATE_KHR, scene_engine, scene_context\<lparr>recycledSemaphores := [Created]\<rparr>)"
    by (simp add: acquireNextSwapchainImage_def scene_context_def VK_CHECK_def bind_result_def)
  let ?fresh = "PerFrame_default\<lparr>queue_submit_fence := Created, primary_command_pool := Created,
                     primary_command_buffer := Created\<rparr>"
  have rs: "resize (VK_SUCCESS, (800, 600)) (scene_build (800, 600))
              (scene_engine, scene_context\<lparr>recycledSemaphores := [Created]\<rparr>)
      = Inr (True, [DeviceWaitIdle, InitSwapchain],
             scene_engine\<lparr>swapchainDimensions := (800, 600)\<rparr>,
             scene_context\<lparr>recycledSemaphores := [Created], perFrame := [?fresh, ?fresh]\<rparr>)"
    by (simp add: resize_def initSwapchain_def scene_build_def initPerFrame_returns
        scene_engine_surface VK_CHECK_def bind_result_def)
  have a2: "acquireNextSwapchainImage VK_SUCCESS (VK_SUCCESS, 0)
              (scene_engine\<lparr>swapchainDimensions := (800, 600)\<rparr>,
               scene_context\<lparr>recycledSemaphores := [Created], perFrame := [?fresh, ?fresh]\<rparr>)
      = Inr (VK_SUCCESS, scene_engine\<lparr>swapchainDimensions := (800, 600), currentIndex := 0\<rparr>,
             scene_context\<lparr>recycledSemaphores := [],
               perFrame := [?fresh\<lparr>swapchain_acquire_semaphore := Created\<rparr>, ?fresh]\<rparr>)"
    by (simp add: acquireNextSwapchainImage_def PerFrame_default_def bind_result_def Let_def)
  have rf: "run_frame env
              (scene_engine\<lparr>swapchainDimensions := (800, 600), currentIndex := 0\<rparr>,
               scene_context\<lparr>recycledSemaphores := [],
                 perFrame := [?fresh\<lparr>swapchain_acquire_semaphore := Created\<rparr>, ?fresh]\<rparr>)
      = Inl Undefined_behaviour" for env
    by (rule run_frame_unprepared) (simp add: PerFrame_default_def)
  show ?thesis
    by (simp add: update_def env_acquire_rebuilds_def env_acquire_fails_def stale_def a1 rs a2 rf
        bind_result_Inr bind_result_Inl)
qed

end
